(* ===== verification/Clir_Prelude.thy ===== *)
theory Clir_Prelude
  imports Main "HOL-Library.Monad_Syntax" "HOL-Library.While_Combinator"
begin

text \<open>
  Shared vocabulary of the development: the conventions for panics, the interface to the
  random number generator, and the generic facts on lists, options and relations that the
  component theories use.

  \<^bold>\<open>Panics.\<close> A Rust function that can panic (\<open>unwrap\<close> on \<open>None\<close>, \<open>expect\<close>, an
  explicit \<open>panic!\<close>, an index out of range, an empty range given to the generator) is
  modelled by a function into \<open>'a option\<close>: \<open>None\<close> is the panic and \<open>Some\<close> the value
  returned. Sequencing is the \<open>do\<close> notation of the option monad, so a panic anywhere
  aborts the caller, as it does in the program.

  \<^bold>\<open>Randomness.\<close> The crate \<open>rand\<close> is not part of the repository. It is the parameter
  \<open>R\<close> below, a record of the calls the program makes, each of which takes the state of
  the (thread local) generator and returns the drawn value with the next state. What the
  program relies on is the documented range of each call, stated by \<open>rand_ok\<close>; nothing is
  assumed about distributions.
\<close>

subsection \<open>Collections of facts\<close>

named_theorems option_dest
named_theorems ir_simps
named_theorems frame_simps

subsection \<open>The random number generator as a parameter\<close>

record 'r rand =
  gen_range :: "nat \<Rightarrow> nat \<Rightarrow> 'r \<Rightarrow> nat \<times> 'r"
  gen_range_int :: "int \<Rightarrow> int \<Rightarrow> 'r \<Rightarrow> int \<times> 'r"
  gen_bool :: "'r \<Rightarrow> bool \<times> 'r"
  gen_above_ratio :: "'r \<Rightarrow> bool \<times> 'r"
  gen_bits :: "nat \<Rightarrow> 'r \<Rightarrow> nat \<times> 'r"
  choose_index :: "nat \<Rightarrow> 'r \<Rightarrow> nat \<times> 'r"
  sample_indices :: "nat \<Rightarrow> nat \<Rightarrow> 'r \<Rightarrow> nat list \<times> 'r"

text \<open>
  \<open>gen_range lo hi\<close> is \<open>rng.gen_range(lo..hi)\<close> on unsigned integers, \<open>gen_range_int lo hi\<close>
  is \<open>rng.gen_range(lo..=hi)\<close> on signed ones, \<open>gen_bool\<close> is \<open>rng.gen_bool(p)\<close>,
  \<open>gen_above_ratio\<close> is the test \<open>rng.gen_range(0.0..1.0) > 0.1\<close>, \<open>gen_bits w\<close> draws a value
  of a \<open>w\<close> bit type by its bit pattern, \<open>choose_index n\<close> is the index drawn by \<open>choose\<close> on a
  collection of \<open>n\<close> elements, and \<open>sample_indices n k\<close> are the indices drawn by
  \<open>choose_multiple(k)\<close> from \<open>n\<close> elements.
\<close>

definition rand_ok :: "('r, 'e) rand_scheme \<Rightarrow> bool" where
  "rand_ok R \<longleftrightarrow>
     (\<forall>lo hi r. lo < hi \<longrightarrow> lo \<le> fst (gen_range R lo hi r) \<and> fst (gen_range R lo hi r) < hi) \<and>
     (\<forall>lo hi r. lo \<le> hi \<longrightarrow> lo \<le> fst (gen_range_int R lo hi r) \<and> fst (gen_range_int R lo hi r) \<le> hi) \<and>
     (\<forall>w r. fst (gen_bits R w r) < 2 ^ w) \<and>
     (\<forall>n r. 0 < n \<longrightarrow> fst (choose_index R n r) < n) \<and>
     (\<forall>n k r. length (fst (sample_indices R n k r)) = min k n \<and>
        distinct (fst (sample_indices R n k r)) \<and> set (fst (sample_indices R n k r)) \<subseteq> {..<n})"

definition rng_gen_range :: "('r, 'e) rand_scheme \<Rightarrow> nat \<Rightarrow> nat \<Rightarrow> 'r \<Rightarrow> (nat \<times> 'r) option" where
  "rng_gen_range R lo hi r = (if lo < hi then Some (gen_range R lo hi r) else None)"

definition rng_choose :: "('r, 'e) rand_scheme \<Rightarrow> 'a list \<Rightarrow> 'r \<Rightarrow> 'a option \<times> 'r" where
  "rng_choose R xs r =
     (if xs = [] then (None, r)
      else (let (i, r') = choose_index R (length xs) r in (Some (xs ! i), r')))"

text \<open>\<open>xs.choose(&mut rng).unwrap()\<close>: panics on an empty collection.\<close>

definition rng_choose_unwrap :: "('r, 'e) rand_scheme \<Rightarrow> 'a list \<Rightarrow> 'r \<Rightarrow> ('a \<times> 'r) option" where
  "rng_choose_unwrap R xs r =
     (case rng_choose R xs r of (None, _) \<Rightarrow> None | (Some x, r') \<Rightarrow> Some (x, r'))"

definition rng_choose_multiple :: "('r, 'e) rand_scheme \<Rightarrow> 'a list \<Rightarrow> nat \<Rightarrow> 'r \<Rightarrow> 'a list \<times> 'r" where
  "rng_choose_multiple R xs k r =
     (let (is, r') = sample_indices R (length xs) k r in (map ((!) xs) is, r'))"

lemma rand_ok_gen_range:
  "rand_ok R \<Longrightarrow> gen_range R lo hi r = (n, r') \<Longrightarrow> lo < hi \<Longrightarrow> lo \<le> n \<and> n < hi"
  unfolding rand_ok_def by (metis fst_conv)

lemma rng_gen_range_SomeD [option_dest]:
  "rng_gen_range R lo hi r = Some (n, r') \<Longrightarrow> rand_ok R \<Longrightarrow> lo \<le> n \<and> n < hi"
  by (auto simp: rng_gen_range_def rand_ok_gen_range split: if_splits)

lemma rng_gen_range_ex:
  "rand_ok R \<Longrightarrow> lo < hi \<Longrightarrow> \<exists>n r'. rng_gen_range R lo hi r = Some (n, r') \<and> lo \<le> n \<and> n < hi"
  by (metis rng_gen_range_def rand_ok_gen_range surj_pair)

lemma rand_ok_choose_index:
  "rand_ok R \<Longrightarrow> choose_index R n r = (i, r') \<Longrightarrow> 0 < n \<Longrightarrow> i < n"
  unfolding rand_ok_def by (metis fst_conv)

lemma rng_choose_unwrap_SomeD [option_dest]:
  "rng_choose_unwrap R xs r = Some (x, r') \<Longrightarrow> rand_ok R \<Longrightarrow> x \<in> set xs"
  by (auto simp: rng_choose_unwrap_def rng_choose_def rand_ok_choose_index Let_def
      split: if_splits prod.splits option.splits)

lemma rng_choose_unwrap_None [simp]: "rng_choose_unwrap R xs r = None \<longleftrightarrow> xs = []"
  by (auto simp: rng_choose_unwrap_def rng_choose_def split: prod.splits)

lemma rng_choose_unwrap_ex:
  assumes "rand_ok R" and "xs \<noteq> []"
  shows "\<exists>x r'. rng_choose_unwrap R xs r = Some (x, r') \<and> x \<in> set xs"
proof -
  from assms(2) obtain x r' where "rng_choose_unwrap R xs r = Some (x, r')"
    using rng_choose_unwrap_None [of R xs r] by fastforce
  with assms(1) show ?thesis
    by (blast dest: rng_choose_unwrap_SomeD)
qed

lemma rng_choose_multiple_props:
  assumes "rand_ok R" and "rng_choose_multiple R xs k r = (ys, r')"
  shows "length ys = min k (length xs)" and "set ys \<subseteq> set xs" and "distinct xs \<Longrightarrow> distinct ys"
proof -
  obtain js where js: "sample_indices R (length xs) k r = (js, r')" and ys: "ys = map ((!) xs) js"
    using assms(2) by (auto simp: rng_choose_multiple_def split: prod.splits)
  have ok: "length js = min k (length xs)" "distinct js" "set js \<subseteq> {..<length xs}"
    using assms(1) js unfolding rand_ok_def by (metis fst_conv)+
  show "length ys = min k (length xs)" using ok(1) ys by simp
  show "set ys \<subseteq> set xs" using ok(3) ys by auto
  show "distinct ys" if "distinct xs"
    using that ok(2,3) ys by (auto simp: distinct_map inj_on_def nth_eq_iff_index_eq subset_iff)
qed

subsection \<open>A concrete generator\<close>

text \<open>
  A generator that replays a tape of numbers, each reduced into the range asked for; after
  the end of the tape every draw is the least value of its range. It meets \<open>rand_ok\<close>, so the
  hypothesis of the theorems is satisfiable, and it is the one the witnesses run.
\<close>

definition tape_pop :: "nat list \<Rightarrow> nat \<times> nat list" where
  "tape_pop r = (case r of [] \<Rightarrow> (0, []) | x # xs \<Rightarrow> (x, xs))"

definition tape_rand :: "nat list rand" where
  "tape_rand =
     \<lparr>gen_range = (\<lambda>lo hi r. let (x, r') = tape_pop r in (lo + x mod (hi - lo), r')),
      gen_range_int = (\<lambda>lo hi r. let (x, r') = tape_pop r in (lo + int x mod (hi - lo + 1), r')),
      gen_bool = (\<lambda>r. let (x, r') = tape_pop r in (odd x, r')),
      gen_above_ratio = (\<lambda>r. let (x, r') = tape_pop r in (odd x, r')),
      gen_bits = (\<lambda>w r. let (x, r') = tape_pop r in (x mod 2 ^ w, r')),
      choose_index = (\<lambda>n r. let (x, r') = tape_pop r in (x mod n, r')),
      sample_indices = (\<lambda>n k r. ([0..<min k n], r))\<rparr>"

lemma rand_ok_tape [simp, intro]: "rand_ok tape_rand"
proof -
  have 1: "lo + x mod (hi - lo) < hi" if "lo < hi" for lo hi x :: nat
    using that mod_less_divisor [of "hi - lo" x] by linarith
  have 2: "0 \<le> int x mod (hi - lo + 1)" "lo + int x mod (hi - lo + 1) \<le> hi" if "lo \<le> hi" for lo hi x
    using that pos_mod_bound [of "hi - lo + 1" "int x"] pos_mod_sign [of "hi - lo + 1" "int x"]
    by linarith+
  show ?thesis
    unfolding rand_ok_def tape_rand_def using 1 2
    by (auto simp: Let_def split: prod.splits)
qed

subsection \<open>Options\<close>

definition nth_opt :: "'a list \<Rightarrow> nat \<Rightarrow> 'a option" where
  "nth_opt xs i = (if i < length xs then Some (xs ! i) else None)"

lemma nth_opt_eq_Some [simp]: "nth_opt xs i = Some x \<longleftrightarrow> i < length xs \<and> xs ! i = x"
  by (auto simp: nth_opt_def)

lemma nth_opt_eq_None [simp]: "nth_opt xs i = None \<longleftrightarrow> length xs \<le> i"
  by (auto simp: nth_opt_def)

lemma nth_opt_less [simp]: "i < length xs \<Longrightarrow> nth_opt xs i = Some (xs ! i)"
  by simp

text \<open>\<open>for x in xs { body }\<close> where the body updates a state and may panic.\<close>

fun foldM :: "('a \<Rightarrow> 's \<Rightarrow> 's option) \<Rightarrow> 'a list \<Rightarrow> 's \<Rightarrow> 's option" where
  "foldM g [] s = Some s"
| "foldM g (x # xs) s = do { s' \<leftarrow> g x s; foldM g xs s' }"

lemma foldM_append: "foldM g (xs @ ys) s = do { s' \<leftarrow> foldM g xs s; foldM g ys s' }"
proof (induction xs arbitrary: s)
  case (Cons x xs)
  then show ?case by (cases "g x s") auto
qed simp

lemma foldM_cong [fundef_cong]:
  "xs = ys \<Longrightarrow> s = t \<Longrightarrow> (\<And>x u. x \<in> set ys \<Longrightarrow> g x u = h x u) \<Longrightarrow> foldM g xs s = foldM h ys t"
proof (induction xs arbitrary: ys s t)
  case (Cons x xs)
  then show ?case by (cases "h x t") auto
qed simp

text \<open>Invariant and progress rule for loops: every iteration returns and keeps the invariant.\<close>

lemma foldM_invariant:
  assumes "I [] s"
    and "\<And>ys x zs t. xs = ys @ x # zs \<Longrightarrow> I ys t \<Longrightarrow> \<exists>t'. g x t = Some t' \<and> I (ys @ [x]) t'"
  shows "\<exists>s'. foldM g xs s = Some s' \<and> I xs s'"
  using assms
proof (induction xs arbitrary: s I)
  case (Cons x xs)
  from Cons.prems(2) [of "[]" x xs s] Cons.prems(1)
  obtain t where t: "g x s = Some t" "I [x] t" by auto
  have "\<exists>s'. foldM g xs t = Some s' \<and> I (x # xs) s'"
    by (rule Cons.IH [where I = "\<lambda>ys. I (x # ys)"]) (use t Cons.prems(2) in \<open>auto simp flip: append_Cons\<close>)
  with t show ?case by simp
qed simp

lemma foldM_preserves:
  assumes "foldM g xs s = Some s'" and "P s"
    and "\<And>x t t'. x \<in> set xs \<Longrightarrow> P t \<Longrightarrow> g x t = Some t' \<Longrightarrow> P t'"
  shows "P s'"
  using assms by (induction xs arbitrary: s) (auto simp: bind_eq_Some_conv)

lemma foldM_map: "foldM g (map h xs) s = foldM (\<lambda>x. g (h x)) xs s"
proof (induction xs arbitrary: s)
  case (Cons x xs)
  then show ?case by (cases "g (h x) s") auto
qed simp

lemma bindE: "Option.bind x f = Some y \<Longrightarrow> (\<And>z. x = Some z \<Longrightarrow> f z = Some y \<Longrightarrow> P) \<Longrightarrow> P"
  by (cases x) auto

lemmas bind_SomeE = bind_eq_Some_conv [THEN iffD1]

subsection \<open>Lists\<close>

lemma sort_remdups_sorted [simp]: "sorted (sort (remdups xs))"
  by simp

lemma last_opt_append: "xs \<noteq> [] \<Longrightarrow> last (ys @ xs) = last xs"
  by simp

lemma butlast_last: "xs \<noteq> [] \<Longrightarrow> butlast xs @ [last xs] = xs"
  by simp

lemma removeAll_last_distinct:
  "distinct xs \<Longrightarrow> xs \<noteq> [] \<Longrightarrow> removeAll (last xs) xs = butlast xs"
  by (induction xs rule: rev_induct) auto

lemma filter_neq_notin: "x \<notin> set xs \<Longrightarrow> filter (\<lambda>y. y \<noteq> x) xs = xs"
  by (induction xs) auto

subsection \<open>Reachability\<close>

lemma rtrancl_closed:
  assumes "(a, b) \<in> r\<^sup>*" and "a \<in> S" and "\<And>x y. x \<in> S \<Longrightarrow> (x, y) \<in> r \<Longrightarrow> y \<in> S"
  shows "b \<in> S"
  using assms(1,2) by (induction rule: rtrancl_induct) (auto intro: assms(3))

end
