(* ===== verification/Clif_Types.thy ===== *)
theory Clif_Types
  imports Clir_Prelude "HOL-Library.Word"
begin

unbundle bit_operations_syntax

text \<open>
  The types of SSA values (\<open>cranelift/codegen/src/ir/types.rs\<close>, numbering in
  \<open>cranelift/codegen/meta/src/cdsl/types.rs\<close>).

  The program stores a type as a \<open>u16\<close>: the low nibble names the lane type, the rest counts
  from \<open>LANE_BASE\<close> the binary logarithm of the number of lanes. The second half of the theory
  models that code on \<open>16 word\<close>. The first half is the view the rest of the development works
  with, a lane and a number \<open>n\<close> of lane doublings, and the two are related by \<open>type_repr\<close>: each
  \<open>u16\<close> operation computes, on every type of up to 256 lanes, the representation of what the
  view computes. Dynamic vector types are not used by the generator and have no view.
\<close>

subsection \<open>The structured view\<close>

datatype lane = LI8 | LI16 | LI32 | LI64 | LI128 | LF16 | LF32 | LF64 | LF128

datatype clif_type = INVALID | Ty lane nat

abbreviation "I8 \<equiv> Ty LI8 0"
abbreviation "I16 \<equiv> Ty LI16 0"
abbreviation "I32 \<equiv> Ty LI32 0"
abbreviation "I64 \<equiv> Ty LI64 0"
abbreviation "I128 \<equiv> Ty LI128 0"
abbreviation "F16 \<equiv> Ty LF16 0"
abbreviation "F32 \<equiv> Ty LF32 0"
abbreviation "F64 \<equiv> Ty LF64 0"
abbreviation "F128 \<equiv> Ty LF128 0"
abbreviation "I8X16 \<equiv> Ty LI8 4"
abbreviation "I16X8 \<equiv> Ty LI16 3"
abbreviation "I32X4 \<equiv> Ty LI32 2"
abbreviation "I64X2 \<equiv> Ty LI64 1"
abbreviation "F16X8 \<equiv> Ty LF16 3"
abbreviation "F32X4 \<equiv> Ty LF32 2"
abbreviation "F64X2 \<equiv> Ty LF64 1"

fun lane_type :: "clif_type \<Rightarrow> clif_type" where
  "lane_type INVALID = INVALID"
| "lane_type (Ty l n) = Ty l 0"

fun lane_width :: "lane \<Rightarrow> nat" where
  "lane_width LI8 = 8"
| "lane_width LI16 = 16"
| "lane_width LF16 = 16"
| "lane_width LI32 = 32"
| "lane_width LF32 = 32"
| "lane_width LI64 = 64"
| "lane_width LF64 = 64"
| "lane_width LI128 = 128"
| "lane_width LF128 = 128"

fun lane_bits :: "clif_type \<Rightarrow> nat" where
  "lane_bits INVALID = 0"
| "lane_bits (Ty l n) = lane_width l"

fun lane_count :: "clif_type \<Rightarrow> nat" where
  "lane_count INVALID = 1"
| "lane_count (Ty l n) = 2 ^ n"

definition type_bits :: "clif_type \<Rightarrow> nat" where
  "type_bits t = lane_bits t * lane_count t"

definition type_bytes :: "clif_type \<Rightarrow> nat" where
  "type_bytes t = (type_bits t + 7) div 8"

fun int_lane :: "lane \<Rightarrow> lane" where
  "int_lane LF16 = LI16"
| "int_lane LF32 = LI32"
| "int_lane LF64 = LI64"
| "int_lane LF128 = LI128"
| "int_lane l = l"

fun is_vector :: "clif_type \<Rightarrow> bool" where
  "is_vector INVALID = False"
| "is_vector (Ty l n) = (0 < n)"

fun is_int :: "clif_type \<Rightarrow> bool" where
  "is_int (Ty l n) = (n = 0 \<and> int_lane l = l)"
| "is_int INVALID = False"

fun is_float :: "clif_type \<Rightarrow> bool" where
  "is_float (Ty l n) = (n = 0 \<and> int_lane l \<noteq> l)"
| "is_float INVALID = False"

fun as_truthy :: "clif_type \<Rightarrow> clif_type" where
  "as_truthy INVALID = I8"
| "as_truthy (Ty l n) = (if n = 0 then I8 else Ty (int_lane l) n)"

fun half_lane :: "lane \<Rightarrow> lane option" where
  "half_lane LI16 = Some LI8"
| "half_lane LI32 = Some LI16"
| "half_lane LI64 = Some LI32"
| "half_lane LI128 = Some LI64"
| "half_lane LF32 = Some LF16"
| "half_lane LF64 = Some LF32"
| "half_lane LF128 = Some LF64"
| "half_lane LI8 = None"
| "half_lane LF16 = None"

fun double_lane :: "lane \<Rightarrow> lane option" where
  "double_lane LI8 = Some LI16"
| "double_lane LI16 = Some LI32"
| "double_lane LI32 = Some LI64"
| "double_lane LI64 = Some LI128"
| "double_lane LF16 = Some LF32"
| "double_lane LF32 = Some LF64"
| "double_lane LF64 = Some LF128"
| "double_lane LI128 = None"
| "double_lane LF128 = None"

fun half_width :: "clif_type \<Rightarrow> clif_type option" where
  "half_width INVALID = None"
| "half_width (Ty l n) = map_option (\<lambda>h. Ty h n) (half_lane l)"

fun double_width :: "clif_type \<Rightarrow> clif_type option" where
  "double_width INVALID = None"
| "double_width (Ty l n) = map_option (\<lambda>d. Ty d n) (double_lane l)"

fun by_two :: "clif_type \<Rightarrow> clif_type option" where
  "by_two INVALID = None"
| "by_two (Ty l n) = (if n < 8 then Some (Ty l (Suc n)) else None)"

definition split_lanes :: "clif_type \<Rightarrow> clif_type option" where
  "split_lanes t = (case half_width t of None \<Rightarrow> None | Some h \<Rightarrow> by_two h)"

definition merge_lanes :: "clif_type \<Rightarrow> clif_type option" where
  "merge_lanes t = (case double_width t of
      None \<Rightarrow> None
    | Some INVALID \<Rightarrow> None
    | Some (Ty l n) \<Rightarrow> if 0 < n then Some (Ty l (n - 1)) else None)"

definition wider_or_equal :: "clif_type \<Rightarrow> clif_type \<Rightarrow> bool" where
  "wider_or_equal s t \<longleftrightarrow> lane_count s = lane_count t \<and> lane_bits t \<le> lane_bits s"

lemma half_lane_width: "half_lane l = Some h \<Longrightarrow> lane_width l = 2 * lane_width h"
  by (cases l) auto

lemma double_lane_width: "double_lane l = Some d \<Longrightarrow> lane_width d = 2 * lane_width l"
  by (cases l) auto

lemma half_double_lane: "half_lane l = Some h \<longleftrightarrow> double_lane h = Some l"
  by (cases l; cases h) auto

text \<open>Halving and doubling the lanes are inverse to each other wherever they are defined.\<close>

lemma half_double_width: "half_width s = Some t \<longleftrightarrow> double_width t = Some s"
  by (cases s; cases t) (auto simp: half_double_lane)

lemma split_lanes_bits: "split_lanes t = Some s \<Longrightarrow> type_bits s = type_bits t"
  by (cases t) (auto simp: split_lanes_def type_bits_def half_lane_width split: if_splits option.splits)

lemma merge_lanes_bits: "merge_lanes t = Some s \<Longrightarrow> type_bits s = type_bits t"
proof (cases t)
  case (Ty l n)
  then show "merge_lanes t = Some s \<Longrightarrow> type_bits s = type_bits t"
    by (cases n) (auto simp: merge_lanes_def type_bits_def double_lane_width split: if_splits option.splits)
qed (simp add: merge_lanes_def)

lemma split_merge_lanes: "split_lanes t = Some s \<Longrightarrow> merge_lanes s = Some t"
  by (cases t) (auto simp: split_lanes_def merge_lanes_def half_double_lane split: if_splits option.splits)

subsection \<open>The sixteen bit representation\<close>

type_synonym type_code = "16 word"

definition LANE_BASE :: type_code where "LANE_BASE = 0x70"
definition VECTOR_BASE :: type_code where "VECTOR_BASE = 0x80"
definition DYNAMIC_VECTOR_BASE :: type_code where "DYNAMIC_VECTOR_BASE = 0x100"

fun lane_number :: "lane \<Rightarrow> type_code" where
  "lane_number LI8 = LANE_BASE + 4"
| "lane_number LI16 = LANE_BASE + 5"
| "lane_number LI32 = LANE_BASE + 6"
| "lane_number LI64 = LANE_BASE + 7"
| "lane_number LI128 = LANE_BASE + 8"
| "lane_number LF16 = LANE_BASE + 9"
| "lane_number LF32 = LANE_BASE + 10"
| "lane_number LF64 = LANE_BASE + 11"
| "lane_number LF128 = LANE_BASE + 12"

fun type_repr :: "clif_type \<Rightarrow> type_code" where
  "type_repr INVALID = 0"
| "type_repr (Ty l n) = push_bit 4 (of_nat n) + lane_number l"

definition lane_type_code :: "type_code \<Rightarrow> type_code" where
  "lane_type_code t = (if t < VECTOR_BASE then t else LANE_BASE OR (t AND 0x0f))"

definition lane_bits_code :: "type_code \<Rightarrow> nat" where
  "lane_bits_code t = (let l = lane_type_code t in
     if l = lane_number LI8 then 8
     else if l = lane_number LI16 \<or> l = lane_number LF16 then 16
     else if l = lane_number LI32 \<or> l = lane_number LF32 then 32
     else if l = lane_number LI64 \<or> l = lane_number LF64 then 64
     else if l = lane_number LI128 \<or> l = lane_number LF128 then 128
     else 0)"

definition is_dynamic_vector_code :: "type_code \<Rightarrow> bool" where
  "is_dynamic_vector_code t \<longleftrightarrow> DYNAMIC_VECTOR_BASE \<le> t"

definition is_vector_code :: "type_code \<Rightarrow> bool" where
  "is_vector_code t \<longleftrightarrow> VECTOR_BASE \<le> t \<and> \<not> is_dynamic_vector_code t"

definition replace_lanes_code :: "type_code \<Rightarrow> type_code \<Rightarrow> type_code" where
  "replace_lanes_code t l = (l AND 0x0f) OR (t AND 0xf0)"

definition as_truthy_code :: "type_code \<Rightarrow> type_code" where
  "as_truthy_code t =
     (if \<not> is_vector_code t then lane_number LI8
      else replace_lanes_code t (let l = lane_type_code t in
        if l = lane_number LI16 \<or> l = lane_number LF16 then lane_number LI16
        else if l = lane_number LI32 \<or> l = lane_number LF32 then lane_number LI32
        else if l = lane_number LI64 \<or> l = lane_number LF64 then lane_number LI64
        else if l = lane_number LI128 \<or> l = lane_number LF128 then lane_number LI128
        else lane_number LI8))"

definition half_width_code :: "type_code \<Rightarrow> type_code option" where
  "half_width_code t = map_option (replace_lanes_code t)
     (map_of [(lane_number LI16, lane_number LI8), (lane_number LI32, lane_number LI16),
        (lane_number LI64, lane_number LI32), (lane_number LI128, lane_number LI64),
        (lane_number LF32, lane_number LF16), (lane_number LF64, lane_number LF32),
        (lane_number LF128, lane_number LF64)] (lane_type_code t))"

definition double_width_code :: "type_code \<Rightarrow> type_code option" where
  "double_width_code t = map_option (replace_lanes_code t)
     (map_of [(lane_number LI8, lane_number LI16), (lane_number LI16, lane_number LI32),
        (lane_number LI32, lane_number LI64), (lane_number LI64, lane_number LI128),
        (lane_number LF16, lane_number LF32), (lane_number LF32, lane_number LF64),
        (lane_number LF64, lane_number LF128)] (lane_type_code t))"

definition log2_lane_count_code :: "type_code \<Rightarrow> nat" where
  "log2_lane_count_code t =
     (if is_dynamic_vector_code t then 0
      else unat (drop_bit 4 (if t < LANE_BASE then 0 else t - LANE_BASE)))"

definition lane_count_code :: "type_code \<Rightarrow> nat" where
  "lane_count_code t = (if is_dynamic_vector_code t then 0 else 2 ^ log2_lane_count_code t)"

definition bits_code :: "type_code \<Rightarrow> nat" where
  "bits_code t = (if is_dynamic_vector_code t then 0 else lane_bits_code t * lane_count_code t)"

text \<open>\<open>Type::by\<close> at \<open>n = 2\<close>, the only lane count the modelled callers pass.\<close>

definition by_two_code :: "type_code \<Rightarrow> type_code option" where
  "by_two_code t =
     (if is_dynamic_vector_code t then None
      else if lane_bits_code t = 0 then None
      else let new_type = unat t + 16 in
        if new_type < unat DYNAMIC_VECTOR_BASE \<and> (of_nat new_type :: type_code) < DYNAMIC_VECTOR_BASE
        then Some (of_nat new_type) else None)"

definition split_lanes_code :: "type_code \<Rightarrow> type_code option" where
  "split_lanes_code t = (case half_width_code t of Some h \<Rightarrow> by_two_code h | None \<Rightarrow> None)"

definition merge_lanes_code :: "type_code \<Rightarrow> type_code option" where
  "merge_lanes_code t = (case double_width_code t of
      Some d \<Rightarrow> if is_vector_code d \<and> \<not> is_dynamic_vector_code d then Some (d - 0x10) else None
    | None \<Rightarrow> None)"

lemmas type_code_defs = LANE_BASE_def VECTOR_BASE_def DYNAMIC_VECTOR_BASE_def lane_type_code_def
  lane_bits_code_def is_dynamic_vector_code_def is_vector_code_def replace_lanes_code_def
  as_truthy_code_def half_width_code_def double_width_code_def log2_lane_count_code_def
  lane_count_code_def bits_code_def by_two_code_def split_lanes_code_def merge_lanes_code_def

fun wf_type :: "clif_type \<Rightarrow> bool" where
  "wf_type INVALID = False"
| "wf_type (Ty l n) = (n \<le> 8)"

lemma wf_type_cases:
  assumes "wf_type t"
  obtains l n where "t = Ty l n" "n = 0 \<or> n = 1 \<or> n = 2 \<or> n = 3 \<or> n = 4 \<or> n = 5 \<or> n = 6 \<or> n = 7 \<or> n = 8"
proof (cases t)
  case (Ty l n)
  with assms have "n \<le> 8" by simp
  with Ty show ?thesis by (intro that [of l n]) auto
qed (use assms in simp)

lemma lane_type_code_repr: "wf_type t \<Longrightarrow> lane_type_code (type_repr t) = type_repr (lane_type t)"
  by (erule wf_type_cases, rename_tac l n, case_tac l; elim disjE; simp add: type_code_defs)

lemma lane_bits_code_repr: "wf_type t \<Longrightarrow> lane_bits_code (type_repr t) = lane_bits t"
  by (erule wf_type_cases, rename_tac l n, case_tac l; elim disjE; simp add: type_code_defs)

lemma lane_count_code_repr: "wf_type t \<Longrightarrow> lane_count_code (type_repr t) = lane_count t"
  by (erule wf_type_cases, rename_tac l n, case_tac l; elim disjE; simp add: type_code_defs)

lemma bits_code_repr: "wf_type t \<Longrightarrow> bits_code (type_repr t) = type_bits t"
  by (erule wf_type_cases, rename_tac l n, case_tac l; elim disjE; simp add: type_code_defs type_bits_def)

lemma is_vector_code_repr: "wf_type t \<Longrightarrow> is_vector_code (type_repr t) = is_vector t"
  by (erule wf_type_cases, rename_tac l n, case_tac l; elim disjE; simp add: type_code_defs)

lemma as_truthy_code_repr: "wf_type t \<Longrightarrow> as_truthy_code (type_repr t) = type_repr (as_truthy t)"
  by (erule wf_type_cases, rename_tac l n, case_tac l; elim disjE; simp add: type_code_defs)

lemma half_width_code_repr: "wf_type t \<Longrightarrow> half_width_code (type_repr t) = map_option type_repr (half_width t)"
  by (erule wf_type_cases, rename_tac l n, case_tac l; elim disjE; simp add: type_code_defs)

lemma double_width_code_repr: "wf_type t \<Longrightarrow> double_width_code (type_repr t) = map_option type_repr (double_width t)"
  by (erule wf_type_cases, rename_tac l n, case_tac l; elim disjE; simp add: type_code_defs)

lemma split_lanes_code_repr: "wf_type t \<Longrightarrow> split_lanes_code (type_repr t) = map_option type_repr (split_lanes t)"
  by (erule wf_type_cases, rename_tac l n, case_tac l; elim disjE; simp add: type_code_defs split_lanes_def)

lemma merge_lanes_code_repr: "wf_type t \<Longrightarrow> merge_lanes_code (type_repr t) = map_option type_repr (merge_lanes t)"
  by (erule wf_type_cases, rename_tac l n, case_tac l; elim disjE; simp add: type_code_defs merge_lanes_def)

lemma type_repr_inj:
  assumes "wf_type s" and "wf_type t" and "type_repr s = type_repr t"
  shows "s = t"
proof -
  have lane: "lane_number k = lane_number l \<longleftrightarrow> k = l" for k l
    by (cases k; cases l) (auto simp: LANE_BASE_def)
  have "type_repr (lane_type s) = type_repr (lane_type t)" and "lane_count s = lane_count t"
    using assms by (metis lane_type_code_repr, metis lane_count_code_repr)
  with assms(1,2) show ?thesis
    by (cases s; cases t) (auto simp: lane)
qed

end
