(* ===== verification/Clif_Opcodes.thy ===== *)
theory Clif_Opcodes
  imports Clif_Types
begin

text \<open>
  The typing table of the instruction set. An opcode is named by its mnemonic, which is how the
  configuration files and \<open>Opcode::to_string\<close> name it. For each opcode the program emits, the
  table gives the set of controlling types, where the controlling type comes from (an operand or
  an explicit argument of the builder), and the constraints on results and on value operands, as
  declared in \<open>cranelift/codegen/meta/src/shared/instructions.rs\<close> and resolved in
  \<open>cranelift/codegen/src/ir/instructions.rs\<close>. Control flow, calls and \<open>return\<close> have operands of
  their own in the instruction format and are not in the table.
\<close>

subsection \<open>Sets of types\<close>

type_synonym opcode = string

text \<open>Binary logarithms, as the bit positions of the \<open>ScalarBitSet\<close>s.\<close>

record value_type_set =
  ts_lanes :: "nat list"
  ts_ints :: "nat list"
  ts_floats :: "nat list"

fun log2_width :: "lane \<Rightarrow> nat" where
  "log2_width LI8 = 3"
| "log2_width LI16 = 4"
| "log2_width LF16 = 4"
| "log2_width LI32 = 5"
| "log2_width LF32 = 5"
| "log2_width LI64 = 6"
| "log2_width LF64 = 6"
| "log2_width LI128 = 7"
| "log2_width LF128 = 7"

lemma log2_width: "2 ^ log2_width l = lane_width l"
  by (cases l) auto

definition is_base_type :: "value_type_set \<Rightarrow> lane \<Rightarrow> bool" where
  "is_base_type ts l =
     (if int_lane l = l then log2_width l \<in> set (ts_ints ts) else log2_width l \<in> set (ts_floats ts))"

fun ts_contains :: "value_type_set \<Rightarrow> clif_type \<Rightarrow> bool" where
  "ts_contains ts INVALID = False"
| "ts_contains ts (Ty l n) = (n \<in> set (ts_lanes ts) \<and> is_base_type ts l)"

definition typeset :: "nat list \<Rightarrow> nat list \<Rightarrow> nat list \<Rightarrow> value_type_set" where
  "typeset lanes ints floats = \<lparr>ts_lanes = lanes, ts_ints = ints, ts_floats = floats\<rparr>"

text \<open>
  The type variables of the instruction definitions. \<open>Interval::All\<close> is 8 to 128 bits for integers,
  16 to 128 bits for floats, and up to 256 lanes, from one lane on where scalars are included.
\<close>

definition tv_iB :: value_type_set where "tv_iB = typeset [0] [3..<8] []"
definition tv_Int :: value_type_set where "tv_Int = typeset [0..<9] [3..<8] []"
definition tv_IxN :: value_type_set where "tv_IxN = typeset [1..<9] [3..<8] []"
definition tv_TxN :: value_type_set where "tv_TxN = typeset [1..<9] [3..<8] [4..<8]"
definition tv_Any :: value_type_set where "tv_Any = typeset [0..<9] [3..<8] [4..<8]"
definition tv_Float :: value_type_set where "tv_Float = typeset [0..<9] [] [4..<8]"
definition tv_FloatScalar :: value_type_set where "tv_FloatScalar = typeset [0] [] [4..<8]"
definition tv_NarrowInt :: value_type_set where "tv_NarrowInt = typeset [0] [3..<7] []"
definition tv_WideInt :: value_type_set where "tv_WideInt = typeset [0] [4..<8] []"
definition tv_iAddr :: value_type_set where "tv_iAddr = typeset [0] [5, 6] []"
definition tv_iExt8 :: value_type_set where "tv_iExt8 = typeset [0] [4, 5, 6] []"
definition tv_iExt16 :: value_type_set where "tv_iExt16 = typeset [0] [5, 6] []"
definition tv_I16or32 :: value_type_set where "tv_I16or32 = typeset [2, 3] [4, 5] []"
definition tv_I16or32or64xN :: value_type_set where "tv_I16or32or64xN = typeset [1, 2, 3] [4, 5, 6] []"
definition tv_I8or16or32xN :: value_type_set where "tv_I8or16or32xN = typeset [1, 2, 3, 4] [3, 4, 5] []"

lemmas tv_defs = tv_iB_def tv_Int_def tv_IxN_def tv_TxN_def tv_Any_def tv_Float_def tv_FloatScalar_def
  tv_NarrowInt_def tv_WideInt_def tv_iAddr_def tv_iExt8_def tv_iExt16_def tv_I16or32_def
  tv_I16or32or64xN_def tv_I8or16or32xN_def

subsection \<open>Operand constraints\<close>

datatype operand_constraint =
    Concrete clif_type
  | Free value_type_set
  | Same
  | LaneOf
  | AsTruthy
  | HalfWidth
  | DoubleWidth
  | SplitLanes
  | MergeLanes
  | Narrower
  | Wider

datatype resolved_constraint = RBound clif_type | RFree value_type_set

fun resolve :: "operand_constraint \<Rightarrow> clif_type \<Rightarrow> resolved_constraint option" where
  "resolve (Concrete t) c = Some (RBound t)"
| "resolve (Free ts) c = Some (RFree ts)"
| "resolve Same c = Some (RBound c)"
| "resolve LaneOf c = Some (RBound (lane_type c))"
| "resolve AsTruthy c = Some (RBound (as_truthy c))"
| "resolve HalfWidth c = map_option RBound (half_width c)"
| "resolve DoubleWidth c = map_option RBound (double_width c)"
| "resolve SplitLanes c = map_option RBound (split_lanes c)"
| "resolve MergeLanes c = map_option RBound (merge_lanes c)"
| "resolve Narrower INVALID = None"
| "resolve Narrower (Ty l n) =
     (if is_int (Ty l n) then Some (RFree (typeset [0] [3..<log2_width l] []))
      else if is_float (Ty l n) then Some (RFree (typeset [0] [] [4..<log2_width l]))
      else None)"
| "resolve Wider INVALID = None"
| "resolve Wider (Ty l n) =
     (if is_int (Ty l n) then Some (RFree (typeset [0] [Suc (log2_width l)..<8] []))
      else if is_float (Ty l n) then Some (RFree (typeset [0] [] [Suc (log2_width l)..<8]))
      else None)"

text \<open>
  The controlling type: \<open>Operand k\<close> when it is inferred from value operand \<open>k\<close> of the format,
  \<open>Explicit\<close> when it is the first argument of the builder method, \<open>NotPoly\<close> when the opcode is
  not polymorphic.
\<close>

datatype ctrl_source = Operand nat | Explicit | NotPoly

record opcode_constraints =
  oc_ctrl :: ctrl_source
  oc_typeset :: "value_type_set option"
  oc_results :: "operand_constraint list"
  oc_args :: "operand_constraint list"

definition sig_op :: "nat \<Rightarrow> value_type_set \<Rightarrow> operand_constraint list \<Rightarrow> operand_constraint list \<Rightarrow> opcode_constraints" where
  "sig_op k ts ins outs = \<lparr>oc_ctrl = Operand k, oc_typeset = Some ts, oc_results = outs, oc_args = ins\<rparr>"

definition sig_explicit :: "value_type_set \<Rightarrow> operand_constraint list \<Rightarrow> operand_constraint list \<Rightarrow> opcode_constraints" where
  "sig_explicit ts ins outs = \<lparr>oc_ctrl = Explicit, oc_typeset = Some ts, oc_results = outs, oc_args = ins\<rparr>"

definition sig_fixed :: "operand_constraint list \<Rightarrow> operand_constraint list \<Rightarrow> opcode_constraints" where
  "sig_fixed ins outs = \<lparr>oc_ctrl = NotPoly, oc_typeset = None, oc_results = outs, oc_args = ins\<rparr>"

definition sig_unary :: "value_type_set \<Rightarrow> opcode_constraints" where
  "sig_unary ts = sig_op 0 ts [Same] [Same]"

definition sig_binary :: "value_type_set \<Rightarrow> opcode_constraints" where
  "sig_binary ts = sig_op 0 ts [Same, Same] [Same]"

lemmas sig_defs = sig_op_def sig_explicit_def sig_fixed_def sig_unary_def sig_binary_def

subsection \<open>The table\<close>

text \<open>The lane accesses of \<open>define_simd_lane_access\<close>.\<close>

definition simd_lane_ops :: "(opcode \<times> opcode_constraints) list" where
  "simd_lane_ops =
     [(''splat'', sig_explicit tv_TxN [LaneOf] [Same])] @
     map (\<lambda>m. (m, sig_fixed [Concrete I8X16, Concrete I8X16] [Concrete I8X16]))
       [''swizzle'', ''x86_pshufb''] @
     [(''insertlane'', sig_op 0 tv_TxN [Same, LaneOf] [Same])] @
     [(''extractlane'', sig_op 0 tv_TxN [Same] [LaneOf])]"

text \<open>The instructions of \<open>define_simd_arithmetic\<close>.\<close>

definition simd_arith_ops :: "(opcode \<times> opcode_constraints) list" where
  "simd_arith_ops =
     map (\<lambda>m. (m, sig_binary tv_Int))
       [''smin'', ''umin'', ''smax'', ''umax''] @
     map (\<lambda>m. (m, sig_binary tv_IxN))
       [''avg_round'', ''uadd_sat'', ''sadd_sat'', ''usub_sat'', ''ssub_sat'']"

text \<open>Loads, stores, stack slots and the extending and vector loads.\<close>

definition memory_ops :: "(opcode \<times> opcode_constraints) list" where
  "memory_ops =
     [(''load'', sig_explicit tv_Any [Free tv_iAddr] [Same])] @
     [(''store'', sig_op 0 tv_Any [Same, Free tv_iAddr] [])] @
     map (\<lambda>m. (m, sig_explicit tv_iExt8 [Free tv_iAddr] [Same]))
       [''uload8'', ''sload8''] @
     [(''istore8'', sig_op 0 tv_iExt8 [Same, Free tv_iAddr] [])] @
     map (\<lambda>m. (m, sig_explicit tv_iExt16 [Free tv_iAddr] [Same]))
       [''uload16'', ''sload16''] @
     [(''istore16'', sig_op 0 tv_iExt16 [Same, Free tv_iAddr] [])] @
     map (\<lambda>m. (m, sig_op 0 tv_iAddr [Same] [Concrete I64]))
       [''uload32'', ''sload32''] @
     [(''istore32'', sig_op 0 (typeset [0] [6] []) [Concrete I64, Free tv_iAddr] [])] @
     map (\<lambda>m. (m, sig_op 0 tv_iAddr [Same] [Concrete I16X8]))
       [''uload8x8'', ''sload8x8''] @
     map (\<lambda>m. (m, sig_op 0 tv_iAddr [Same] [Concrete I32X4]))
       [''uload16x4'', ''sload16x4''] @
     map (\<lambda>m. (m, sig_op 0 tv_iAddr [Same] [Concrete I64X2]))
       [''uload32x2'', ''sload32x2''] @
     [(''stack_load'', sig_explicit tv_Any [] [Same])] @
     [(''stack_store'', sig_op 0 tv_Any [Same] [])] @
     [(''stack_addr'', sig_explicit tv_iAddr [] [Same])] @
     map (\<lambda>m. (m, sig_explicit tv_iAddr [] [Same]))
       [''get_pinned_reg'', ''get_frame_pointer'', ''get_stack_pointer'', ''get_return_address''] @
     [(''set_pinned_reg'', sig_op 0 tv_iAddr [Same] [])]"

text \<open>Constants, selects and the vector tests.\<close>

definition const_ops :: "(opcode \<times> opcode_constraints) list" where
  "const_ops =
     [(''iconst'', sig_explicit tv_NarrowInt [] [Same])] @
     [(''f16const'', sig_fixed [] [Concrete F16])] @
     [(''f32const'', sig_fixed [] [Concrete F32])] @
     [(''f64const'', sig_fixed [] [Concrete F64])] @
     [(''f128const'', sig_fixed [] [Concrete F128])] @
     [(''vconst'', sig_explicit tv_TxN [] [Same])] @
     [(''shuffle'', sig_fixed [Concrete I8X16, Concrete I8X16] [Concrete I8X16])] @
     [(''nop'', sig_fixed [] [])] @
     map (\<lambda>m. (m, sig_op 1 tv_Any [Free tv_iB, Same, Same] [Same]))
       [''select'', ''select_spectre_guard''] @
     [(''bitselect'', sig_op 1 tv_Any [Same, Same, Same] [Same])] @
     map (\<lambda>m. (m, sig_op 0 tv_TxN [Same] [Concrete I8]))
       [''vany_true'', ''vall_true''] @
     [(''vhigh_bits'', sig_explicit tv_NarrowInt [Free tv_TxN] [Same])]"

text \<open>Integer arithmetic.\<close>

definition int_ops :: "(opcode \<times> opcode_constraints) list" where
  "int_ops =
     [(''icmp'', sig_op 0 tv_Int [Same, Same] [AsTruthy])] @
     [(''icmp_imm'', sig_op 0 tv_iB [Same] [Concrete I8])] @
     map (\<lambda>m. (m, sig_binary tv_Int))
       [''iadd'', ''isub'', ''imul'', ''umulhi'', ''smulhi''] @
     map (\<lambda>m. (m, sig_unary tv_Int))
       [''ineg'', ''iabs''] @
     map (\<lambda>m. (m, sig_binary tv_I16or32))
       [''sqmul_round_sat'', ''x86_pmulhrsw''] @
     map (\<lambda>m. (m, sig_binary tv_iB))
       [''udiv'', ''sdiv'', ''urem'', ''srem''] @
     map (\<lambda>m. (m, sig_unary tv_iB))
       [''iadd_imm'', ''imul_imm'', ''udiv_imm'', ''sdiv_imm'', ''urem_imm'', ''srem_imm'', ''irsub_imm'']"

text \<open>Arithmetic with carries and overflow flags.\<close>

definition overflow_ops :: "(opcode \<times> opcode_constraints) list" where
  "overflow_ops =
     map (\<lambda>m. (m, sig_op 1 tv_iB [Same, Same, Concrete I8] [Same, Concrete I8]))
       [''sadd_overflow_cin'', ''uadd_overflow_cin'', ''ssub_overflow_bin'', ''usub_overflow_bin''] @
     map (\<lambda>m. (m, sig_op 0 tv_iB [Same, Same] [Same, Concrete I8]))
       [''uadd_overflow'', ''sadd_overflow'', ''usub_overflow'', ''ssub_overflow''] @
     map (\<lambda>m. (m, sig_op 0 tv_NarrowInt [Same, Same] [Same, Concrete I8]))
       [''umul_overflow'', ''smul_overflow''] @
     [(''uadd_overflow_trap'', sig_binary tv_iAddr)]"

text \<open>Bitwise operations, shifts and bit counting.\<close>

definition bit_ops :: "(opcode \<times> opcode_constraints) list" where
  "bit_ops =
     map (\<lambda>m. (m, sig_binary tv_Any))
       [''band'', ''bor'', ''bxor'', ''band_not'', ''bor_not'', ''bxor_not''] @
     [(''bnot'', sig_unary tv_Any)] @
     map (\<lambda>m. (m, sig_unary tv_iB))
       [''band_imm'', ''bor_imm'', ''bxor_imm''] @
     map (\<lambda>m. (m, sig_op 0 tv_Int [Same, Free tv_iB] [Same]))
       [''rotl'', ''rotr'', ''ishl'', ''ushr'', ''sshr''] @
     map (\<lambda>m. (m, sig_unary tv_Int))
       [''rotl_imm'', ''rotr_imm'', ''ishl_imm'', ''ushr_imm'', ''sshr_imm''] @
     map (\<lambda>m. (m, sig_unary tv_iB))
       [''bitrev'', ''clz'', ''cls'', ''ctz''] @
     [(''bswap'', sig_unary tv_WideInt)] @
     [(''popcnt'', sig_unary tv_Int)]"

text \<open>Floating point arithmetic.\<close>

definition float_ops :: "(opcode \<times> opcode_constraints) list" where
  "float_ops =
     [(''fcmp'', sig_op 0 tv_Float [Same, Same] [AsTruthy])] @
     map (\<lambda>m. (m, sig_binary tv_Float))
       [''fadd'', ''fsub'', ''fmul'', ''fdiv'', ''fcopysign'', ''fmin'', ''fmax''] @
     map (\<lambda>m. (m, sig_unary tv_Float))
       [''sqrt'', ''fneg'', ''fabs'', ''ceil'', ''floor'', ''trunc'', ''nearest''] @
     [(''fma'', sig_op 1 tv_Float [Same, Same, Same] [Same])]"

text \<open>Bitcasts, conversions between widths, and conversions between integers and floats.\<close>

definition conversion_ops :: "(opcode \<times> opcode_constraints) list" where
  "conversion_ops =
     [(''bitcast'', sig_explicit tv_Any [Free tv_Any] [Same])] @
     [(''scalar_to_vector'', sig_explicit tv_TxN [LaneOf] [Same])] @
     [(''bmask'', sig_explicit tv_iB [Free tv_iB] [Same])] @
     [(''ireduce'', sig_explicit tv_iB [Wider] [Same])] @
     map (\<lambda>m. (m, sig_op 0 tv_I16or32or64xN [Same, Same] [SplitLanes]))
       [''snarrow'', ''unarrow'', ''uunarrow''] @
     map (\<lambda>m. (m, sig_op 0 tv_I8or16or32xN [Same] [MergeLanes]))
       [''swiden_low'', ''swiden_high'', ''uwiden_low'', ''uwiden_high''] @
     [(''iadd_pairwise'', sig_binary tv_I8or16or32xN)] @
     [(''x86_pmaddubsw'', sig_fixed [Concrete I8X16, Concrete I8X16] [Concrete I16X8])] @
     map (\<lambda>m. (m, sig_explicit tv_iB [Narrower] [Same]))
       [''uextend'', ''sextend''] @
     [(''fpromote'', sig_explicit tv_FloatScalar [Narrower] [Same])] @
     [(''fdemote'', sig_explicit tv_FloatScalar [Wider] [Same])] @
     [(''fvdemote'', sig_fixed [Concrete F64X2] [Concrete F32X4])] @
     [(''fvpromote_low'', sig_fixed [Concrete F32X4] [Concrete F64X2])] @
     map (\<lambda>m. (m, sig_explicit tv_iB [Free tv_FloatScalar] [Same]))
       [''fcvt_to_uint'', ''fcvt_to_sint''] @
     map (\<lambda>m. (m, sig_explicit tv_Int [Free tv_Float] [Same]))
       [''fcvt_to_uint_sat'', ''fcvt_to_sint_sat'', ''x86_cvtt2dq''] @
     map (\<lambda>m. (m, sig_explicit tv_Float [Free tv_Int] [Same]))
       [''fcvt_from_uint'', ''fcvt_from_sint''] @
     [(''isplit'', sig_op 0 tv_WideInt [Same] [HalfWidth, HalfWidth])] @
     [(''iconcat'', sig_op 0 tv_NarrowInt [Same, Same] [DoubleWidth])]"

text \<open>Atomic memory accesses, fences and sequence points.\<close>

definition atomic_ops :: "(opcode \<times> opcode_constraints) list" where
  "atomic_ops =
     [(''atomic_rmw'', sig_explicit tv_iB [Free tv_iAddr, Same] [Same])] @
     [(''atomic_cas'', sig_op 2 tv_iB [Free tv_iAddr, Same, Same] [Same])] @
     [(''atomic_load'', sig_explicit tv_iB [Free tv_iAddr] [Same])] @
     [(''atomic_store'', sig_op 0 tv_iB [Same, Free tv_iAddr] [])] @
     map (\<lambda>m. (m, sig_fixed [] []))
       [''fence'', ''sequence_point'']"

definition opcode_table :: "(opcode \<times> opcode_constraints) list" where
  "opcode_table = simd_lane_ops @
     simd_arith_ops @
     memory_ops @
     const_ops @
     int_ops @
     overflow_ops @
     bit_ops @
     float_ops @
     conversion_ops @
     atomic_ops"

definition constraints :: "opcode \<Rightarrow> opcode_constraints option" where
  "constraints m = map_of opcode_table m"

lemmas opcode_table_defs = opcode_table_def simd_lane_ops_def simd_arith_ops_def memory_ops_def const_ops_def int_ops_def
  overflow_ops_def bit_ops_def float_ops_def conversion_ops_def atomic_ops_def

subsection \<open>Types of results and checking of operands\<close>

text \<open>\<open>OpcodeConstraints::result_type\<close> for every result, in order; a constraint that cannot be
  resolved is a panic of the builder.\<close>

fun bound_type :: "resolved_constraint option \<Rightarrow> clif_type option" where
  "bound_type (Some (RBound t)) = Some t"
| "bound_type _ = None"

definition result_types :: "opcode_constraints \<Rightarrow> clif_type \<Rightarrow> clif_type list option" where
  "result_types oc c = those (map (\<lambda>r. bound_type (resolve r c)) (oc_results oc))"

text \<open>The check of one value operand against its constraint (\<open>typecheck_fixed_args\<close> of the verifier).\<close>

definition arg_ok :: "operand_constraint \<Rightarrow> clif_type \<Rightarrow> clif_type \<Rightarrow> bool" where
  "arg_ok oc c t = (case resolve oc c of
      None \<Rightarrow> False
    | Some (RBound b) \<Rightarrow> t = b
    | Some (RFree ts) \<Rightarrow> ts_contains ts t)"

definition typecheck_op :: "opcode_constraints \<Rightarrow> clif_type \<Rightarrow> clif_type list \<Rightarrow> bool" where
  "typecheck_op oc c ts \<longleftrightarrow>
     (case oc_typeset oc of None \<Rightarrow> True | Some s \<Rightarrow> ts_contains s c) \<and>
     length ts = length (oc_args oc) \<and> list_all (\<lambda>(a, t). arg_ok a c t) (zip (oc_args oc) ts)"

subsection \<open>Lookups\<close>

text \<open>The table is searched from the front, one group at a time.\<close>

lemma lookup_group: "map_of (map (\<lambda>m. (m, v)) ns @ xs) k = (if k \<in> set ns then Some v else map_of xs k)"
  by (induction ns) auto

lemma lookup_group0: "map_of (map (\<lambda>m. (m, v)) ns) k = (if k \<in> set ns then Some v else None)"
  by (induction ns) auto

lemma lookup_single: "map_of ([(m, v)] @ xs) k = (if k = m then Some v else map_of xs k)"
  by simp

lemmas lookup_simps = lookup_group lookup_group0 lookup_single list.set insert_iff empty_iff list.inject
  char.inject list.distinct simp_thms if_True if_False
  not_False_eq_True

lemma constraints_simps:
  "constraints ''splat'' = Some (sig_explicit tv_TxN [LaneOf] [Same])"
  "constraints ''insertlane'' = Some (sig_op 0 tv_TxN [Same, LaneOf] [Same])"
  "constraints ''extractlane'' = Some (sig_op 0 tv_TxN [Same] [LaneOf])"
  "constraints ''uload32'' = Some (sig_op 0 tv_iAddr [Same] [Concrete I64])"
  "constraints ''sload32'' = Some (sig_op 0 tv_iAddr [Same] [Concrete I64])"
  "constraints ''uload8x8'' = Some (sig_op 0 tv_iAddr [Same] [Concrete I16X8])"
  "constraints ''sload8x8'' = Some (sig_op 0 tv_iAddr [Same] [Concrete I16X8])"
  "constraints ''uload16x4'' = Some (sig_op 0 tv_iAddr [Same] [Concrete I32X4])"
  "constraints ''sload16x4'' = Some (sig_op 0 tv_iAddr [Same] [Concrete I32X4])"
  "constraints ''uload32x2'' = Some (sig_op 0 tv_iAddr [Same] [Concrete I64X2])"
  "constraints ''sload32x2'' = Some (sig_op 0 tv_iAddr [Same] [Concrete I64X2])"
  "constraints ''stack_addr'' = Some (sig_explicit tv_iAddr [] [Same])"
  "constraints ''get_pinned_reg'' = Some (sig_explicit tv_iAddr [] [Same])"
  "constraints ''get_frame_pointer'' = Some (sig_explicit tv_iAddr [] [Same])"
  "constraints ''get_stack_pointer'' = Some (sig_explicit tv_iAddr [] [Same])"
  "constraints ''get_return_address'' = Some (sig_explicit tv_iAddr [] [Same])"
  "constraints ''set_pinned_reg'' = Some (sig_op 0 tv_iAddr [Same] [])"
  "constraints ''iconst'' = Some (sig_explicit tv_NarrowInt [] [Same])"
  "constraints ''f32const'' = Some (sig_fixed [] [Concrete F32])"
  "constraints ''f64const'' = Some (sig_fixed [] [Concrete F64])"
  "constraints ''f128const'' = Some (sig_fixed [] [Concrete F128])"
  "constraints ''vconst'' = Some (sig_explicit tv_TxN [] [Same])"
  "constraints ''nop'' = Some (sig_fixed [] [])"
  "constraints ''vhigh_bits'' = Some (sig_explicit tv_NarrowInt [Free tv_TxN] [Same])"
  "constraints ''bitcast'' = Some (sig_explicit tv_Any [Free tv_Any] [Same])"
  "constraints ''scalar_to_vector'' = Some (sig_explicit tv_TxN [LaneOf] [Same])"
  "constraints ''ireduce'' = Some (sig_explicit tv_iB [Wider] [Same])"
  "constraints ''swiden_low'' = Some (sig_op 0 tv_I8or16or32xN [Same] [MergeLanes])"
  "constraints ''swiden_high'' = Some (sig_op 0 tv_I8or16or32xN [Same] [MergeLanes])"
  "constraints ''uwiden_low'' = Some (sig_op 0 tv_I8or16or32xN [Same] [MergeLanes])"
  "constraints ''uwiden_high'' = Some (sig_op 0 tv_I8or16or32xN [Same] [MergeLanes])"
  "constraints ''uextend'' = Some (sig_explicit tv_iB [Narrower] [Same])"
  "constraints ''sextend'' = Some (sig_explicit tv_iB [Narrower] [Same])"
  "constraints ''fpromote'' = Some (sig_explicit tv_FloatScalar [Narrower] [Same])"
  "constraints ''fdemote'' = Some (sig_explicit tv_FloatScalar [Wider] [Same])"
  "constraints ''fvdemote'' = Some (sig_fixed [Concrete F64X2] [Concrete F32X4])"
  "constraints ''fvpromote_low'' = Some (sig_fixed [Concrete F32X4] [Concrete F64X2])"
  "constraints ''fcvt_to_uint'' = Some (sig_explicit tv_iB [Free tv_FloatScalar] [Same])"
  "constraints ''fcvt_to_sint'' = Some (sig_explicit tv_iB [Free tv_FloatScalar] [Same])"
  "constraints ''fcvt_to_uint_sat'' = Some (sig_explicit tv_Int [Free tv_Float] [Same])"
  "constraints ''fcvt_to_sint_sat'' = Some (sig_explicit tv_Int [Free tv_Float] [Same])"
  "constraints ''x86_cvtt2dq'' = Some (sig_explicit tv_Int [Free tv_Float] [Same])"
  "constraints ''fcvt_from_uint'' = Some (sig_explicit tv_Float [Free tv_Int] [Same])"
  "constraints ''fcvt_from_sint'' = Some (sig_explicit tv_Float [Free tv_Int] [Same])"
  "constraints ''fence'' = Some (sig_fixed [] [])"
  "constraints ''sequence_point'' = Some (sig_fixed [] [])"
  "constraints ''store'' = Some (sig_op 0 tv_Any [Same, Free tv_iAddr] [])"
  unfolding constraints_def opcode_table_defs append_assoc
  by (simp_all only: lookup_simps)

end
