(* ===== verification/Clif_Layout.thy ===== *)
theory Clif_Layout
  imports Clir_Prelude
begin

text \<open>
  The layout of a function (\<open>cranelift/codegen/src/ir/layout.rs\<close>): the order of its blocks and of
  the instructions inside each block. This theory is the sequence view of the layout that the rest
  of the development uses: the blocks are a list, and each block has a list of instructions.
  Assertions of the source, debug assertions included, are panics.
\<close>

type_synonym block = nat
type_synonym inst = nat

record layout =
  lo_blocks :: "block list"
  lo_insts :: "block \<Rightarrow> inst list"

definition layout_new :: layout where
  "layout_new = \<lparr>lo_blocks = [], lo_insts = (\<lambda>_. [])\<rparr>"

subsection \<open>Blocks\<close>

definition is_block_inserted :: "layout \<Rightarrow> block \<Rightarrow> bool" where
  "is_block_inserted l b = (b \<in> set (lo_blocks l))"

definition entry_block :: "layout \<Rightarrow> block option" where
  "entry_block l = (case lo_blocks l of [] \<Rightarrow> None | b # _ \<Rightarrow> Some b)"

definition append_block :: "block \<Rightarrow> layout \<Rightarrow> layout option" where
  "append_block b l =
     (if is_block_inserted l b \<or> lo_insts l b \<noteq> [] then None
      else Some (l\<lparr>lo_blocks := lo_blocks l @ [b]\<rparr>))"

fun insert_before :: "'a \<Rightarrow> 'a \<Rightarrow> 'a list \<Rightarrow> 'a list" where
  "insert_before x y [] = []"
| "insert_before x y (z # zs) = (if z = y then x # z # zs else z # insert_before x y zs)"

fun insert_after :: "'a \<Rightarrow> 'a \<Rightarrow> 'a list \<Rightarrow> 'a list" where
  "insert_after x y [] = []"
| "insert_after x y (z # zs) = (if z = y then z # x # zs else z # insert_after x y zs)"

definition insert_block :: "block \<Rightarrow> block \<Rightarrow> layout \<Rightarrow> layout option" where
  "insert_block b before l =
     (if is_block_inserted l b \<or> \<not> is_block_inserted l before then None
      else Some (l\<lparr>lo_blocks := insert_before b before (lo_blocks l)\<rparr>))"

definition insert_block_after :: "block \<Rightarrow> block \<Rightarrow> layout \<Rightarrow> layout option" where
  "insert_block_after b after l =
     (if is_block_inserted l b \<or> \<not> is_block_inserted l after then None
      else Some (l\<lparr>lo_blocks := insert_after b after (lo_blocks l)\<rparr>))"

definition remove_block :: "block \<Rightarrow> layout \<Rightarrow> layout option" where
  "remove_block b l =
     (if \<not> is_block_inserted l b \<or> lo_insts l b \<noteq> [] then None
      else Some (l\<lparr>lo_blocks := removeAll b (lo_blocks l)\<rparr>))"

subsection \<open>Instructions\<close>

definition inst_block :: "layout \<Rightarrow> inst \<Rightarrow> block option" where
  "inst_block l i = find (\<lambda>b. i \<in> set (lo_insts l b)) (lo_blocks l)"

definition first_inst :: "layout \<Rightarrow> block \<Rightarrow> inst option" where
  "first_inst l b = (case lo_insts l b of [] \<Rightarrow> None | i # _ \<Rightarrow> Some i)"

definition last_inst :: "layout \<Rightarrow> block \<Rightarrow> inst option" where
  "last_inst l b = (if lo_insts l b = [] then None else Some (last (lo_insts l b)))"

fun next_of :: "'a \<Rightarrow> 'a list \<Rightarrow> 'a option" where
  "next_of x (y # z # zs) = (if x = y then Some z else next_of x (z # zs))"
| "next_of x _ = None"

definition layout_next_inst :: "layout \<Rightarrow> inst \<Rightarrow> inst option" where
  "layout_next_inst l i = (case inst_block l i of None \<Rightarrow> None | Some b \<Rightarrow> next_of i (lo_insts l b))"

definition append_inst :: "inst \<Rightarrow> block \<Rightarrow> layout \<Rightarrow> layout option" where
  "append_inst i b l =
     (if inst_block l i \<noteq> None \<or> \<not> is_block_inserted l b then None
      else Some (l\<lparr>lo_insts := (lo_insts l)(b := lo_insts l b @ [i])\<rparr>))"

definition layout_insert_inst :: "inst \<Rightarrow> inst \<Rightarrow> layout \<Rightarrow> layout option" where
  "layout_insert_inst i before l =
     (if inst_block l i \<noteq> None then None
      else case inst_block l before of
        None \<Rightarrow> None
      | Some b \<Rightarrow> Some (l\<lparr>lo_insts := (lo_insts l)(b := insert_before i before (lo_insts l b))\<rparr>))"

definition layout_remove_inst :: "inst \<Rightarrow> layout \<Rightarrow> layout option" where
  "layout_remove_inst i l =
     (case inst_block l i of
        None \<Rightarrow> None
      | Some b \<Rightarrow> Some (l\<lparr>lo_insts := (lo_insts l)(b := removeAll i (lo_insts l b))\<rparr>))"

text \<open>\<open>split_block\<close>: the instructions from \<open>before\<close> on move to \<open>new_block\<close>, placed after the block.\<close>

definition split_block :: "block \<Rightarrow> inst \<Rightarrow> layout \<Rightarrow> layout option" where
  "split_block new_block before l =
     (case inst_block l before of
        None \<Rightarrow> None
      | Some old \<Rightarrow>
          if is_block_inserted l new_block then None
          else Some (l\<lparr>lo_blocks := insert_after new_block old (lo_blocks l),
                       lo_insts := (lo_insts l)
                         (old := takeWhile (\<lambda>i. i \<noteq> before) (lo_insts l old),
                          new_block := dropWhile (\<lambda>i. i \<noteq> before) (lo_insts l old))\<rparr>))"

subsection \<open>Well-formed layouts\<close>

text \<open>
  Blocks are inserted once, instructions are inserted once, and a block that is not in the layout
  holds no instructions: this is what the links of the source represent.
\<close>

definition wf_layout :: "layout \<Rightarrow> bool" where
  "wf_layout l \<longleftrightarrow>
     distinct (lo_blocks l) \<and>
     (\<forall>b. distinct (lo_insts l b)) \<and>
     (\<forall>b. b \<notin> set (lo_blocks l) \<longrightarrow> lo_insts l b = []) \<and>
     (\<forall>b c i. i \<in> set (lo_insts l b) \<longrightarrow> i \<in> set (lo_insts l c) \<longrightarrow> b = c)"

lemma insert_before_set [simp]: "set (insert_before x y xs) = (if y \<in> set xs then insert x (set xs) else set xs)"
  by (induction xs) auto

lemma insert_after_set [simp]: "set (insert_after x y xs) = (if y \<in> set xs then insert x (set xs) else set xs)"
  by (induction xs) auto

lemma insert_before_distinct [simp]:
  "distinct xs \<Longrightarrow> x \<notin> set xs \<Longrightarrow> distinct (insert_before x y xs)"
  by (induction xs) auto

lemma insert_after_distinct [simp]:
  "distinct xs \<Longrightarrow> x \<notin> set xs \<Longrightarrow> distinct (insert_after x y xs)"
  by (induction xs) auto

lemma insert_after_last:
  "distinct (xs @ [y]) \<Longrightarrow> insert_after x y (xs @ [y]) = xs @ [y, x]"
  by (induction xs) auto

lemma insert_before_last:
  "distinct (xs @ [y]) \<Longrightarrow> insert_before x y (xs @ [y]) = xs @ [x, y]"
  by (induction xs) auto

lemma next_of_last: "distinct (xs @ [y]) \<Longrightarrow> next_of y (xs @ [y]) = None"
  by (induction y xs rule: next_of.induct) (auto split: list.splits)

lemma inst_block_iff:
  assumes "wf_layout l"
  shows "inst_block l i = Some b \<longleftrightarrow> i \<in> set (lo_insts l b)"
proof
  assume "inst_block l i = Some b"
  then show "i \<in> set (lo_insts l b)"
    by (auto simp: inst_block_def find_Some_iff)
next
  assume i: "i \<in> set (lo_insts l b)"
  then have "b \<in> set (lo_blocks l)"
    using assms by (force simp: wf_layout_def)
  with i obtain c where c: "inst_block l i = Some c"
    by (cases "inst_block l i") (auto simp: inst_block_def find_None_iff)
  then have "i \<in> set (lo_insts l c)"
    by (auto simp: inst_block_def find_Some_iff)
  with i assms have "c = b"
    unfolding wf_layout_def by blast
  with c show "inst_block l i = Some b" by simp
qed

lemma inst_block_None_iff:
  assumes "wf_layout l"
  shows "inst_block l i = None \<longleftrightarrow> (\<forall>b. i \<notin> set (lo_insts l b))"
  using inst_block_iff [OF assms, of i] by (metis not_None_eq)

lemma inst_block_inserted: "inst_block l i = Some b \<Longrightarrow> b \<in> set (lo_blocks l)"
  unfolding inst_block_def find_Some_iff by auto

text \<open>Every operation that returns keeps the layout well formed.\<close>

lemma wf_layout_new [simp, intro]: "wf_layout layout_new"
  by (simp add: wf_layout_def layout_new_def)

lemma wf_append_block: "wf_layout l \<Longrightarrow> append_block b l = Some l' \<Longrightarrow> wf_layout l'"
  by (auto simp: append_block_def wf_layout_def is_block_inserted_def split: if_splits)

lemma wf_insert_block: "wf_layout l \<Longrightarrow> insert_block b c l = Some l' \<Longrightarrow> wf_layout l'"
  by (auto simp: insert_block_def wf_layout_def is_block_inserted_def split: if_splits)

lemma wf_insert_block_after: "wf_layout l \<Longrightarrow> insert_block_after b c l = Some l' \<Longrightarrow> wf_layout l'"
  by (auto simp: insert_block_after_def wf_layout_def is_block_inserted_def split: if_splits)

lemma wf_remove_block: "wf_layout l \<Longrightarrow> remove_block b l = Some l' \<Longrightarrow> wf_layout l'"
  by (auto simp: remove_block_def wf_layout_def is_block_inserted_def distinct_removeAll split: if_splits)

lemma wf_append_inst: "wf_layout l \<Longrightarrow> append_inst i b l = Some l' \<Longrightarrow> wf_layout l'"
  using inst_block_None_iff [of l i]
  by (auto simp: append_inst_def wf_layout_def is_block_inserted_def split: if_splits)

lemma wf_layout_insert_inst:
  assumes "wf_layout l" and "layout_insert_inst i j l = Some l'"
  shows "wf_layout l'"
proof -
  from assms(2) obtain b where b: "inst_block l j = Some b" and i: "inst_block l i = None"
    and l': "l' = l\<lparr>lo_insts := (lo_insts l)(b := insert_before i j (lo_insts l b))\<rparr>"
    by (auto simp: layout_insert_inst_def split: if_splits option.splits)
  have "j \<in> set (lo_insts l b)" "\<forall>c. i \<notin> set (lo_insts l c)"
    using b i inst_block_iff [OF assms(1)] inst_block_None_iff [OF assms(1)] by auto
  then show ?thesis
    using assms(1) l' inst_block_inserted [OF b] by (auto simp: wf_layout_def)
qed

lemma wf_layout_remove_inst: "wf_layout l \<Longrightarrow> layout_remove_inst i l = Some l' \<Longrightarrow> wf_layout l'"
  by (auto simp: layout_remove_inst_def wf_layout_def distinct_removeAll
      dest: inst_block_inserted split: option.splits if_splits)

lemma wf_split_block:
  assumes "wf_layout l" and "split_block n i l = Some l'"
  shows "wf_layout l'"
proof -
  from assms(2) obtain b where b: "inst_block l i = Some b" and n: "n \<notin> set (lo_blocks l)"
    and l': "l' = l\<lparr>lo_blocks := insert_after n b (lo_blocks l),
                   lo_insts := (lo_insts l)(b := takeWhile (\<lambda>j. j \<noteq> i) (lo_insts l b),
                                            n := dropWhile (\<lambda>j. j \<noteq> i) (lo_insts l b))\<rparr>"
    by (auto simp: split_block_def is_block_inserted_def split: if_splits option.splits)
  have bin: "b \<in> set (lo_blocks l)" and bn: "b \<noteq> n"
    using inst_block_inserted [OF b] n by auto
  have split: "takeWhile (\<lambda>j. j \<noteq> i) (lo_insts l b) @ dropWhile (\<lambda>j. j \<noteq> i) (lo_insts l b) = lo_insts l b"
    by simp
  have disj: "set (takeWhile (\<lambda>j. j \<noteq> i) (lo_insts l b)) \<inter> set (dropWhile (\<lambda>j. j \<noteq> i) (lo_insts l b)) = {}"
    using assms(1) split unfolding wf_layout_def by (metis distinct_append)
  have sub: "set (takeWhile (\<lambda>j. j \<noteq> i) (lo_insts l b)) \<subseteq> set (lo_insts l b)"
    "set (dropWhile (\<lambda>j. j \<noteq> i) (lo_insts l b)) \<subseteq> set (lo_insts l b)"
    by (auto dest: set_takeWhileD set_dropWhileD)
  show ?thesis
    unfolding wf_layout_def
  proof (intro conjI allI impI)
    show "distinct (lo_blocks l')" using assms(1) n l' by (simp add: wf_layout_def)
    show "distinct (lo_insts l' c)" for c
      using assms(1) l' by (auto simp: wf_layout_def)
    show "lo_insts l' c = []" if "c \<notin> set (lo_blocks l')" for c
      using that assms(1) bin bn l' by (auto simp: wf_layout_def)
    show "c = d" if "j \<in> set (lo_insts l' c)" "j \<in> set (lo_insts l' d)" for c d j
    proof -
      have inj: "x = y" if "j \<in> set (lo_insts l x)" "j \<in> set (lo_insts l y)" for x y
        using assms(1) that by (auto simp: wf_layout_def)
      have empty: "lo_insts l n = []" using assms(1) n by (simp add: wf_layout_def)
      show ?thesis
        using that sub disj bn l' inj [of c b] inj [of d b] inj [of c d] empty
        by (auto split: if_splits)
    qed
  qed
qed

end
