(* ===== verification/Clif_Ir.thy ===== *)
theory Clif_Ir
  imports Clif_Opcodes Clif_Layout
begin

text \<open>
  The functions the program builds: the data flow graph (\<open>cranelift/codegen/src/ir/dfg.rs\<close>), the
  jump tables (\<open>jumptable.rs\<close>), the cursor (\<open>cursor.rs\<close>) and the builder of instructions
  (\<open>builder.rs\<close> and the methods generated by \<open>meta/src/gen_inst.rs\<close>).

  Entities (blocks, instructions, values, jump tables, stack slots) are the indices the program
  uses. A \<open>PrimaryMap\<close> is a list whose length is the next index, and reading it out of range is a
  panic; value lists are stored in place instead of in the shared pool.
\<close>

subsection \<open>Data\<close>

type_synonym val = nat

datatype block_call = BlockCall (bc_block: block) (bc_args: "val list")

datatype imm =
    Imm64 int
  | Uimm8 nat
  | Offset32 int
  | StackSlot nat
  | CondCode string
  | MemFlagsLE
  | RmwOp string
  | TrapCode
  | FloatBits nat
  | ConstBytes "nat list"

text \<open>The formats with control flow or variable arguments, and \<open>Op\<close> for all the fixed formats:
  an opcode, its immediates and its value operands.\<close>

datatype inst_data =
    Jump block_call
  | Brif val block_call block_call
  | BranchTable val nat
  | Call nat "val list"
  | Return "val list"
  | Op opcode "imm list" "val list"

datatype value_data =
    ValInst (vd_type: clif_type) nat inst
  | ValParam (vd_type: clif_type) nat block

record jump_table =
  jt_default :: block_call
  jt_table :: "block_call list"

definition all_branches :: "jump_table \<Rightarrow> block_call list" where
  "all_branches jt = jt_default jt # jt_table jt"

record signature =
  sig_params :: "clif_type list"
  sig_returns :: "clif_type list"

datatype func_name = Testcase string | User nat nat

record ext_func =
  ef_name :: func_name
  ef_sig :: nat

record func =
  fn_name :: func_name
  fn_sig :: signature
  stack_slots :: "nat list"
  dfg_insts :: "inst_data list"
  dfg_results :: "val list list"
  dfg_blocks :: "val list list"
  dfg_values :: "value_data list"
  jump_tables :: "jump_table list"
  signatures :: "signature list"
  ext_funcs :: "ext_func list"
  fn_layout :: layout

definition func_new :: "func_name \<Rightarrow> signature \<Rightarrow> func" where
  "func_new n s = \<lparr>fn_name = n, fn_sig = s, stack_slots = [], dfg_insts = [], dfg_results = [],
     dfg_blocks = [], dfg_values = [], jump_tables = [], signatures = [], ext_funcs = [],
     fn_layout = layout_new\<rparr>"

subsection \<open>The data flow graph\<close>

definition value_type :: "func \<Rightarrow> val \<Rightarrow> clif_type option" where
  "value_type f v = map_option vd_type (nth_opt (dfg_values f) v)"

definition make_block :: "func \<Rightarrow> block \<times> func" where
  "make_block f = (length (dfg_blocks f), f\<lparr>dfg_blocks := dfg_blocks f @ [[]]\<rparr>)"

fun make_blocks :: "nat \<Rightarrow> func \<Rightarrow> block list \<times> func" where
  "make_blocks 0 f = ([], f)"
| "make_blocks (Suc n) f =
     (let (b, f1) = make_block f; (bs, f2) = make_blocks n f1 in (b # bs, f2))"

definition append_block_param :: "block \<Rightarrow> clif_type \<Rightarrow> func \<Rightarrow> (val \<times> func) option" where
  "append_block_param b ty f =
     (case nth_opt (dfg_blocks f) b of
        None \<Rightarrow> None
      | Some ps \<Rightarrow>
          (let v = length (dfg_values f) in
           Some (v, f\<lparr>dfg_blocks := (dfg_blocks f)[b := ps @ [v]],
                      dfg_values := dfg_values f @ [ValParam ty (length ps) b]\<rparr>)))"

text \<open>\<open>remove_block_param\<close>: the parameters after the removed one are renumbered.\<close>

fun renumber_param :: "value_data \<Rightarrow> value_data option" where
  "renumber_param (ValParam ty n b) = Some (ValParam ty (n - 1) b)"
| "renumber_param _ = None"

fun renumber_params :: "val list \<Rightarrow> value_data list \<Rightarrow> value_data list option" where
  "renumber_params [] vs = Some vs"
| "renumber_params (p # ps) vs = do {
     d \<leftarrow> nth_opt vs p;
     d' \<leftarrow> renumber_param d;
     renumber_params ps (vs[p := d'])
   }"

definition remove_block_param :: "val \<Rightarrow> func \<Rightarrow> func option" where
  "remove_block_param v f = do {
     d \<leftarrow> nth_opt (dfg_values f) v;
     case d of
       ValInst _ _ _ \<Rightarrow> None
     | ValParam ty num b \<Rightarrow> do {
         ps \<leftarrow> nth_opt (dfg_blocks f) b;
         let ps' = take num ps @ drop (Suc num) ps;
         vs \<leftarrow> renumber_params (drop num ps') (dfg_values f);
         Some (f\<lparr>dfg_blocks := (dfg_blocks f)[b := ps'], dfg_values := vs\<rparr>)
       }
   }"

definition make_inst :: "inst_data \<Rightarrow> func \<Rightarrow> inst \<times> func" where
  "make_inst d f = (length (dfg_insts f),
     f\<lparr>dfg_insts := dfg_insts f @ [d], dfg_results := dfg_results f @ [[]]\<rparr>)"

text \<open>\<open>make_inst_results\<close>: one fresh value per result type, numbered in order.\<close>

definition make_inst_results :: "inst \<Rightarrow> clif_type list \<Rightarrow> func \<Rightarrow> func" where
  "make_inst_results i tys f =
     (let n = length (dfg_values f) in
      f\<lparr>dfg_values := dfg_values f @ map (\<lambda>k. ValInst (tys ! k) k i) [0..<length tys],
        dfg_results := (dfg_results f)[i := [n..<n + length tys]]\<rparr>)"

definition create_jump_table :: "jump_table \<Rightarrow> func \<Rightarrow> nat \<times> func" where
  "create_jump_table jt f = (length (jump_tables f), f\<lparr>jump_tables := jump_tables f @ [jt]\<rparr>)"

definition create_sized_stack_slot :: "nat \<Rightarrow> func \<Rightarrow> nat \<times> func" where
  "create_sized_stack_slot n f = (length (stack_slots f), f\<lparr>stack_slots := stack_slots f @ [n]\<rparr>)"

subsection \<open>The cursor\<close>

datatype cursor_position = Nowhere | At inst | Before block | After block

record cursor =
  cur_pos :: cursor_position
  cur_func :: func

definition cursor_new :: "func \<Rightarrow> cursor" where
  "cursor_new f = \<lparr>cur_pos = Nowhere, cur_func = f\<rparr>"

abbreviation cur_layout :: "cursor \<Rightarrow> layout" where
  "cur_layout c \<equiv> fn_layout (cur_func c)"

definition set_layout :: "layout \<Rightarrow> cursor \<Rightarrow> cursor" where
  "set_layout l c = c\<lparr>cur_func := (cur_func c)\<lparr>fn_layout := l\<rparr>\<rparr>"

definition goto_inst :: "inst \<Rightarrow> cursor \<Rightarrow> cursor option" where
  "goto_inst i c = (if inst_block (cur_layout c) i = None then None else Some (c\<lparr>cur_pos := At i\<rparr>))"

definition goto_bottom :: "block \<Rightarrow> cursor \<Rightarrow> cursor option" where
  "goto_bottom b c = (if is_block_inserted (cur_layout c) b then Some (c\<lparr>cur_pos := After b\<rparr>) else None)"

definition goto_first_insertion_point :: "block \<Rightarrow> cursor \<Rightarrow> cursor option" where
  "goto_first_insertion_point b c =
     (case first_inst (cur_layout c) b of Some i \<Rightarrow> goto_inst i c | None \<Rightarrow> goto_bottom b c)"

definition goto_first_inst :: "block \<Rightarrow> cursor \<Rightarrow> cursor option" where
  "goto_first_inst b c = do { i \<leftarrow> first_inst (cur_layout c) b; goto_inst i c }"

definition goto_last_inst :: "block \<Rightarrow> cursor \<Rightarrow> cursor option" where
  "goto_last_inst b c = do { i \<leftarrow> last_inst (cur_layout c) b; goto_inst i c }"

fun current_inst :: "cursor \<Rightarrow> inst option" where
  "current_inst c = (case cur_pos c of At i \<Rightarrow> Some i | _ \<Rightarrow> None)"

text \<open>\<open>next_inst_position\<close>: the outer option is the panic, the inner one the result.\<close>

definition next_inst_position :: "cursor \<Rightarrow> cursor_position option option" where
  "next_inst_position c = (case cur_pos c of
      Nowhere \<Rightarrow> Some None
    | After _ \<Rightarrow> Some None
    | At i \<Rightarrow> (case layout_next_inst (cur_layout c) i of
          Some n \<Rightarrow> Some (Some (At n))
        | None \<Rightarrow> do { b \<leftarrow> inst_block (cur_layout c) i; Some (Some (After b)) })
    | Before b \<Rightarrow> (case first_inst (cur_layout c) b of
          Some n \<Rightarrow> Some (Some (At n))
        | None \<Rightarrow> Some (Some (After b))))"

definition next_inst :: "cursor \<Rightarrow> (inst option \<times> cursor) option" where
  "next_inst c = do {
     p \<leftarrow> next_inst_position c;
     case p of
       None \<Rightarrow> Some (None, c)
     | Some q \<Rightarrow> (let c' = c\<lparr>cur_pos := q\<rparr> in Some (current_inst c', c'))
   }"

definition insert_inst :: "inst \<Rightarrow> cursor \<Rightarrow> cursor option" where
  "insert_inst i c = (case cur_pos c of
      Nowhere \<Rightarrow> None
    | Before _ \<Rightarrow> None
    | At j \<Rightarrow> map_option (\<lambda>l. set_layout l c) (layout_insert_inst i j (cur_layout c))
    | After b \<Rightarrow> map_option (\<lambda>l. set_layout l c) (append_inst i b (cur_layout c)))"

definition remove_inst :: "cursor \<Rightarrow> cursor option" where
  "remove_inst c = do {
     i \<leftarrow> current_inst c;
     (_, c') \<leftarrow> next_inst c;
     l \<leftarrow> layout_remove_inst i (cur_layout c');
     Some (set_layout l c')
   }"

definition cur_insert_block :: "block \<Rightarrow> cursor \<Rightarrow> cursor option" where
  "cur_insert_block b c = (case cur_pos c of
      At i \<Rightarrow> map_option (\<lambda>l. set_layout l c) (split_block b i (cur_layout c))
    | Nowhere \<Rightarrow> map_option (\<lambda>l. (set_layout l c)\<lparr>cur_pos := After b\<rparr>) (append_block b (cur_layout c))
    | Before d \<Rightarrow> map_option (\<lambda>l. (set_layout l c)\<lparr>cur_pos := After b\<rparr>) (insert_block b d (cur_layout c))
    | After d \<Rightarrow> map_option (\<lambda>l. (set_layout l c)\<lparr>cur_pos := After b\<rparr>) (insert_block_after b d (cur_layout c)))"

subsection \<open>The builder\<close>

definition mask_to_width :: "nat \<Rightarrow> int \<Rightarrow> int" where
  "mask_to_width w i = (if 64 \<le> w then i else i mod 2 ^ w)"

definition signed_cc :: "string \<Rightarrow> bool" where
  "signed_cc cc = (cc \<in> set [''sge'', ''sgt'', ''sle'', ''slt''])"

text \<open>Immediates are masked for \<open>iconst\<close>, for the signed divisions, and for signed comparisons.\<close>

definition masks_imm :: "opcode \<Rightarrow> imm list \<Rightarrow> bool" where
  "masks_imm m imms =
     (m \<in> set [''iconst'', ''sdiv_imm'', ''srem_imm''] \<or>
      m = ''icmp_imm'' \<and> (case imms of CondCode cc # _ \<Rightarrow> signed_cc cc | _ \<Rightarrow> False))"

definition mask_immediates :: "opcode \<Rightarrow> clif_type \<Rightarrow> imm list \<Rightarrow> imm list" where
  "mask_immediates m c imms =
     (if c = INVALID \<or> \<not> masks_imm m imms then imms
      else map (\<lambda>i. case i of Imm64 n \<Rightarrow> Imm64 (mask_to_width (type_bits c) n) | _ \<Rightarrow> i) imms)"

text \<open>\<open>InstBuilderBase::build\<close>: make the instruction, make its results, insert it at the cursor.\<close>

definition build_inst :: "inst_data \<Rightarrow> clif_type list \<Rightarrow> cursor \<Rightarrow> (inst \<times> cursor) option" where
  "build_inst d tys c =
     (let (i, f1) = make_inst d (cur_func c); f2 = make_inst_results i tys f1 in
      map_option (\<lambda>c'. (i, c')) (insert_inst i (c\<lparr>cur_func := f2\<rparr>)))"

definition ins_jump :: "block \<Rightarrow> val list \<Rightarrow> cursor \<Rightarrow> cursor option" where
  "ins_jump b args c = map_option snd (build_inst (Jump (BlockCall b args)) [] c)"

definition ins_brif :: "val \<Rightarrow> block \<Rightarrow> block \<Rightarrow> cursor \<Rightarrow> cursor option" where
  "ins_brif v b1 b2 c = map_option snd (build_inst (Brif v (BlockCall b1 []) (BlockCall b2 [])) [] c)"

definition ins_br_table :: "val \<Rightarrow> nat \<Rightarrow> cursor \<Rightarrow> cursor option" where
  "ins_br_table v jt c = map_option snd (build_inst (BranchTable v jt) [] c)"

definition ins_return :: "val list \<Rightarrow> cursor \<Rightarrow> cursor option" where
  "ins_return vs c = map_option snd (build_inst (Return vs) [] c)"

definition ins_call :: "nat \<Rightarrow> val list \<Rightarrow> cursor \<Rightarrow> (inst \<times> cursor) option" where
  "ins_call fr vs c = do {
     ef \<leftarrow> nth_opt (ext_funcs (cur_func c)) fr;
     sg \<leftarrow> nth_opt (signatures (cur_func c)) (ef_sig ef);
     build_inst (Call fr vs) (sig_returns sg) c
   }"

definition ctrl_type :: "opcode_constraints \<Rightarrow> clif_type \<Rightarrow> val list \<Rightarrow> func \<Rightarrow> clif_type option" where
  "ctrl_type oc ty args f = (case oc_ctrl oc of
      Operand k \<Rightarrow> do { v \<leftarrow> nth_opt args k; value_type f v }
    | Explicit \<Rightarrow> Some ty
    | NotPoly \<Rightarrow> Some INVALID)"

text \<open>
  \<open>ins_op\<close> stands for the generated builder methods: the controlling type is the type of the
  designated operand, or the argument \<open>ty\<close> for the methods that take one.
\<close>

definition ins_op :: "opcode \<Rightarrow> clif_type \<Rightarrow> imm list \<Rightarrow> val list \<Rightarrow> cursor \<Rightarrow> (val list \<times> cursor) option" where
  "ins_op m ty imms args c = do {
     oc \<leftarrow> constraints m;
     ct \<leftarrow> ctrl_type oc ty args (cur_func c);
     tys \<leftarrow> result_types oc ct;
     let n = length (dfg_values (cur_func c));
     (i, c') \<leftarrow> build_inst (Op m (mask_immediates m ct imms) args) tys c;
     Some ([n..<n + length tys], c')
   }"

subsection \<open>Operands of instructions\<close>

text \<open>\<open>arguments\<close> are the value operands of an instruction, without the arguments of its block calls.\<close>

fun arguments :: "inst_data \<Rightarrow> val list" where
  "arguments (Jump _) = []"
| "arguments (Brif v _ _) = [v]"
| "arguments (BranchTable v _) = [v]"
| "arguments (Call _ vs) = vs"
| "arguments (Return vs) = vs"
| "arguments (Op _ _ vs) = vs"

fun inst_opcode :: "inst_data \<Rightarrow> opcode" where
  "inst_opcode (Jump _) = ''jump''"
| "inst_opcode (Brif _ _ _) = ''brif''"
| "inst_opcode (BranchTable _ _) = ''br_table''"
| "inst_opcode (Call _ _) = ''call''"
| "inst_opcode (Return _) = ''return''"
| "inst_opcode (Op m _ _) = m"

end
