(* ===== verification/Flow_Graph.thy ===== *)
theory Flow_Graph
  imports Clif_Ir
begin

text \<open>
  The control flow graph (\<open>cranelift/codegen/src/flowgraph.rs\<close>, with \<open>visit_block_succs\<close> of
  \<open>inst_predicates.rs\<close>): successors are ordered sets of blocks, predecessors ordered maps from
  branch instructions to blocks. Lemma \<open>with_function_correct\<close> says what the computed graph is in
  terms of the branch targets of the function.
\<close>

subsection \<open>Ordered sets and maps\<close>

text \<open>\<open>bforest::Set::insert\<close> and \<open>bforest::Map::insert\<close>: a key is stored once, in order, and a
  second insertion under the same key replaces the value.\<close>

fun set_insert :: "nat \<Rightarrow> nat list \<Rightarrow> nat list" where
  "set_insert x [] = [x]"
| "set_insert x (y # ys) = (if x < y then x # y # ys else if x = y then y # ys else y # set_insert x ys)"

fun map_insert :: "nat \<Rightarrow> 'b \<Rightarrow> (nat \<times> 'b) list \<Rightarrow> (nat \<times> 'b) list" where
  "map_insert k v [] = [(k, v)]"
| "map_insert k v ((l, w) # ys) =
     (if k < l then (k, v) # (l, w) # ys
      else if k = l then (k, v) # ys else (l, w) # map_insert k v ys)"

lemma set_set_insert [simp]: "set (set_insert x xs) = insert x (set xs)"
  by (induction xs) auto

lemma sorted_set_insert [simp]: "sorted_wrt (<) xs \<Longrightarrow> sorted_wrt (<) (set_insert x xs)"
  by (induction xs) auto

lemma keys_map_insert [simp]: "fst ` set (map_insert k v m) = insert k (fst ` set m)"
  by (induction k v m rule: map_insert.induct) auto

lemma sorted_map_insert [simp]:
  "sorted_wrt (<) (map fst m) \<Longrightarrow> sorted_wrt (<) (map fst (map_insert k v m))"
proof (induction k v m rule: map_insert.induct)
  case (2 k v l w ys)
  have "fst p = k \<or> fst p \<in> fst ` set ys" if "p \<in> set (map_insert k v ys)" for p
    using that imageI [OF that, of fst] by simp
  with 2 show ?case by fastforce
qed simp

lemma map_of_map_insert [simp]: "map_of (map_insert k v m) = (map_of m)(k \<mapsto> v)"
  by (induction k v m rule: map_insert.induct) (auto simp: fun_upd_twist)

subsection \<open>Branch targets\<close>

definition visit_block_succs :: "func \<Rightarrow> block \<Rightarrow> (inst \<times> block) list option" where
  "visit_block_succs f b =
     (case last_inst (fn_layout f) b of
        None \<Rightarrow> Some []
      | Some i \<Rightarrow> do {
          d \<leftarrow> nth_opt (dfg_insts f) i;
          case d of
            Jump bc \<Rightarrow> Some [(i, bc_block bc)]
          | Brif v b1 b2 \<Rightarrow> Some [(i, bc_block b1), (i, bc_block b2)]
          | BranchTable v t \<Rightarrow> do {
              jt \<leftarrow> nth_opt (jump_tables f) t;
              Some (map (\<lambda>bc. (i, bc_block bc)) (all_branches jt))
            }
          | _ \<Rightarrow> Some []
        })"

subsection \<open>The graph\<close>

record cfg =
  cfg_preds :: "block \<Rightarrow> (inst \<times> block) list"
  cfg_succs :: "block \<Rightarrow> block list"
  cfg_valid :: bool

definition cfg_new :: cfg where
  "cfg_new = \<lparr>cfg_preds = (\<lambda>_. []), cfg_succs = (\<lambda>_. []), cfg_valid = False\<rparr>"

definition add_edge :: "block \<Rightarrow> inst \<Rightarrow> block \<Rightarrow> cfg \<Rightarrow> cfg" where
  "add_edge from i to g =
     g\<lparr>cfg_succs := (cfg_succs g)(from := set_insert to (cfg_succs g from)),
       cfg_preds := (cfg_preds g)(to := map_insert i from (cfg_preds g to))\<rparr>"

definition compute_block :: "func \<Rightarrow> block \<Rightarrow> cfg \<Rightarrow> cfg option" where
  "compute_block f b g = do {
     es \<leftarrow> visit_block_succs f b;
     Some (fold (\<lambda>(i, to). add_edge b i to) es g)
   }"

definition with_function :: "func \<Rightarrow> cfg option" where
  "with_function f = do {
     g \<leftarrow> foldM (compute_block f) (lo_blocks (fn_layout f)) cfg_new;
     Some (g\<lparr>cfg_valid := True\<rparr>)
   }"

text \<open>\<open>pred_iter\<close> yields a block with the branch instruction, \<open>succ_iter\<close> a block.\<close>

definition pred_iter :: "cfg \<Rightarrow> block \<Rightarrow> (block \<times> inst) list" where
  "pred_iter g b = map (\<lambda>(i, p). (p, i)) (cfg_preds g b)"

definition succ_iter :: "cfg \<Rightarrow> block \<Rightarrow> block list" where
  "succ_iter g b = cfg_succs g b"

subsection \<open>What the graph is\<close>

definition targets :: "func \<Rightarrow> block \<Rightarrow> block list" where
  "targets f b = (case visit_block_succs f b of None \<Rightarrow> [] | Some es \<Rightarrow> map snd es)"

definition flow_ok :: "func \<Rightarrow> bool" where
  "flow_ok f \<longleftrightarrow> wf_layout (fn_layout f) \<and> list_all (\<lambda>b. visit_block_succs f b \<noteq> None) (lo_blocks (fn_layout f))"

definition flow_edges :: "func \<Rightarrow> (block \<times> block) set" where
  "flow_edges f = {(b, t). b \<in> set (lo_blocks (fn_layout f)) \<and> t \<in> set (targets f b)}"

lemma visit_block_succs_inst:
  assumes "visit_block_succs f b = Some es" and "(i, t) \<in> set es"
  shows "last_inst (fn_layout f) b = Some i"
  using assms by (auto simp: visit_block_succs_def bind_eq_Some_conv split: option.splits inst_data.splits)

lemma add_edges_succs:
  "cfg_succs (fold (\<lambda>(i, to). add_edge b i to) es g) =
     (cfg_succs g)(b := fold set_insert (map snd es) (cfg_succs g b))"
  by (induction es arbitrary: g) (auto simp: add_edge_def)

lemma add_edges_preds:
  "cfg_preds (fold (\<lambda>(i, to). add_edge b i to) es g) t =
     fold (\<lambda>(i, to) m. if to = t then map_insert i b m else m) es (cfg_preds g t)"
  by (induction es arbitrary: g) (auto simp: add_edge_def)

lemma fold_set_insert:
  "set (fold set_insert xs ys) = set xs \<union> set ys"
  "sorted_wrt (<) ys \<Longrightarrow> sorted_wrt (<) (fold set_insert xs ys)"
  by (induction xs arbitrary: ys) auto

lemma fold_preds_sorted:
  "sorted_wrt (<) (map fst m) \<Longrightarrow>
     sorted_wrt (<) (map fst (fold (\<lambda>(i, to) m. if to = t then map_insert i b m else m) es m))"
  by (induction es arbitrary: m) auto

lemma fold_preds_map_of:
  "map_of (fold (\<lambda>(i, to) m. if to = t then map_insert i b m else m) es m) j =
     (if (j, t) \<in> set es then Some b else map_of m j)"
proof (induction es arbitrary: m)
  case (Cons e es)
  obtain i u where "e = (i, u)" by (cases e)
  with Cons show ?case by (cases "u = t") auto
qed simp

text \<open>
  \<open>cfg_of f bs g\<close>: the graph \<open>g\<close> holds exactly the edges that leave the blocks \<open>bs\<close>, the successors
  in increasing order, the predecessors ordered by their branch instructions.
\<close>

definition cfg_of :: "func \<Rightarrow> block set \<Rightarrow> cfg \<Rightarrow> bool" where
  "cfg_of f bs g \<longleftrightarrow>
     (\<forall>b. sorted_wrt (<) (cfg_succs g b) \<and> set (cfg_succs g b) = (if b \<in> bs then set (targets f b) else {})) \<and>
     (\<forall>t. sorted_wrt (<) (map fst (cfg_preds g t)) \<and>
        (\<forall>i p. (i, p) \<in> set (cfg_preds g t) \<longleftrightarrow>
           p \<in> bs \<and> last_inst (fn_layout f) p = Some i \<and> t \<in> set (targets f p)))"

lemma cfg_of_valid: "cfg_of f bs (g\<lparr>cfg_valid := v\<rparr>) = cfg_of f bs g"
  by (simp add: cfg_of_def)

lemma map_of_sorted_iff:
  "sorted_wrt (<) (map fst m) \<Longrightarrow> map_of m k = Some v \<longleftrightarrow> (k, v) \<in> set (m :: (nat \<times> 'b) list)"
  by (simp add: map_of_eq_Some_iff strict_sorted_iff)

lemma last_inst_inj:
  assumes "wf_layout l" and "last_inst l b = Some i" and "last_inst l c = Some i"
  shows "b = c"
  using assms unfolding wf_layout_def last_inst_def
  by (metis last_in_set option.distinct(1) option.inject)

lemma compute_block_step:
  assumes "wf_layout (fn_layout f)" and "cfg_of f bs g" and "b \<notin> bs"
    and "visit_block_succs f b = Some es"
  shows "cfg_of f (insert b bs) (fold (\<lambda>(i, to). add_edge b i to) es g)" (is "cfg_of f _ ?g")
proof -
  have tg: "targets f b = map snd es" using assms(4) by (simp add: targets_def)
  have inst: "(i, t) \<in> set es \<longleftrightarrow> last_inst (fn_layout f) b = Some i \<and> t \<in> set (targets f b)" for i t
    using visit_block_succs_inst [OF assms(4)] tg by force
  have old: "cfg_succs g b = []" using assms(2,3) unfolding cfg_of_def by (metis set_empty)
  have succs: "sorted_wrt (<) (cfg_succs ?g c) \<and>
      set (cfg_succs ?g c) = (if c \<in> insert b bs then set (targets f c) else {})" for c
    using assms(2) unfolding cfg_of_def add_edges_succs by (auto simp: fold_set_insert tg old)
  have sorted: "sorted_wrt (<) (map fst (cfg_preds g t))" for t
    using assms(2) by (simp add: cfg_of_def)
  have sorted': "sorted_wrt (<) (map fst (cfg_preds ?g t))" for t
    unfolding add_edges_preds by (rule fold_preds_sorted [OF sorted])
  have preds: "(i, p) \<in> set (cfg_preds ?g t) \<longleftrightarrow>
      p \<in> insert b bs \<and> last_inst (fn_layout f) p = Some i \<and> t \<in> set (targets f p)" for i p t
  proof -
    have "(i, p) \<in> set (cfg_preds ?g t) \<longleftrightarrow> map_of (cfg_preds ?g t) i = Some p"
      using map_of_sorted_iff [OF sorted'] by simp
    also have "\<dots> \<longleftrightarrow> (if (i, t) \<in> set es then p = b else (i, p) \<in> set (cfg_preds g t))"
      unfolding add_edges_preds fold_preds_map_of using map_of_sorted_iff [OF sorted] by auto
    also have "\<dots> \<longleftrightarrow> p \<in> insert b bs \<and> last_inst (fn_layout f) p = Some i \<and> t \<in> set (targets f p)"
      using assms(2,3) inst last_inst_inj [OF assms(1)] unfolding cfg_of_def by auto
    finally show ?thesis .
  qed
  show ?thesis
    unfolding cfg_of_def using succs sorted' preds by blast
qed

lemma with_function_correct:
  assumes "flow_ok f"
  shows "\<exists>g. with_function f = Some g \<and> cfg_of f (set (lo_blocks (fn_layout f))) g"
proof -
  have wf: "wf_layout (fn_layout f)" and dist: "distinct (lo_blocks (fn_layout f))"
    using assms by (auto simp: flow_ok_def wf_layout_def)
  have "\<exists>g. foldM (compute_block f) (lo_blocks (fn_layout f)) cfg_new = Some g \<and>
      cfg_of f (set (lo_blocks (fn_layout f))) g"
  proof (rule foldM_invariant [where I = "\<lambda>ys. cfg_of f (set ys)"])
    show "cfg_of f (set []) cfg_new" by (simp add: cfg_of_def cfg_new_def)
    fix ys b zs g
    assume bs: "lo_blocks (fn_layout f) = ys @ b # zs" and g: "cfg_of f (set ys) g"
    then have b: "b \<notin> set ys" using dist by simp
    from assms bs obtain es where es: "visit_block_succs f b = Some es"
      by (auto simp: flow_ok_def)
    show "\<exists>g'. compute_block f b g = Some g' \<and> cfg_of f (set (ys @ [b])) g'"
      using compute_block_step [OF wf g b es] es by (simp add: compute_block_def)
  qed
  then show ?thesis by (auto simp: with_function_def cfg_of_valid)
qed

lemma with_function_SomeD:
  assumes "flow_ok f" and "with_function f = Some g"
  shows "cfg_of f (set (lo_blocks (fn_layout f))) g"
  using with_function_correct [OF assms(1)] assms(2) by auto

text \<open>The two iterators, in terms of the branch targets of the function.\<close>

lemma succ_iter_iff:
  "cfg_of f bs g \<Longrightarrow> t \<in> set (succ_iter g b) \<longleftrightarrow> b \<in> bs \<and> t \<in> set (targets f b)"
  by (auto simp: cfg_of_def succ_iter_def)

lemma succ_iter_eq:
  "cfg_of f bs g \<Longrightarrow> b \<in> bs \<Longrightarrow> succ_iter g b = sorted_list_of_set (set (targets f b))"
  unfolding cfg_of_def succ_iter_def by (metis sorted_list_of_set.idem_if_sorted_distinct strict_sorted_iff)

lemma pred_iter_mem: "(p, i) \<in> set (pred_iter g t) \<longleftrightarrow> (i, p) \<in> set (cfg_preds g t)"
  by (force simp: pred_iter_def)

lemma pred_iter_iff:
  "cfg_of f bs g \<Longrightarrow>
     (p, i) \<in> set (pred_iter g t) \<longleftrightarrow>
       p \<in> bs \<and> last_inst (fn_layout f) p = Some i \<and> t \<in> set (targets f p)"
  by (simp add: cfg_of_def pred_iter_mem)

lemma pred_iter_distinct:
  assumes "cfg_of f bs g" and "wf_layout (fn_layout f)"
  shows "distinct (map fst (pred_iter g t))"
proof -
  have "distinct (map fst (cfg_preds g t))"
    using assms(1) by (simp add: cfg_of_def strict_sorted_iff)
  moreover have "i = j" if "(i, p) \<in> set (cfg_preds g t)" "(j, p) \<in> set (cfg_preds g t)" for i j p
    using that assms(1) by (auto simp: cfg_of_def)
  ultimately show ?thesis
    by (auto simp: pred_iter_def distinct_map inj_on_def)
qed

lemma succ_pred_iter:
  "cfg_of f bs g \<Longrightarrow> p \<in> fst ` set (pred_iter g t) \<longleftrightarrow> t \<in> set (succ_iter g p)"
proof -
  assume g: "cfg_of f bs g"
  have "\<exists>i. last_inst (fn_layout f) p = Some i" if "t \<in> set (targets f p)"
    using that by (auto simp: targets_def visit_block_succs_def split: option.splits)
  then show "p \<in> fst ` set (pred_iter g t) \<longleftrightarrow> t \<in> set (succ_iter g p)"
    using pred_iter_iff [OF g, of p _ t] succ_iter_iff [OF g, of t p] by (force simp: image_iff)
qed

end
