(* ===== verification/Dominance.thy ===== *)
theory Dominance
  imports Clir_Prelude
begin

text \<open>
  Dominance in rooted directed graphs, the contract the code generator relies on: a block
  dominates another when every walk from the entry to the second goes through the first. The
  locale \<open>rooted_graphs\<close> is the interface (a family of finite graphs with an entry); it is
  interpreted on the control flow graphs of functions in theory \<open>Dominators\<close>.
\<close>

subsection \<open>Walks\<close>

inductive walk :: "('n \<times> 'n) set \<Rightarrow> 'n \<Rightarrow> 'n list \<Rightarrow> 'n \<Rightarrow> bool" for E u where
  walk_start: "walk E u [u] u"
| walk_step: "walk E u xs v \<Longrightarrow> (v, w) \<in> E \<Longrightarrow> walk E u (xs @ [w]) w"

definition dominates :: "('n \<times> 'n) set \<Rightarrow> 'n \<Rightarrow> 'n \<Rightarrow> 'n \<Rightarrow> bool" where
  "dominates E u d n \<longleftrightarrow> (\<forall>xs. walk E u xs n \<longrightarrow> d \<in> set xs)"

lemma walk_ends: "walk E u xs v \<Longrightarrow> xs \<noteq> [] \<and> hd xs = u \<and> last xs = v"
  by (induction rule: walk.induct) auto

lemma walk_last_in: "walk E u xs v \<Longrightarrow> v \<in> set xs"
  using walk_ends by (metis last_in_set)

lemma walk_first_in: "walk E u xs v \<Longrightarrow> u \<in> set xs"
  using walk_ends by (metis hd_in_set)

lemma walk_rtrancl: "walk E u xs v \<Longrightarrow> (u, v) \<in> E\<^sup>*"
  by (induction rule: walk.induct) (auto intro: rtrancl_into_rtrancl)

lemma rtrancl_walk: "(u, v) \<in> E\<^sup>* \<Longrightarrow> \<exists>xs. walk E u xs v"
  by (induction rule: rtrancl_induct) (auto intro: walk.intros)

lemma reachable_iff_walk: "(u, v) \<in> E\<^sup>* \<longleftrightarrow> (\<exists>xs. walk E u xs v)"
  using walk_rtrancl rtrancl_walk by metis

lemma walk_prefix: "walk E u (xs @ v # ys) w \<Longrightarrow> walk E u (xs @ [v]) v"
proof (induction "xs @ v # ys" w arbitrary: ys rule: walk.induct)
  case walk_start
  then show ?case by (cases xs) (auto intro: walk.walk_start)
next
  case (walk_step zs x w)
  show ?case
  proof (cases ys rule: rev_cases)
    case Nil
    with walk_step show ?thesis by (auto intro: walk.walk_step)
  next
    case (snoc ys' y)
    with walk_step.hyps(4) have "zs = xs @ v # ys'" by simp
    then show ?thesis by (rule walk_step.hyps(2))
  qed
qed

lemma dominates_refl [simp]: "dominates E u n n"
  by (simp add: dominates_def walk_last_in)

lemma dominates_entry [simp]: "dominates E u u n"
  by (simp add: dominates_def walk_first_in)

lemma dominates_trans:
  assumes "dominates E u a b" and "dominates E u b c"
  shows "dominates E u a c"
  unfolding dominates_def
proof (intro allI impI)
  fix xs assume xs: "walk E u xs c"
  with assms(2) obtain ys zs where split: "xs = ys @ b # zs"
    unfolding dominates_def by (metis split_list)
  then have "walk E u (ys @ [b]) b" using xs walk_prefix by metis
  then have "a \<in> set (ys @ [b])" using assms(1) by (simp only: dominates_def)
  with split show "a \<in> set xs" by auto
qed

text \<open>A dominator other than the block itself dominates each of its predecessors.\<close>

lemma dominates_pred: "dominates E u d n \<Longrightarrow> d \<noteq> n \<Longrightarrow> (p, n) \<in> E \<Longrightarrow> dominates E u d p"
  unfolding dominates_def by (metis walk_step in_set_conv_decomp rotate1.simps(2) set_ConsD set_rotate1)

lemma dominates_entry_only: "dominates E u d u \<longleftrightarrow> d = u"
  unfolding dominates_def by (metis dominates_def dominates_refl empty_iff empty_set set_ConsD walk_start)

lemma dominates_unreachable: "(u, n) \<notin> E\<^sup>* \<Longrightarrow> dominates E u d n"
  by (auto simp: dominates_def dest: walk_rtrancl)

lemma dominates_reachable:
  assumes "dominates E u d n" and "(u, n) \<in> E\<^sup>*"
  shows "(u, d) \<in> E\<^sup>*"
proof -
  obtain xs where xs: "walk E u xs n" using rtrancl_walk [OF assms(2)] by blast
  then obtain ys zs where "xs = ys @ d # zs"
    using assms(1) unfolding dominates_def by (metis split_list)
  with xs show ?thesis using walk_prefix walk_rtrancl by metis
qed

subsection \<open>The data flow equations\<close>

locale rooted_graphs =
  fixes wf :: "'g \<Rightarrow> bool"
    and nodes :: "'g \<Rightarrow> 'n set"
    and edges :: "'g \<Rightarrow> ('n \<times> 'n) set"
    and entry :: "'g \<Rightarrow> 'n"
  assumes finite_nodes: "wf g \<Longrightarrow> finite (nodes g)"
    and entry_in: "wf g \<Longrightarrow> entry g \<in> nodes g"
    and edges_in: "wf g \<Longrightarrow> edges g \<subseteq> nodes g \<times> nodes g"
begin

definition dom_set :: "'g \<Rightarrow> 'n \<Rightarrow> 'n set" where
  "dom_set g n = {d \<in> nodes g. dominates (edges g) (entry g) d n}"

definition dom_eqn :: "'g \<Rightarrow> ('n \<Rightarrow> 'n set) \<Rightarrow> 'n \<Rightarrow> 'n set" where
  "dom_eqn g D n = insert n {d \<in> nodes g. \<forall>p. (p, n) \<in> edges g \<longrightarrow> d \<in> D p}"

lemma dom_eqn_mono:
  assumes "wf g" and "\<And>p. p \<in> nodes g \<Longrightarrow> D p \<subseteq> D' p"
  shows "dom_eqn g D n \<subseteq> dom_eqn g D' n"
  using assms edges_in unfolding dom_eqn_def by blast

text \<open>The sets of dominators satisfy the equations from above.\<close>

lemma dom_set_eqn: "wf g \<Longrightarrow> n \<in> nodes g \<Longrightarrow> dom_set g n \<subseteq> dom_eqn g (dom_set g) n"
  by (auto simp: dom_set_def dom_eqn_def dest: dominates_pred)

lemma dom_set_le_eqn:
  assumes "wf g" and "n \<in> nodes g" and "\<And>p. p \<in> nodes g \<Longrightarrow> dom_set g p \<subseteq> D p"
  shows "dom_set g n \<subseteq> dom_eqn g D n"
  using dom_set_eqn [OF assms(1,2)] dom_eqn_mono [OF assms(1), of "dom_set g" D n] assms(3) by blast

text \<open>A solution of the equations is contained in every walk.\<close>

lemma solution_in_walk:
  assumes "D (entry g) = {entry g}"
    and "\<And>n. (entry g, n) \<in> (edges g)\<^sup>* \<Longrightarrow> n \<noteq> entry g \<Longrightarrow> D n = dom_eqn g D n"
    and "walk (edges g) (entry g) xs n"
  shows "D n \<subseteq> set xs"
  using assms(3)
proof (induction rule: walk.induct)
  case walk_start
  with assms(1) show ?case by simp
next
  case (walk_step xs v w)
  show ?case
  proof (cases "w = entry g")
    case False
    have "(entry g, w) \<in> (edges g)\<^sup>*"
      using walk_step.hyps by (meson rtrancl.rtrancl_into_rtrancl walk_rtrancl)
    then have "D w = dom_eqn g D w" using assms(2) False by blast
    with walk_step show ?thesis by (auto simp: dom_eqn_def)
  qed (use assms(1) in simp)
qed

text \<open>Between the dominators and every solution there is no room.\<close>

lemma solution_is_dom_set:
  assumes "wf g"
    and "D (entry g) = {entry g}"
    and "\<And>n. (entry g, n) \<in> (edges g)\<^sup>* \<Longrightarrow> n \<noteq> entry g \<Longrightarrow> D n = dom_eqn g D n"
    and "\<And>n. n \<in> nodes g \<Longrightarrow> dom_set g n \<subseteq> D n \<and> D n \<subseteq> nodes g"
    and "n \<in> nodes g"
  shows "D n = dom_set g n"
proof
  show "D n \<subseteq> dom_set g n"
  proof
    fix d assume d: "d \<in> D n"
    then have "dominates (edges g) (entry g) d n"
      using solution_in_walk [OF assms(2,3)] by (auto simp: dominates_def)
    with d assms(4,5) show "d \<in> dom_set g n" by (auto simp: dom_set_def)
  qed
  show "dom_set g n \<subseteq> D n" using assms(4,5) by blast
qed

lemma entry_dom_set: "wf g \<Longrightarrow> dom_set g (entry g) = {entry g}"
  using entry_in by (auto simp: dom_set_def dominates_entry_only)

end

end
