(* ===== verification/Dominators.thy ===== *)
theory Dominators
  imports Flow_Graph Dominance "HOL-Library.AList"
begin

text \<open>
  The traversals of the control flow graph and the computation of dominators
  (\<open>crates/function-generator/src/dominator_tree.rs\<close> and \<open>dfs\<close> of
  \<open>crates/function-generator/src/lib.rs\<close>). A \<open>HashSet\<close> of blocks is a set, a \<open>HashMap\<close> keyed by
  blocks is an association list with one entry per key.

  The traversals recurse without a bound in the source, so they are \<open>partial_function\<close>s, and the
  loop of \<open>compute_dominators\<close> is a \<open>while_option\<close>: that they return is proved, together with what
  they return.
\<close>

subsection \<open>Depth first traversals\<close>

text \<open>
  \<open>visit g early ns (visited, order)\<close> is the loop over the successors \<open>ns\<close>; a block is added to
  \<open>order\<close> before its successors are visited when \<open>early\<close> (\<open>dfs\<close> of \<open>lib.rs\<close>), and after them
  otherwise (\<open>dfs\<close> inside \<open>reverse_postorder\<close>).
\<close>

partial_function (option) visit :: "cfg \<Rightarrow> bool \<Rightarrow> block list \<Rightarrow> block set \<times> block list \<Rightarrow> (block set \<times> block list) option" where
  [code]: "visit g early ns s = (case ns of
      [] \<Rightarrow> Some s
    | n # ns' \<Rightarrow>
        (if n \<in> fst s then visit g early ns' s
         else do {
           s1 \<leftarrow> visit g early (succ_iter g n) (insert n (fst s), if early then snd s @ [n] else snd s);
           visit g early ns' (fst s1, if early then snd s1 else snd s1 @ [n])
         }))"

definition dfs :: "cfg \<Rightarrow> block \<Rightarrow> block list option" where
  "dfs g node = map_option snd (visit g True [node] ({}, []))"

definition reverse_postorder :: "cfg \<Rightarrow> block \<Rightarrow> block list option" where
  "reverse_postorder g start_node = map_option (rev \<circ> snd) (visit g False [start_node] ({}, []))"

subsection \<open>The dominator computation\<close>

type_synonym dom_map = "(block \<times> block set) list"

definition dom_init :: "block list \<Rightarrow> block \<Rightarrow> dom_map" where
  "dom_init bs start_node =
     map (\<lambda>b. (b, if b = start_node then {start_node} else set bs)) bs"

definition dom_new :: "cfg \<Rightarrow> block set \<Rightarrow> dom_map \<Rightarrow> block \<Rightarrow> block set" where
  "dom_new g nodes doms node =
     insert node (fold (\<lambda>p s. case map_of doms p of Some pd \<Rightarrow> s \<inter> pd | None \<Rightarrow> s)
       (map fst (pred_iter g node)) nodes)"

definition dom_step :: "cfg \<Rightarrow> block set \<Rightarrow> block \<Rightarrow> block \<Rightarrow> dom_map \<times> bool \<Rightarrow> dom_map \<times> bool" where
  "dom_step g nodes start_node node = (\<lambda>(doms, changed).
     (if node = start_node then (doms, changed)
      else let new_dom = dom_new g nodes doms node in
        (if map_of doms node \<noteq> Some new_dom then (AList.update node new_dom doms, True)
         else (doms, changed))))"

definition dom_pass :: "cfg \<Rightarrow> block set \<Rightarrow> block \<Rightarrow> block list \<Rightarrow> dom_map \<Rightarrow> dom_map \<times> bool" where
  "dom_pass g nodes start_node rpo doms = fold (dom_step g nodes start_node) rpo (doms, False)"

definition compute_dominators :: "func \<Rightarrow> dom_map option" where
  "compute_dominators f = do {
     g \<leftarrow> with_function f;
     start_node \<leftarrow> entry_block (fn_layout f);
     let bs = lo_blocks (fn_layout f);
     rpo \<leftarrow> reverse_postorder g start_node;
     (doms, _) \<leftarrow> while_option (\<lambda>(doms, changed). changed)
                    (\<lambda>(doms, changed). dom_pass g (set bs) start_node rpo doms)
                    (dom_init bs start_node, True);
     Some doms
   }"

subsection \<open>The traversals visit what is reachable\<close>

lemma visit_Nil [simp]: "visit g e [] s = Some s"
  by (subst visit.simps) simp

lemma visit_Cons:
  "visit g e (n # ns) s =
     (if n \<in> fst s then visit g e ns s
      else do {
        s1 \<leftarrow> visit g e (succ_iter g n) (insert n (fst s), if e then snd s @ [n] else snd s);
        visit g e ns (fst s1, if e then snd s1 else snd s1 @ [n])
      })"
  by (subst visit.simps) simp

definition succ_rel :: "cfg \<Rightarrow> (block \<times> block) set" where
  "succ_rel g = {(b, t). t \<in> set (succ_iter g b)}"

text \<open>
  What a traversal adds: the new blocks were not visited before, come once each, are reachable from
  the list, and the visited set is closed under successors of the new blocks.
\<close>

definition visit_adds :: "cfg \<Rightarrow> block list \<Rightarrow> block set \<Rightarrow> block set \<Rightarrow> block list \<Rightarrow> bool" where
  "visit_adds g ns vis vis' new \<longleftrightarrow>
     vis' = vis \<union> set new \<and> distinct new \<and> set new \<inter> vis = {} \<and> set ns \<subseteq> vis' \<and>
     set new \<subseteq> (succ_rel g)\<^sup>* `` set ns \<and> (\<forall>x \<in> set new. set (succ_iter g x) \<subseteq> vis')"

lemma visit_adds_Cons:
  assumes "n \<notin> vis" and "visit_adds g (succ_iter g n) (insert n vis) v1 new1"
    and "visit_adds g ns v1 v2 new2"
    and new: "set new = insert n (set new1 \<union> set new2)" "distinct new \<longleftrightarrow> distinct (n # new1 @ new2)"
  shows "visit_adds g (n # ns) vis v2 new"
proof -
  have step: "(n, y) \<in> (succ_rel g)\<^sup>*" if "x \<in> set (succ_iter g n)" "(x, y) \<in> (succ_rel g)\<^sup>*" for x y
    using that by (auto simp: succ_rel_def intro: converse_rtrancl_into_rtrancl)
  have "set new1 \<subseteq> (succ_rel g)\<^sup>* `` {n}"
    using assms(2) step unfolding visit_adds_def by blast
  moreover have "set new2 \<subseteq> (succ_rel g)\<^sup>* `` set ns"
    using assms(3) unfolding visit_adds_def by blast
  ultimately have "set new \<subseteq> (succ_rel g)\<^sup>* `` set (n # ns)"
    unfolding new(1) by auto
  moreover have "distinct new"
    using assms(1,2,3) unfolding visit_adds_def new(2) by auto
  moreover have "v2 = vis \<union> set new" "set new \<inter> vis = {}" "set (n # ns) \<subseteq> v2"
    using assms(1,2,3) unfolding visit_adds_def new(1) by auto
  moreover have "set (succ_iter g x) \<subseteq> v2" if "x \<in> set new" for x
    using that assms(2,3) unfolding visit_adds_def new(1) by blast
  ultimately show ?thesis
    unfolding visit_adds_def by blast
qed

lemma visit_adds_skip: "n \<in> vis \<Longrightarrow> visit_adds g ns vis v new \<Longrightarrow> visit_adds g (n # ns) vis v new"
  unfolding visit_adds_def by (simp, blast)

lemma visit_correct:
  assumes U: "finite U" "\<And>x. x \<in> U \<Longrightarrow> set (succ_iter g x) \<subseteq> U" and "set ns \<subseteq> U"
  shows "\<exists>vis' new. visit g e ns (vis, order) = Some (vis', order @ new) \<and> visit_adds g ns vis vis' new"
  using assms(3)
proof (induction "card (U - vis)" arbitrary: vis order ns rule: less_induct)
  case (less vis)
  have smaller: "card (U - v) < card (U - vis)" if "insert n vis \<subseteq> v" "n \<in> U" "n \<notin> vis" for v n
    using that U(1) by (intro psubset_card_mono) auto
  from less.prems show ?case
  proof (induction ns arbitrary: order)
    case Nil
    show ?case by (rule exI [of _ vis], rule exI [of _ "[]"]) (simp add: visit_adds_def)
  next
    case (Cons n ns)
    then have n: "n \<in> U" and ns: "set ns \<subseteq> U" by auto
    show ?case
    proof (cases "n \<in> vis")
      case True
      with Cons.IH [OF ns, of order] show ?thesis
        by (auto simp: visit_Cons intro: visit_adds_skip)
    next
      case False
      let ?o = "if e then order @ [n] else order"
      from less.hyps [OF smaller [OF order_refl n False] U(2) [OF n], of ?o]
      obtain v1 new1 where 1: "visit g e (succ_iter g n) (insert n vis, ?o) = Some (v1, ?o @ new1)"
        and a1: "visit_adds g (succ_iter g n) (insert n vis) v1 new1" by blast
      have "insert n vis \<subseteq> v1" using a1 by (auto simp: visit_adds_def)
      let ?o2 = "if e then ?o @ new1 else ?o @ new1 @ [n]"
      from less.hyps [OF smaller [OF \<open>insert n vis \<subseteq> v1\<close> n False] ns, of ?o2]
      obtain v2 new2 where 2: "visit g e ns (v1, ?o2) = Some (v2, ?o2 @ new2)"
        and a2: "visit_adds g ns v1 v2 new2" by blast
      let ?new = "if e then n # new1 @ new2 else new1 @ n # new2"
      have "visit_adds g (n # ns) vis v2 ?new"
        by (rule visit_adds_Cons [OF False a1 a2]) auto
      moreover have "visit g e (n # ns) (vis, order) = Some (v2, order @ ?new)"
        using False 1 2 by (auto simp: visit_Cons)
      ultimately show ?thesis by blast
    qed
  qed
qed

lemma visit_from_correct:
  assumes "finite U" and "\<And>x. x \<in> U \<Longrightarrow> set (succ_iter g x) \<subseteq> U" and "n \<in> U"
  shows "\<exists>order. visit g e [n] ({}, []) = Some (set order, order) \<and>
    distinct order \<and> set order = (succ_rel g)\<^sup>* `` {n}"
proof -
  from visit_correct [OF assms(1,2), of "[n]" e "{}" "[]"] assms(3)
  obtain vis order where v: "visit g e [n] ({}, []) = Some (vis, order)" and a: "visit_adds g [n] {} vis order"
    by auto
  have "y \<in> set order" if "(n, y) \<in> (succ_rel g)\<^sup>*" for y
    using that by (rule rtrancl_closed) (use a in \<open>auto simp: visit_adds_def succ_rel_def\<close>)
  with a have "set order = (succ_rel g)\<^sup>* `` {n}" by (auto simp: visit_adds_def)
  with a v show ?thesis by (auto simp: visit_adds_def)
qed

subsection \<open>Control flow graphs as rooted graphs\<close>

definition flow_nodes :: "func \<Rightarrow> block set" where
  "flow_nodes f = set (lo_blocks (fn_layout f))"

definition flow_entry :: "func \<Rightarrow> block" where
  "flow_entry f = hd (lo_blocks (fn_layout f))"

definition wf_flow :: "func \<Rightarrow> bool" where
  "wf_flow f \<longleftrightarrow> flow_ok f \<and> lo_blocks (fn_layout f) \<noteq> [] \<and>
     list_all (\<lambda>b. set (targets f b) \<subseteq> flow_nodes f) (lo_blocks (fn_layout f))"

interpretation flow: rooted_graphs wf_flow flow_nodes flow_edges flow_entry
proof unfold_locales
  fix f
  show "finite (flow_nodes f)" by (simp add: flow_nodes_def)
  assume "wf_flow f"
  then show "flow_entry f \<in> flow_nodes f" and "flow_edges f \<subseteq> flow_nodes f \<times> flow_nodes f"
    by (auto simp: wf_flow_def flow_entry_def flow_nodes_def flow_edges_def list_all_iff)
qed

lemma entry_block_flow: "wf_flow f \<Longrightarrow> entry_block (fn_layout f) = Some (flow_entry f)"
  by (auto simp: wf_flow_def entry_block_def flow_entry_def split: list.splits)

lemma succ_rel_flow: "cfg_of f (flow_nodes f) g \<Longrightarrow> succ_rel g = flow_edges f"
  by (auto simp: succ_rel_def flow_edges_def flow_nodes_def succ_iter_iff)

lemma with_function_flow: "wf_flow f \<Longrightarrow> \<exists>g. with_function f = Some g \<and> cfg_of f (flow_nodes f) g"
  unfolding wf_flow_def flow_nodes_def using with_function_correct by blast

lemma visit_flow:
  assumes "wf_flow f" and "cfg_of f (flow_nodes f) g"
  shows "\<exists>order. visit g e [flow_entry f] ({}, []) = Some (set order, order) \<and>
    distinct order \<and> set order = (flow_edges f)\<^sup>* `` {flow_entry f}"
proof -
  have "set (succ_iter g b) \<subseteq> flow_nodes f" for b
    using succ_rel_flow [OF assms(2)] flow.edges_in [OF assms(1)] by (auto simp: succ_rel_def)
  then show ?thesis
    using visit_from_correct [OF flow.finite_nodes [OF assms(1)] _ flow.entry_in [OF assms(1)], of g e]
      succ_rel_flow [OF assms(2)] by simp
qed

lemma reachable_nodes:
  assumes "wf_flow f" and "(flow_entry f, b) \<in> (flow_edges f)\<^sup>*"
  shows "b \<in> flow_nodes f"
  using assms(2) by (rule rtrancl_closed) (use flow.entry_in flow.edges_in assms(1) in auto)

subsection \<open>The loop computes the dominators\<close>

definition dom_at :: "dom_map \<Rightarrow> block \<Rightarrow> block set" where
  "dom_at doms b = (case map_of doms b of Some s \<Rightarrow> s | None \<Rightarrow> {})"

definition dom_inv :: "func \<Rightarrow> dom_map \<Rightarrow> bool" where
  "dom_inv f doms \<longleftrightarrow>
     map fst doms = lo_blocks (fn_layout f) \<and> dom_at doms (flow_entry f) = {flow_entry f} \<and>
     (\<forall>n \<in> flow_nodes f. flow.dom_set f n \<subseteq> dom_at doms n \<and> dom_at doms n \<subseteq> flow_nodes f \<and>
        (n \<noteq> flow_entry f \<longrightarrow> flow.dom_eqn f (dom_at doms) n \<subseteq> dom_at doms n))"

definition dom_size :: "func \<Rightarrow> dom_map \<Rightarrow> nat" where
  "dom_size f doms = (\<Sum>n\<in>flow_nodes f. card (dom_at doms n))"

lemma map_of_dom_at: "b \<in> fst ` set doms \<Longrightarrow> map_of doms b = Some (dom_at doms b)"
  by (auto simp: dom_at_def weak_map_of_SomeI split: option.splits dest: map_of_eq_None_iff [THEN iffD1])

lemma dom_inv_keys: "dom_inv f doms \<Longrightarrow> fst ` set doms = flow_nodes f"
  unfolding dom_inv_def flow_nodes_def by (metis set_map)

lemma fold_Int:
  "(\<And>p. p \<in> set ps \<Longrightarrow> map_of doms p = Some (D p)) \<Longrightarrow>
     fold (\<lambda>p s. case map_of doms p of Some pd \<Rightarrow> s \<inter> pd | None \<Rightarrow> s) ps s0 = {d \<in> s0. \<forall>p \<in> set ps. d \<in> D p}"
  by (induction ps arbitrary: s0) auto

lemma dom_new_eqn:
  assumes "cfg_of f (flow_nodes f) g" and "dom_inv f doms"
  shows "dom_new g (flow_nodes f) doms n = flow.dom_eqn f (dom_at doms) n"
proof -
  have preds: "p \<in> set (map fst (pred_iter g n)) \<longleftrightarrow> (p, n) \<in> flow_edges f" for p
    using succ_pred_iter [OF assms(1), of p n] succ_rel_flow [OF assms(1)] by (auto simp: succ_rel_def)
  then have "map_of doms p = Some (dom_at doms p)" if "p \<in> set (map fst (pred_iter g n))" for p
    using that dom_inv_keys [OF assms(2)] by (auto simp: flow_edges_def flow_nodes_def intro: map_of_dom_at)
  from fold_Int [of "map fst (pred_iter g n)", OF this] preds show ?thesis
    by (simp add: dom_new_def flow.dom_eqn_def Ball_def del: set_map)
qed

lemma dom_at_update [simp]: "dom_at (AList.update n s doms) = (dom_at doms)(n := s)"
  by (rule ext) (auto simp: dom_at_def update_conv)

lemma dom_step_shrinks:
  assumes "wf_flow f" and "dom_inv f doms" and n: "n \<in> flow_nodes f" "n \<noteq> flow_entry f"
    and "dom_at doms n \<noteq> flow.dom_eqn f (dom_at doms) n" (is "_ \<noteq> ?new")
  shows "dom_inv f (AList.update n ?new doms)" and "dom_size f (AList.update n ?new doms) < dom_size f doms"
proof -
  let ?D = "dom_at doms" and ?D' = "(dom_at doms)(n := ?new)"
  have sub: "?new \<subseteq> ?D n" and fin: "finite (?D b)" if "b \<in> flow_nodes f" for b
    using assms(2) n that flow.finite_nodes [OF assms(1)]
    by (auto simp: dom_inv_def dest: finite_subset)
  have le: "?D' b \<subseteq> ?D b" for b using sub n by auto
  have eqn: "flow.dom_eqn f ?D' b \<subseteq> flow.dom_eqn f ?D b" for b
    using flow.dom_eqn_mono [OF assms(1)] le by blast
  have "flow.dom_set f n \<subseteq> ?new"
    by (rule flow.dom_set_le_eqn [OF assms(1) n(1)]) (use assms(2) in \<open>auto simp: dom_inv_def\<close>)
  moreover have "map fst (AList.update n ?new doms) = map fst doms"
    using n dom_inv_keys [OF assms(2)] by (simp add: update_keys)
  moreover have "flow.dom_set f b \<subseteq> ?D' b \<and> ?D' b \<subseteq> flow_nodes f \<and>
      (b \<noteq> flow_entry f \<longrightarrow> flow.dom_eqn f ?D' b \<subseteq> ?D' b)" if "b \<in> flow_nodes f" for b
  proof (cases "b = n")
    case True
    have "?new \<subseteq> flow_nodes f" using n by (auto simp: flow.dom_eqn_def)
    with True show ?thesis using calculation eqn [of n] by simp
  next
    case False
    have "flow.dom_set f b \<subseteq> ?D b" "?D b \<subseteq> flow_nodes f"
      "b \<noteq> flow_entry f \<longrightarrow> flow.dom_eqn f ?D b \<subseteq> ?D b"
      using assms(2) that unfolding dom_inv_def by blast+
    with False eqn [of b] show ?thesis by (simp, blast)
  qed
  ultimately show "dom_inv f (AList.update n ?new doms)"
    using assms(2) n unfolding dom_inv_def dom_at_update by simp
  have "card (?D' n) < card (?D n)"
    using sub [OF n(1)] assms(5) fin [OF n(1)] by (auto intro: psubset_card_mono)
  then show "dom_size f (AList.update n ?new doms) < dom_size f doms"
    unfolding dom_size_def dom_at_update
    by (intro sum_strict_mono_ex1) (use le fin flow.finite_nodes [OF assms(1)] n in \<open>auto intro: card_mono\<close>)
qed

definition dom_solved :: "func \<Rightarrow> dom_map \<Rightarrow> block \<Rightarrow> bool" where
  "dom_solved f doms n \<longleftrightarrow> n = flow_entry f \<or> dom_at doms n = flow.dom_eqn f (dom_at doms) n"

lemma dom_step_cases:
  assumes "wf_flow f" and g: "cfg_of f (flow_nodes f) g" and inv: "dom_inv f doms" and n: "n \<in> flow_nodes f"
    and step: "dom_step g (flow_nodes f) (flow_entry f) n (doms, c) = (doms', c')"
  shows "dom_inv f doms' \<and>
    (doms' = doms \<and> c' = c \<and> dom_solved f doms n \<or> c' \<and> dom_size f doms' < dom_size f doms)"
proof (cases "dom_solved f doms n")
  case True
  then have "doms' = doms \<and> c' = c"
    using step dom_new_eqn [OF g inv] map_of_dom_at [of n doms] dom_inv_keys [OF inv] n
    by (auto simp: dom_step_def dom_solved_def Let_def split: if_splits)
  with True inv show ?thesis by simp
next
  case False
  let ?new = "flow.dom_eqn f (dom_at doms) n"
  have ne: "n \<noteq> flow_entry f" "dom_at doms n \<noteq> ?new" using False by (auto simp: dom_solved_def)
  then have "doms' = AList.update n ?new doms \<and> c'"
    using step dom_new_eqn [OF g inv] map_of_dom_at [of n doms] dom_inv_keys [OF inv] n
    by (auto simp: dom_step_def Let_def split: if_splits)
  with dom_step_shrinks [OF assms(1) inv n ne] show ?thesis by simp
qed

lemma dom_fold_cases:
  assumes "wf_flow f" and "cfg_of f (flow_nodes f) g" and "dom_inv f doms" and "set ns \<subseteq> flow_nodes f"
    and "fold (dom_step g (flow_nodes f) (flow_entry f)) ns (doms, c) = (doms', c')"
  shows "dom_inv f doms' \<and>
    (doms' = doms \<and> c' = c \<and> list_all (dom_solved f doms) ns \<or> c' \<and> dom_size f doms' < dom_size f doms)"
  using assms(3-5)
proof (induction ns arbitrary: doms c)
  case (Cons n ns)
  obtain d1 c1 where s: "dom_step g (flow_nodes f) (flow_entry f) n (doms, c) = (d1, c1)" by force
  from Cons.prems have n: "n \<in> flow_nodes f" "set ns \<subseteq> flow_nodes f" by auto
  from dom_step_cases [OF assms(1,2) Cons.prems(1) n(1) s] have d1: "dom_inv f d1"
    and alt: "d1 = doms \<and> c1 = c \<and> dom_solved f doms n \<or> c1 \<and> dom_size f d1 < dom_size f doms" by auto
  have "fold (dom_step g (flow_nodes f) (flow_entry f)) ns (d1, c1) = (doms', c')"
    using Cons.prems(3) s by simp
  from Cons.IH [OF d1 n(2) this] alt show ?case by auto
qed simp

lemma dom_init_inv: "wf_flow f \<Longrightarrow> dom_inv f (dom_init (lo_blocks (fn_layout f)) (flow_entry f))"
proof -
  assume wf: "wf_flow f"
  let ?d = "dom_init (lo_blocks (fn_layout f)) (flow_entry f)"
  have at: "dom_at ?d b = (if b = flow_entry f then {flow_entry f} else flow_nodes f)"
    if "b \<in> flow_nodes f" for b
    using that by (auto simp: dom_at_def dom_init_def map_of_map_restrict flow_nodes_def)
  have "map fst ?d = lo_blocks (fn_layout f)" by (simp add: dom_init_def comp_def)
  moreover have "flow.dom_set f n \<subseteq> dom_at ?d n \<and> dom_at ?d n \<subseteq> flow_nodes f \<and>
      (n \<noteq> flow_entry f \<longrightarrow> flow.dom_eqn f (dom_at ?d) n \<subseteq> dom_at ?d n)" if "n \<in> flow_nodes f" for n
    using that at flow.entry_dom_set [OF wf] flow.entry_in [OF wf]
    by (auto simp: flow.dom_set_def flow.dom_eqn_def)
  ultimately show ?thesis
    using at [OF flow.entry_in [OF wf]] unfolding dom_inv_def by simp
qed

lemma dom_loop:
  assumes "wf_flow f" and "cfg_of f (flow_nodes f) g" and "set rpo \<subseteq> flow_nodes f"
  shows "\<exists>doms. while_option (\<lambda>(doms, changed). changed)
      (\<lambda>(doms, changed). dom_pass g (flow_nodes f) (flow_entry f) rpo doms)
      (dom_init (lo_blocks (fn_layout f)) (flow_entry f), True) = Some (doms, False) \<and>
    dom_inv f doms \<and> list_all (dom_solved f doms) rpo"
proof -
  define b where "b = (\<lambda>(doms :: dom_map, changed :: bool). changed)"
  define c where "c = (\<lambda>(doms, changed :: bool). dom_pass g (flow_nodes f) (flow_entry f) rpo doms)"
  define P where "P = (\<lambda>(doms, changed). dom_inv f doms \<and> (\<not> changed \<longrightarrow> list_all (dom_solved f doms) rpo))"
  define m where "m = (\<lambda>(doms, changed). 2 * dom_size f doms + (if changed then 1 else 0))"
  define s0 where "s0 = (dom_init (lo_blocks (fn_layout f)) (flow_entry f), True)"
  have step: "P (c s) \<and> m (c s) < m s" if Ps: "P s" and bs: "b s" for s
  proof -
    obtain doms where s: "s = (doms, True)" using bs by (cases s) (auto simp: b_def)
    obtain doms' c' where pass: "fold (dom_step g (flow_nodes f) (flow_entry f)) rpo (doms, False) = (doms', c')"
      by force
    have "dom_inv f doms" using Ps s by (simp add: P_def)
    from dom_fold_cases [OF assms(1,2) this assms(3) pass] show ?thesis
      using s pass by (auto simp: dom_pass_def P_def c_def m_def)
  qed
  have init: "P s0"
    using dom_init_inv [OF assms(1)] by (simp add: P_def s0_def)
  obtain t where t: "while_option b c s0 = Some t"
    using measure_while_option_Some [of P b c m s0, OF step init] by blast
  have "P t"
    using while_option_rule [of P b c s0 t, OF _ t init] step by blast
  moreover have "\<not> b t" using while_option_stop [OF t] .
  ultimately show ?thesis
    using t by (cases t) (auto simp: b_def c_def s0_def P_def)
qed

lemma reverse_postorder_flow:
  assumes "wf_flow f" and "cfg_of f (flow_nodes f) g"
  shows "\<exists>rpo. reverse_postorder g (flow_entry f) = Some rpo \<and> distinct rpo \<and>
    set rpo = (flow_edges f)\<^sup>* `` {flow_entry f}"
  using visit_flow [OF assms, of False] by (auto simp: reverse_postorder_def)

lemma dfs_flow:
  assumes "wf_flow f" and "cfg_of f (flow_nodes f) g"
  shows "\<exists>order. dfs g (flow_entry f) = Some order \<and> distinct order \<and>
    set order = (flow_edges f)\<^sup>* `` {flow_entry f}"
  using visit_flow [OF assms, of True] by (auto simp: dfs_def)

lemma compute_dominators_flow:
  assumes "wf_flow f"
  shows "\<exists>doms. compute_dominators f = Some doms \<and> map fst doms = lo_blocks (fn_layout f) \<and>
    (\<forall>n \<in> flow_nodes f. map_of doms n = Some (flow.dom_set f n))"
proof -
  obtain g where g: "with_function f = Some g" "cfg_of f (flow_nodes f) g"
    using with_function_flow [OF assms] by blast
  obtain rpo where rpo: "reverse_postorder g (flow_entry f) = Some rpo"
    "set rpo = (flow_edges f)\<^sup>* `` {flow_entry f}"
    using reverse_postorder_flow [OF assms g(2)] by blast
  have "set rpo \<subseteq> flow_nodes f" using rpo(2) reachable_nodes [OF assms] by auto
  from dom_loop [OF assms g(2) this] obtain doms where
    loop: "while_option (\<lambda>(doms, changed). changed)
      (\<lambda>(doms, changed). dom_pass g (flow_nodes f) (flow_entry f) rpo doms)
      (dom_init (lo_blocks (fn_layout f)) (flow_entry f), True) = Some (doms, False)"
    and inv: "dom_inv f doms" and solved: "list_all (dom_solved f doms) rpo" by blast
  have "compute_dominators f = Some doms"
    using g(1) rpo(1) loop entry_block_flow [OF assms]
    by (simp add: compute_dominators_def flow_nodes_def)
  moreover have "map_of doms n = Some (flow.dom_set f n)" if n: "n \<in> flow_nodes f" for n
  proof -
    have "dom_at doms n = flow.dom_set f n"
    proof (rule flow.solution_is_dom_set [OF assms _ _ _ n])
      show "dom_at doms (flow_entry f) = {flow_entry f}" using inv by (simp add: dom_inv_def)
      show "dom_at doms m = flow.dom_eqn f (dom_at doms) m"
        if "(flow_entry f, m) \<in> (flow_edges f)\<^sup>*" "m \<noteq> flow_entry f" for m
        using solved rpo(2) that by (auto simp: list_all_iff dom_solved_def)
      show "flow.dom_set f m \<subseteq> dom_at doms m \<and> dom_at doms m \<subseteq> flow_nodes f" if "m \<in> flow_nodes f" for m
        using inv that by (simp add: dom_inv_def)
    qed
    then show ?thesis using map_of_dom_at [of n doms] dom_inv_keys [OF inv] n by simp
  qed
  moreover have "map fst doms = lo_blocks (fn_layout f)" using inv by (simp add: dom_inv_def)
  ultimately show ?thesis by blast
qed

end
