(* ===== verification/Commons_Config.thy ===== *)
theory Commons_Config
  imports Clif_Types
begin

text \<open>
  The crate \<open>commons\<close>: the global generator handle (\<open>crates/commons/src/fixed_rng.rs\<close>) and the
  architecture configurations with their intersection (\<open>crates/commons/src/types.rs\<close>). Reading and
  parsing a configuration file is a parameter of the operations that need it.
\<close>

subsection \<open>The global generator\<close>

text \<open>
  The state of the program's randomness: the thread generator and the global handle, which
  \<open>initialize_rng\<close> sets and \<open>gen_and_print_range\<close> requires. The fixed sequence is stored but only
  \<open>FixedRng::gen_range\<close>, which the program does not call, reads it.
\<close>

record 'r genv =
  rng_state :: 'r
  global_rng :: "nat list option"

definition fixed_rng_new :: "nat list" where
  "fixed_rng_new = [2, 3, 1, 4, 3, 0, 3, 4, 4, 4, 4, 4, 4, 4, 4, 4, 4, 4, 4, 4, 4, 4, 4, 4, 4, 4, 4, 4,
     4, 4, 4]"

definition fixed_rng_gen_range :: "nat list \<Rightarrow> (nat \<times> nat list) option" where
  "fixed_rng_gen_range sq = (case sq of [] \<Rightarrow> None | x # xs \<Rightarrow> Some (x, xs))"

definition initialize_rng :: "'r genv \<Rightarrow> 'r genv" where
  "initialize_rng e = e\<lparr>global_rng := Some fixed_rng_new\<rparr>"

definition gen_and_print_range :: "('r, 'x) rand_scheme \<Rightarrow> nat \<Rightarrow> nat \<Rightarrow> bool \<Rightarrow> 'r genv \<Rightarrow> (nat \<times> 'r genv) option" where
  "gen_and_print_range R start stop is_instrs e = (case global_rng e of
      Some _ \<Rightarrow>
        (if is_instrs then Some (4, e)
         else do {
           (n, r) \<leftarrow> rng_gen_range R start stop (rng_state e);
           Some (n, e\<lparr>rng_state := r\<rparr>)
         })
    | None \<Rightarrow> None)"

text \<open>Draws from \<open>thread_rng()\<close>, threading the same state.\<close>

definition thread_gen_range :: "('r, 'x) rand_scheme \<Rightarrow> nat \<Rightarrow> nat \<Rightarrow> 'r genv \<Rightarrow> (nat \<times> 'r genv) option" where
  "thread_gen_range R lo hi e = do {
     (n, r) \<leftarrow> rng_gen_range R lo hi (rng_state e);
     Some (n, e\<lparr>rng_state := r\<rparr>)
   }"

definition thread_choose :: "('r, 'x) rand_scheme \<Rightarrow> 'a list \<Rightarrow> 'r genv \<Rightarrow> ('a \<times> 'r genv) option" where
  "thread_choose R xs e = do {
     (x, r) \<leftarrow> rng_choose_unwrap R xs (rng_state e);
     Some (x, e\<lparr>rng_state := r\<rparr>)
   }"

definition thread_choose_multiple :: "('r, 'x) rand_scheme \<Rightarrow> 'a list \<Rightarrow> nat \<Rightarrow> 'r genv \<Rightarrow> 'a list \<times> 'r genv" where
  "thread_choose_multiple R xs k e =
     (let (ys, r) = rng_choose_multiple R xs k (rng_state e) in (ys, e\<lparr>rng_state := r\<rparr>))"

definition rng_ready :: "'r genv \<Rightarrow> bool" where
  "rng_ready e \<longleftrightarrow> global_rng e \<noteq> None"

lemma rng_ready_initialize [simp]: "rng_ready (initialize_rng e)"
  by (simp add: rng_ready_def initialize_rng_def)

lemma rng_ready_update [simp]: "rng_ready (e\<lparr>rng_state := r\<rparr>) = rng_ready e"
  by (simp add: rng_ready_def)

lemma gen_and_print_range_ex:
  assumes "rand_ok R" and "rng_ready e" and "a < b"
  shows "\<exists>n e'. gen_and_print_range R a b False e = Some (n, e') \<and> a \<le> n \<and> n < b \<and> rng_ready e'"
  using rng_gen_range_ex [OF assms(1,3), of "rng_state e"] assms(2)
  by (auto simp: gen_and_print_range_def rng_ready_def)

lemma gen_and_print_range_SomeD [option_dest]:
  assumes "gen_and_print_range R a b False e = Some (n, e')" and "rand_ok R"
  shows "a \<le> n \<and> n < b \<and> (rng_ready e \<longrightarrow> rng_ready e')"
  using assms by (auto simp: gen_and_print_range_def bind_eq_Some_conv rng_ready_def split: option.splits
      dest: rng_gen_range_SomeD)

lemma gen_and_print_range_uninitialized: "\<not> rng_ready e \<Longrightarrow> gen_and_print_range R a b i e = None"
  by (simp add: gen_and_print_range_def rng_ready_def)

lemma thread_gen_range_ex:
  assumes "rand_ok R" and "a < b"
  shows "\<exists>n e'. thread_gen_range R a b e = Some (n, e') \<and> a \<le> n \<and> n < b \<and> global_rng e' = global_rng e"
  using rng_gen_range_ex [OF assms, of "rng_state e"] by (auto simp: thread_gen_range_def)

lemma thread_gen_range_SomeD [option_dest]:
  "thread_gen_range R a b e = Some (n, e') \<Longrightarrow> rand_ok R \<Longrightarrow>
     a \<le> n \<and> n < b \<and> global_rng e' = global_rng e"
  by (auto simp: thread_gen_range_def bind_eq_Some_conv dest: rng_gen_range_SomeD)

lemma thread_choose_SomeD [option_dest]:
  "thread_choose R xs e = Some (x, e') \<Longrightarrow> rand_ok R \<Longrightarrow> x \<in> set xs \<and> global_rng e' = global_rng e"
  by (auto simp: thread_choose_def bind_eq_Some_conv dest: rng_choose_unwrap_SomeD)

lemma thread_choose_ex:
  "rand_ok R \<Longrightarrow> xs \<noteq> [] \<Longrightarrow>
     \<exists>x e'. thread_choose R xs e = Some (x, e') \<and> x \<in> set xs \<and> global_rng e' = global_rng e"
  using rng_choose_unwrap_ex [of R xs "rng_state e"] by (auto simp: thread_choose_def)

lemma thread_choose_multiple_props:
  assumes "rand_ok R" and "thread_choose_multiple R xs k e = (ys, e')"
  shows "length ys = min k (length xs)" and "set ys \<subseteq> set xs" and "distinct xs \<Longrightarrow> distinct ys"
    and "global_rng e' = global_rng e"
proof -
  obtain r where r: "rng_choose_multiple R xs k (rng_state e) = (ys, r)" and e': "e' = e\<lparr>rng_state := r\<rparr>"
    using assms(2) by (auto simp: thread_choose_multiple_def split: prod.splits)
  note rng_choose_multiple_props [OF assms(1) r]
  then show "length ys = min k (length xs)" "set ys \<subseteq> set xs" "distinct xs \<Longrightarrow> distinct ys"
    by auto
  show "global_rng e' = global_rng e" using e' by simp
qed

subsection \<open>Configurations\<close>

datatype result_type = RSame | RConditional

datatype operand_type =
    OI8 | OI16 | OI32 | OI64 | OI128 | OF16 | OF32 | OF64
  | OI8x16 | OI16x8 | OI32x4 | OI64x2 | OF16x8 | OF32x4 | OF64x2

fun to_cranelift_type :: "operand_type \<Rightarrow> clif_type" where
  "to_cranelift_type OI8 = I8"
| "to_cranelift_type OI16 = I16"
| "to_cranelift_type OI32 = I32"
| "to_cranelift_type OI64 = I64"
| "to_cranelift_type OI128 = I128"
| "to_cranelift_type OF16 = F16"
| "to_cranelift_type OF32 = F32"
| "to_cranelift_type OF64 = F64"
| "to_cranelift_type OI8x16 = I8X16"
| "to_cranelift_type OI16x8 = I16X8"
| "to_cranelift_type OI32x4 = I32X4"
| "to_cranelift_type OI64x2 = I64X2"
| "to_cranelift_type OF16x8 = F16X8"
| "to_cranelift_type OF32x4 = F32X4"
| "to_cranelift_type OF64x2 = F64X2"

record mode =
  mode_name :: string
  mode_operand_types :: "operand_type list option"
  mode_arg0_types :: "operand_type list option"
  mode_arg1_types :: "operand_type list option"
  mode_result_type :: "result_type option"
  mode_memory :: "bool option"

record instruction =
  instr_name :: string
  instr_modes :: "mode list option"

record arch_config =
  cfg_arch :: string
  cfg_operand_types :: "operand_type list"
  cfg_instructions :: "instruction list"
  cfg_tests :: "string list"
  cfg_config_sets :: "(string \<times> string) list"
  cfg_target :: "string list"
  cfg_instruction_map :: "string \<rightharpoonup> instruction"

text \<open>A \<open>HashSet\<close> built from a vector and turned back into one holds each element once; its order
  is not specified, and the intersection below takes the order of the first vector.\<close>

definition intersect_optional_vec :: "'a list option \<Rightarrow> 'a list option \<Rightarrow> 'a list option" where
  "intersect_optional_vec v1 v2 = (case (v1, v2) of
      (Some xs, Some ys) \<Rightarrow>
        (let zs = filter (\<lambda>x. x \<in> set ys) (remdups xs) in if zs = [] then None else Some zs)
    | _ \<Rightarrow> None)"

text \<open>\<open>Some (Some a)\<close> and \<open>Some None\<close> are the values of \<open>result_type\<close> and \<open>memory\<close>; \<open>None\<close> is the
  early return of \<open>intersect\<close>.\<close>

definition agree :: "'a option \<Rightarrow> 'a option \<Rightarrow> 'a option option" where
  "agree x y = (case (x, y) of
      (Some a, Some b) \<Rightarrow> if a = b then Some (Some a) else None
    | (None, None) \<Rightarrow> Some None
    | _ \<Rightarrow> None)"

definition mode_intersect :: "mode \<Rightarrow> mode \<Rightarrow> mode option" where
  "mode_intersect m1 m2 =
     (if mode_name m1 \<noteq> mode_name m2 then None
      else do {
        r \<leftarrow> agree (mode_result_type m1) (mode_result_type m2);
        mem \<leftarrow> agree (mode_memory m1) (mode_memory m2);
        Some \<lparr>mode_name = mode_name m1,
              mode_operand_types = intersect_optional_vec (mode_operand_types m1) (mode_operand_types m2),
              mode_arg0_types = intersect_optional_vec (mode_arg0_types m1) (mode_arg0_types m2),
              mode_arg1_types = intersect_optional_vec (mode_arg1_types m1) (mode_arg1_types m2),
              mode_result_type = r, mode_memory = mem\<rparr>
      })"

definition build_instruction_map :: "arch_config \<Rightarrow> arch_config" where
  "build_instruction_map c =
     c\<lparr>cfg_instruction_map := map_of (rev (map (\<lambda>i. (instr_name i, i)) (cfg_instructions c)))\<rparr>"

definition modes_intersect :: "mode list \<Rightarrow> mode list \<Rightarrow> mode list" where
  "modes_intersect ms ns = List.map_filter (\<lambda>(m, n). mode_intersect m n) (List.product ms ns)"

definition instr_intersect :: "arch_config \<Rightarrow> instruction \<Rightarrow> instruction" where
  "instr_intersect c i = (case find (\<lambda>j. instr_name j = instr_name i) (cfg_instructions c) of
      Some j \<Rightarrow> i\<lparr>instr_modes := (case (instr_modes i, instr_modes j) of
          (Some ms, Some ns) \<Rightarrow> (let is = modes_intersect ms ns in if is = [] then None else Some is)
        | _ \<Rightarrow> None)\<rparr>
    | None \<Rightarrow> i\<lparr>instr_modes := None\<rparr>)"

definition config_step :: "arch_config \<Rightarrow> arch_config \<Rightarrow> arch_config" where
  "config_step c acc = acc\<lparr>cfg_instructions := map (instr_intersect c) (cfg_instructions acc)\<rparr>"

text \<open>Collecting the parsed configurations stops at the first error.\<close>

fun collect_results :: "('e + 'a) list \<Rightarrow> 'e + 'a list" where
  "collect_results [] = Inr []"
| "collect_results (Inl e # _) = Inl e"
| "collect_results (Inr x # xs) = (case collect_results xs of Inl e \<Rightarrow> Inl e | Inr ys \<Rightarrow> Inr (x # ys))"

definition config_intersection :: "(string \<Rightarrow> string + arch_config) \<Rightarrow> string list \<Rightarrow> (string + arch_config) option" where
  "config_intersection read_config config_paths =
     (case collect_results (map read_config config_paths) of
        Inl e \<Rightarrow> Some (Inl e)
      | Inr [] \<Rightarrow> None
      | Inr (c # cs) \<Rightarrow> Some (Inr (fold config_step cs c)))"

definition load_config :: "(string \<Rightarrow> string + arch_config) \<Rightarrow> string \<Rightarrow> arch_config option" where
  "load_config read_config path = (case read_config path of Inl _ \<Rightarrow> None | Inr c \<Rightarrow> Some c)"

subsection \<open>What the intersection allows\<close>

definition types_le :: "'a list option \<Rightarrow> 'a list option \<Rightarrow> bool" where
  "types_le xs ys = (case xs of
      None \<Rightarrow> True
    | Some l \<Rightarrow> (case ys of None \<Rightarrow> False | Some l' \<Rightarrow> set l \<subseteq> set l'))"

text \<open>\<open>mode_le m n\<close>: every use that \<open>m\<close> permits is one that \<open>n\<close> permits.\<close>

definition mode_le :: "mode \<Rightarrow> mode \<Rightarrow> bool" where
  "mode_le m n \<longleftrightarrow>
     mode_name m = mode_name n \<and> mode_result_type m = mode_result_type n \<and>
     mode_memory m = mode_memory n \<and> types_le (mode_operand_types m) (mode_operand_types n) \<and>
     types_le (mode_arg0_types m) (mode_arg0_types n) \<and> types_le (mode_arg1_types m) (mode_arg1_types n)"

definition mode_allowed :: "arch_config \<Rightarrow> string \<Rightarrow> mode \<Rightarrow> bool" where
  "mode_allowed c nm m \<longleftrightarrow>
     (\<exists>j \<in> set (cfg_instructions c). instr_name j = nm \<and>
        (\<exists>ns. instr_modes j = Some ns \<and> (\<exists>n \<in> set ns. mode_le m n)))"

lemma types_le_refl [simp]: "types_le x x"
  by (simp add: types_le_def split: option.splits)

lemma types_le_trans: "types_le x y \<Longrightarrow> types_le y z \<Longrightarrow> types_le x z"
  by (auto simp: types_le_def split: option.splits)

lemma mode_le_refl [simp]: "mode_le m m"
  by (simp add: mode_le_def)

lemma mode_le_trans: "mode_le l m \<Longrightarrow> mode_le m n \<Longrightarrow> mode_le l n"
  by (auto simp: mode_le_def intro: types_le_trans)

lemma intersect_optional_vec_le:
  "types_le (intersect_optional_vec x y) x" "types_le (intersect_optional_vec x y) y"
  by (auto simp: intersect_optional_vec_def types_le_def Let_def split: option.splits)

lemma intersect_optional_vec_nonempty: "intersect_optional_vec x y \<noteq> Some []"
  by (auto simp: intersect_optional_vec_def Let_def split: option.splits)

lemma agree_Some: "agree x y = Some z \<longleftrightarrow> z = x \<and> x = y"
  by (auto simp: agree_def split: option.splits if_splits)

lemma mode_intersect_le:
  assumes "mode_intersect m n = Some l"
  shows "mode_le l m" and "mode_le l n"
  using assms
  by (auto simp: mode_intersect_def mode_le_def bind_eq_Some_conv agree_Some intersect_optional_vec_le
      split: if_splits)

text \<open>The intersection of two modes is defined when names, results and memory agree, and then it is
  the greatest mode below both.\<close>

lemma mode_intersect_defined:
  "(\<exists>l. mode_intersect m n = Some l) \<longleftrightarrow>
     mode_name m = mode_name n \<and> mode_result_type m = mode_result_type n \<and> mode_memory m = mode_memory n"
  by (auto simp: mode_intersect_def bind_eq_Some_conv agree_Some)

lemma types_le_intersect:
  "types_le k x \<Longrightarrow> types_le k y \<Longrightarrow> k \<noteq> Some [] \<Longrightarrow> types_le k (intersect_optional_vec x y)"
  by (cases k; cases x; cases y)
    (auto simp: types_le_def intersect_optional_vec_def Let_def filter_empty_conv neq_Nil_conv split: option.splits)

lemma mode_intersect_greatest:
  assumes "mode_intersect m n = Some l" and "mode_le k m" and "mode_le k n"
    and "mode_operand_types k \<noteq> Some []" and "mode_arg0_types k \<noteq> Some []" and "mode_arg1_types k \<noteq> Some []"
  shows "mode_le k l"
  using assms
  by (auto simp: mode_intersect_def mode_le_def bind_eq_Some_conv agree_Some types_le_intersect split: if_splits)

lemma set_modes_intersect:
  "set (modes_intersect ms ns) = {l. \<exists>m \<in> set ms. \<exists>n \<in> set ns. mode_intersect m n = Some l}"
proof -
  have "l \<in> set (List.map_filter h xs) \<longleftrightarrow> (\<exists>x \<in> set xs. h x = Some l)"
    for l :: mode and h :: "mode \<times> mode \<Rightarrow> mode option" and xs
    by (induction xs) (auto simp: map_filter_simps split: option.splits)
  then show ?thesis by (simp add: modes_intersect_def set_eq_iff)
qed

lemma instr_name_intersect [simp]: "instr_name (instr_intersect c i) = instr_name i"
  by (simp add: instr_intersect_def split: option.splits)

lemma instr_intersect_modes:
  assumes "instr_modes (instr_intersect c i) = Some ls" and "l \<in> set ls"
  shows "mode_allowed c (instr_name i) l \<and> (\<exists>ms. instr_modes i = Some ms \<and> (\<exists>m \<in> set ms. mode_le l m))"
proof -
  obtain j ms ns where j: "find (\<lambda>j. instr_name j = instr_name i) (cfg_instructions c) = Some j"
    and ms: "instr_modes i = Some ms" and ns: "instr_modes j = Some ns" and ls: "ls = modes_intersect ms ns"
    using assms(1) by (auto simp: instr_intersect_def Let_def split: option.splits if_splits)
  obtain m n where "m \<in> set ms" "n \<in> set ns" "mode_intersect m n = Some l"
    using assms(2) ls set_modes_intersect by auto
  moreover have "j \<in> set (cfg_instructions c)" "instr_name j = instr_name i"
    using j by (auto simp: find_Some_iff)
  ultimately show ?thesis
    using ms ns mode_intersect_le [of m n l] unfolding mode_allowed_def by auto
qed

lemma mode_allowed_mono: "mode_allowed c nm n \<Longrightarrow> mode_le m n \<Longrightarrow> mode_allowed c nm m"
  unfolding mode_allowed_def by (meson mode_le_trans)

lemma mode_allowed_own:
  "i \<in> set (cfg_instructions c) \<Longrightarrow> instr_modes i = Some ms \<Longrightarrow> m \<in> set ms \<Longrightarrow> mode_allowed c (instr_name i) m"
  unfolding mode_allowed_def using mode_le_refl by blast

lemma mode_allowed_step:
  assumes "mode_allowed (config_step c acc) nm m"
  shows "mode_allowed c nm m \<and> mode_allowed acc nm m"
proof -
  obtain i ls l where i: "i \<in> set (cfg_instructions acc)" "nm = instr_name i"
    and l: "instr_modes (instr_intersect c i) = Some ls" "l \<in> set ls" "mode_le m l"
    using assms by (auto simp: mode_allowed_def config_step_def)
  from instr_intersect_modes [OF l(1,2)] obtain ms n where c: "mode_allowed c nm l"
    and n: "instr_modes i = Some ms" "n \<in> set ms" "mode_le l n" unfolding i(2) by blast
  have "mode_allowed acc nm n" unfolding i(2) by (rule mode_allowed_own [OF i(1) n(1,2)])
  with c show ?thesis
    using mode_allowed_mono l(3) mode_le_trans [OF l(3) n(3)] by simp
qed

lemma mode_allowed_fold:
  "mode_allowed (fold config_step cs c) nm m \<Longrightarrow>
     mode_allowed c nm m \<and> (\<forall>d \<in> set cs. mode_allowed d nm m)"
proof (induction cs arbitrary: c)
  case (Cons d cs)
  show ?case
    using Cons.prems Cons.IH [of "config_step d c"] mode_allowed_step [of d c nm m] by simp
qed simp

lemma collect_results_Inr: "collect_results rs = Inr xs \<Longrightarrow> rs = map Inr xs"
  by (induction rs arbitrary: xs rule: collect_results.induct) (auto split: sum.splits)

lemma config_intersection_Inr:
  assumes "config_intersection rc ps = Some (Inr c)"
  shows "\<exists>d ds. map rc ps = map Inr (d # ds) \<and> c = fold config_step ds d"
proof -
  obtain d ds where "collect_results (map rc ps) = Inr (d # ds)" "c = fold config_step ds d"
    using assms by (auto simp: config_intersection_def split: sum.splits list.splits)
  then show ?thesis using collect_results_Inr by blast
qed

lemma config_intersection_allowed:
  assumes "config_intersection rc ps = Some (Inr c)" and "p \<in> set ps" and "rc p = Inr d"
    and "mode_allowed c nm m"
  shows "mode_allowed d nm m"
proof -
  obtain e es where es: "map rc ps = map Inr (e # es)" and c: "c = fold config_step es e"
    using config_intersection_Inr [OF assms(1)] by blast
  have "Inr d \<in> set (map rc ps)" using assms(2,3) by force
  then have "d \<in> set (e # es)" unfolding es by auto
  with mode_allowed_fold [of es e nm m] assms(4) c show ?thesis by auto
qed

text \<open>Only the instructions are intersected: every other field is that of the first configuration.\<close>

lemma config_step_fields:
  "cfg_operand_types (config_step c acc) = cfg_operand_types acc"
  "map instr_name (cfg_instructions (config_step c acc)) = map instr_name (cfg_instructions acc)"
  by (simp_all add: config_step_def comp_def)

lemma config_fold_fields:
  "cfg_operand_types (fold config_step cs c) = cfg_operand_types c"
  "map instr_name (cfg_instructions (fold config_step cs c)) = map instr_name (cfg_instructions c)"
  by (induction cs arbitrary: c) (simp_all add: config_step_fields)

end
