(* ===== verification/Cf_Constructor.thy ===== *)
theory Cf_Constructor
  imports Dominators Commons_Config
begin

text \<open>
  The construction of control flow (\<open>crates/cf-constructor/src/lib.rs\<close>): a function starts with an
  entry and an end block joined by one of four shapes (a sequence, an if-else, a while loop or a
  switch), and then a random block of the shape is replaced by a new shape, up to \<open>MAX_DEPTH\<close> times.
  Replacing redirects the branches into the block to the first block of the new shape
  (\<open>update_predecessor\<close>), moves its own branch to the last block of the new shape and takes the block
  out of the layout (\<open>update_successor\<close>).
\<close>

subsection \<open>Shapes\<close>

datatype block_type =
    BBlock block
  | BSequential "block_type list"
  | BIfElse block_type block_type block_type block_type
  | BWhile block_type block_type block_type
  | BSwitch block_type block_type "block_type list" block_type

text \<open>The accessors panic on anything but a plain block.\<close>

fun as_block :: "block_type \<Rightarrow> block option" where
  "as_block (BBlock b) = Some b"
| "as_block _ = None"

fun get_first_block :: "block_type \<Rightarrow> block option" where
  "get_first_block (BSequential bs) = do { t \<leftarrow> nth_opt bs 0; as_block t }"
| "get_first_block (BIfElse c t e l) = as_block c"
| "get_first_block (BWhile w b e) = as_block w"
| "get_first_block (BSwitch s d cs l) = as_block s"
| "get_first_block (BBlock b) = None"

fun get_last_block :: "block_type \<Rightarrow> block option" where
  "get_last_block (BSequential bs) = do { t \<leftarrow> nth_opt bs (length bs - 1); as_block t }"
| "get_last_block (BIfElse c t e l) = as_block l"
| "get_last_block (BWhile w b e) = as_block e"
| "get_last_block (BSwitch s d cs l) = as_block l"
| "get_last_block (BBlock b) = None"

fun get_random_block :: "('r, 'x) rand_scheme \<Rightarrow> block_type \<Rightarrow> 'r genv \<Rightarrow> (block \<times> 'r genv) option" where
  "get_random_block R (BSequential bs) g = do {
     (i, g) \<leftarrow> gen_and_print_range R 0 (length bs) False g;
     t \<leftarrow> nth_opt bs i;
     b \<leftarrow> as_block t;
     Some (b, g)
   }"
| "get_random_block R (BIfElse c t e l) g = do {
     (i, g) \<leftarrow> gen_and_print_range R 0 2 False g;
     b \<leftarrow> as_block (if i = 1 then t else e);
     Some (b, g)
   }"
| "get_random_block R (BWhile w b e) g = do {
     (i, g) \<leftarrow> gen_and_print_range R 0 3 False g;
     b \<leftarrow> as_block (if i = 0 then w else if i = 1 then b else e);
     Some (b, g)
   }"
| "get_random_block R (BSwitch s d cs l) g = do {
     (i, g) \<leftarrow> gen_and_print_range R 0 3 False g;
     (t, g) \<leftarrow> (if i = 0 then Some (s, g)
                else if i = 1 then Some (d, g)
                else do {
                  (k, g) \<leftarrow> gen_and_print_range R 0 (length cs) False g;
                  t \<leftarrow> nth_opt cs k;
                  Some (t, g)
                });
     b \<leftarrow> as_block t;
     Some (b, g)
   }"
| "get_random_block R (BBlock b) g = None"

definition sequential :: "nat \<Rightarrow> func \<Rightarrow> (block_type \<times> func) option" where
  "sequential block_num f =
     (if block_num = 0 then None
      else do {
        let (bs, f) = make_blocks block_num f;
        cur \<leftarrow> foldM (\<lambda>i cur. do {
                  cur \<leftarrow> cur_insert_block (bs ! i) cur;
                  ins_jump (bs ! Suc i) [] cur
                }) [0..<block_num - 1] (cursor_new f);
        cur \<leftarrow> cur_insert_block (bs ! (block_num - 1)) cur;
        Some (BSequential (map BBlock bs), cur_func cur)
      })"

definition if_else :: "func \<Rightarrow> (block_type \<times> func) option" where
  "if_else f = do {
     let (cond_block, f) = make_block f;
     let (true_block, f) = make_block f;
     let (false_block, f) = make_block f;
     let (last_block, f) = make_block f;
     (cond, f) \<leftarrow> append_block_param cond_block I32 f;
     let cur = cursor_new f;
     cur \<leftarrow> cur_insert_block cond_block cur;
     cur \<leftarrow> ins_brif cond true_block false_block cur;
     cur \<leftarrow> cur_insert_block true_block cur;
     cur \<leftarrow> ins_jump last_block [] cur;
     cur \<leftarrow> cur_insert_block false_block cur;
     cur \<leftarrow> ins_jump last_block [] cur;
     cur \<leftarrow> cur_insert_block last_block cur;
     Some (BIfElse (BBlock cond_block) (BBlock true_block) (BBlock false_block) (BBlock last_block),
           cur_func cur)
   }"

definition while_blocks :: "func \<Rightarrow> (block_type \<times> func) option" where
  "while_blocks f = do {
     let (cond_block, f) = make_block f;
     let (body_block, f) = make_block f;
     let (false_block, f) = make_block f;
     (cond, f) \<leftarrow> append_block_param cond_block I32 f;
     let cur = cursor_new f;
     cur \<leftarrow> cur_insert_block cond_block cur;
     cur \<leftarrow> ins_brif cond body_block false_block cur;
     cur \<leftarrow> cur_insert_block body_block cur;
     cur \<leftarrow> ins_jump cond_block [] cur;
     cur \<leftarrow> cur_insert_block false_block cur;
     Some (BWhile (BBlock cond_block) (BBlock body_block) (BBlock false_block), cur_func cur)
   }"

definition switch_blocks :: "nat \<Rightarrow> func \<Rightarrow> (block_type \<times> func) option" where
  "switch_blocks cases_num f = do {
     let (cond_block, f) = make_block f;
     let (default_block, f) = make_block f;
     let (last_block, f) = make_block f;
     let (case_blocks, f) = make_blocks cases_num f;
     (cond, f) \<leftarrow> append_block_param cond_block I32 f;
     let (jump_table, f) = create_jump_table
           \<lparr>jt_default = BlockCall default_block [], jt_table = map (\<lambda>b. BlockCall b []) case_blocks\<rparr> f;
     let cur = cursor_new f;
     cur \<leftarrow> cur_insert_block cond_block cur;
     cur \<leftarrow> ins_br_table cond jump_table cur;
     cur \<leftarrow> foldM (\<lambda>b cur. do {
               cur \<leftarrow> cur_insert_block b cur;
               ins_jump last_block [] cur
             }) case_blocks cur;
     cur \<leftarrow> cur_insert_block default_block cur;
     cur \<leftarrow> ins_jump last_block [] cur;
     cur \<leftarrow> cur_insert_block last_block cur;
     Some (BSwitch (BBlock cond_block) (BBlock default_block) (map BBlock case_blocks) (BBlock last_block),
           cur_func cur)
   }"

subsection \<open>Replacing a block\<close>

text \<open>The inner option is the result of \<open>get_block_last_control_instr\<close>; the cursor moves to the
  last instruction when there is one.\<close>

definition get_block_last_control_instr :: "block \<Rightarrow> cursor \<Rightarrow> (inst_data option \<times> cursor) option" where
  "get_block_last_control_instr b cur = (case last_inst (cur_layout cur) b of
      None \<Rightarrow> Some (None, cur)
    | Some i \<Rightarrow> do {
        d \<leftarrow> nth_opt (dfg_insts (cur_func cur)) i;
        Some (Some d, cur\<lparr>cur_pos := At i\<rparr>)
      })"

definition set_block :: "block \<Rightarrow> block \<Rightarrow> block_call \<Rightarrow> block_call" where
  "set_block replaced b bc = (if bc_block bc = replaced then BlockCall b (bc_args bc) else bc)"

definition update_predecessor_block :: "block \<Rightarrow> block \<Rightarrow> block \<Rightarrow> cursor \<Rightarrow> cursor option" where
  "update_predecessor_block b replaced pre_block cur = do {
     (last_control_instr, cur) \<leftarrow> get_block_last_control_instr pre_block cur;
     d \<leftarrow> last_control_instr;
     case d of
       Brif arg b1 b2 \<Rightarrow> do {
         cur \<leftarrow> remove_inst cur;
         let true_block = bc_block b1;
         let false_block = bc_block b2;
         if true_block = replaced then ins_brif arg b false_block cur
         else if false_block = replaced then ins_brif arg true_block b cur
         else None
       }
     | BranchTable arg t \<Rightarrow> do {
         jt \<leftarrow> nth_opt (jump_tables (cur_func cur)) t;
         let jt' = \<lparr>jt_default = set_block replaced b (jt_default jt),
                   jt_table = map (set_block replaced b) (jt_table jt)\<rparr>;
         Some (cur\<lparr>cur_func := (cur_func cur)\<lparr>jump_tables := (jump_tables (cur_func cur))[t := jt']\<rparr>\<rparr>)
       }
     | Jump destination \<Rightarrow> do {
         cur \<leftarrow> remove_inst cur;
         ins_jump b [] cur
       }
     | _ \<Rightarrow> None
   }"

definition update_predecessor :: "block \<Rightarrow> block \<Rightarrow> func \<Rightarrow> func option" where
  "update_predecessor b replaced f = do {
     cfg \<leftarrow> with_function f;
     let pre_blocks = map fst (pred_iter cfg replaced);
     cur \<leftarrow> foldM (update_predecessor_block b replaced) pre_blocks (cursor_new f);
     Some (cur_func cur)
   }"

definition update_successor :: "block \<Rightarrow> block \<Rightarrow> func \<Rightarrow> func option" where
  "update_successor b replaced f = do {
     cfg \<leftarrow> with_function f;
     let post_blocks = succ_iter cfg replaced;
     let cur = cursor_new f;
     cur \<leftarrow> (if length post_blocks = 1 then do {
               (d, cur) \<leftarrow> get_block_last_control_instr replaced cur;
               cur \<leftarrow> (case d of Some _ \<Rightarrow> remove_inst cur | None \<Rightarrow> Some cur);
               cur \<leftarrow> goto_bottom b cur;
               ins_jump (post_blocks ! 0) [] cur
             }
             else if length post_blocks = 2 then do {
               (d, cur) \<leftarrow> get_block_last_control_instr replaced cur;
               d \<leftarrow> d;
               cur \<leftarrow> remove_inst cur;
               cur \<leftarrow> goto_bottom b cur;
               case d of
                 Brif arg _ _ \<Rightarrow> ins_brif arg (post_blocks ! 0) (post_blocks ! 1) cur
               | _ \<Rightarrow> None
             }
             else if 3 \<le> length post_blocks then do {
               let (jump_table, f) = create_jump_table
                     \<lparr>jt_default = BlockCall (post_blocks ! 0) [],
                      jt_table = map (\<lambda>b. BlockCall b []) (tl post_blocks)\<rparr> (cur_func cur);
               (d, cur) \<leftarrow> get_block_last_control_instr replaced (cur\<lparr>cur_func := f\<rparr>);
               d \<leftarrow> d;
               cur \<leftarrow> remove_inst cur;
               cur \<leftarrow> goto_bottom b cur;
               case d of
                 BranchTable arg _ \<Rightarrow> ins_br_table arg jump_table cur
               | _ \<Rightarrow> None
             }
             else Some cur);
     l \<leftarrow> remove_block replaced (cur_layout cur);
     Some ((cur_func cur)\<lparr>fn_layout := l\<rparr>)
   }"

subsection \<open>The recursion\<close>

definition MAX_DEPTH :: nat where
  "MAX_DEPTH = 2"

text \<open>One of the first three shapes with the given odds out of five, the switch otherwise.\<close>

definition cf_choice :: "('r, 'x) rand_scheme \<Rightarrow> nat \<Rightarrow> 'r genv \<Rightarrow> (nat \<times> 'r genv) option" where
  "cf_choice R odds g = do {
     (n, g) \<leftarrow> gen_and_print_range R 0 5 False g;
     if n < odds then gen_and_print_range R 0 3 False g else Some (3, g)
   }"

definition cf_shape :: "('r, 'x) rand_scheme \<Rightarrow> nat \<Rightarrow> func \<Rightarrow> 'r genv \<Rightarrow> (block_type option \<times> func \<times> 'r genv) option" where
  "cf_shape R choice f g =
     (if choice = 0 then do {
        (n, g) \<leftarrow> gen_and_print_range R 2 5 False g;
        (s, f) \<leftarrow> sequential n f;
        Some (Some s, f, g)
      }
      else if choice = 1 then do { (s, f) \<leftarrow> if_else f; Some (Some s, f, g) }
      else if choice = 2 then do { (s, f) \<leftarrow> while_blocks f; Some (Some s, f, g) }
      else if choice = 3 then do {
        (n, g) \<leftarrow> gen_and_print_range R 6 9 False g;
        (s, f) \<leftarrow> switch_blocks n f;
        Some (Some s, f, g)
      }
      else Some (None, f, g))"

definition cf_replace :: "block_type \<Rightarrow> block \<Rightarrow> func \<Rightarrow> func option" where
  "cf_replace s replaced_block f = do {
     child_first_block \<leftarrow> get_first_block s;
     f \<leftarrow> update_predecessor child_first_block replaced_block f;
     child_last_block \<leftarrow> get_last_block s;
     update_successor child_last_block replaced_block f
   }"

text \<open>A choice that names no shape is a panic below a sequence and leaves the function unchanged
  below the other shapes.\<close>

definition cf_nested :: "('r, 'x) rand_scheme \<Rightarrow> block_type \<Rightarrow> func \<Rightarrow> 'r genv \<Rightarrow> (block_type option \<times> func \<times> 'r genv) option" where
  "cf_nested R parent f g = do {
     let is_seq = (case parent of BSequential _ \<Rightarrow> True | _ \<Rightarrow> False);
     (choice, g) \<leftarrow> cf_choice R (if is_seq then 3 else 2) g;
     (replaced_block, g) \<leftarrow> get_random_block R parent g;
     (child, f, g) \<leftarrow> cf_shape R choice f g;
     case child of
       None \<Rightarrow> if is_seq then None else Some (None, f, g)
     | Some s \<Rightarrow> do {
         f \<leftarrow> cf_replace s replaced_block f;
         Some (Some s, f, g)
       }
   }"

definition cf_root :: "('r, 'x) rand_scheme \<Rightarrow> func \<Rightarrow> 'r genv \<Rightarrow> (block_type option \<times> func \<times> 'r genv) option" where
  "cf_root R f g = do {
     let (entry, f) = make_block f;
     let (end_block, f) = make_block f;
     cur \<leftarrow> cur_insert_block entry (cursor_new f);
     cur \<leftarrow> cur_insert_block end_block cur;
     (choice, g) \<leftarrow> cf_choice R 2 g;
     (child, f, g) \<leftarrow> cf_shape R choice (cur_func cur) g;
     case child of
       None \<Rightarrow> Some (None, f, g)
     | Some s \<Rightarrow> do {
         cur \<leftarrow> goto_bottom entry (cursor_new f);
         fst_blk \<leftarrow> get_first_block s;
         cur \<leftarrow> ins_jump fst_blk [] cur;
         lst_blk \<leftarrow> get_last_block s;
         cur \<leftarrow> goto_bottom lst_blk cur;
         cur \<leftarrow> ins_jump end_block [] cur;
         Some (Some s, cur_func cur, g)
       }
   }"

definition cf_level :: "('r, 'x) rand_scheme \<Rightarrow> block_type option \<Rightarrow> func \<Rightarrow> 'r genv \<Rightarrow> (block_type option \<times> func \<times> 'r genv) option" where
  "cf_level R parent f g = (case parent of
      None \<Rightarrow> cf_root R f g
    | Some (BBlock _) \<Rightarrow> Some (None, f, g)
    | Some s \<Rightarrow> cf_nested R s f g)"

function cf_construct :: "('r, 'x) rand_scheme \<Rightarrow> func \<Rightarrow> block_type option \<Rightarrow> nat \<Rightarrow> 'r genv \<Rightarrow> (func \<times> 'r genv) option" where
  "cf_construct R f parent depth g = do {
     (child, f', g') \<leftarrow> cf_level R parent f g;
     if MAX_DEPTH \<le> depth then Some (f', g')
     else case child of
       None \<Rightarrow> Some (f', g')
     | Some s \<Rightarrow> cf_construct R f' (Some s) (Suc depth) g'
   }"
  by pat_completeness auto
termination
  by (relation "measure (\<lambda>(R, f, parent, depth, g). MAX_DEPTH - depth)") auto

declare cf_construct.simps [simp del]

end
