(* ===== verification/Instruction_Selector.thy ===== *)
theory Instruction_Selector
  imports Clif_Ir Commons_Config
begin

text \<open>
  The instruction selector (\<open>crates/function-generator/src/instruction_selector.rs\<close>): the values
  available to a block by type, the random choice among them, and \<open>populate_block_instructions\<close>,
  which draws an opcode and a mode of the configuration and emits one instruction. Every arm of its
  match is a definition \<open>sel_\<close> followed by the mnemonic; arms with the same text share a scheme.

  An arm returns \<open>None\<close> when the code panics, and otherwise the value of \<open>populate_block_instructions\<close>
  with the cursor and the generator after the call.
\<close>

subsection \<open>Typed values\<close>

datatype typed_value = TypedValue (get_value: val) (get_type: clif_type)

text \<open>The dominating blocks of the current block and the values recorded for every block. A
  \<open>HashSet\<close> is a list of its elements; the order does not matter, since the values are sorted.\<close>

record dom_env =
  dominator_blocks :: "block list"
  block_dominator_values :: "(block \<times> typed_value list) list"

definition block_values :: "dom_env \<Rightarrow> clif_type \<Rightarrow> block \<Rightarrow> val list" where
  "block_values D t b = (case map_of (block_dominator_values D) b of
      None \<Rightarrow> []
    | Some tvs \<Rightarrow> map get_value (filter (\<lambda>tv. get_type tv = t) tvs))"

definition get_dominator_values_with_type :: "dom_env \<Rightarrow> clif_type \<Rightarrow> val list" where
  "get_dominator_values_with_type D t = rev (sort (concat (map (block_values D t) (dominator_blocks D))))"

subsection \<open>Draws\<close>

definition thread_above_ratio :: "('r, 'x) rand_scheme \<Rightarrow> 'r genv \<Rightarrow> bool \<times> 'r genv" where
  "thread_above_ratio R g = (let (b, r) = gen_above_ratio R (rng_state g) in (b, g\<lparr>rng_state := r\<rparr>))"

definition thread_gen_bits :: "('r, 'x) rand_scheme \<Rightarrow> nat \<Rightarrow> 'r genv \<Rightarrow> nat \<times> 'r genv" where
  "thread_gen_bits R w g = (let (n, r) = gen_bits R w (rng_state g) in (n, g\<lparr>rng_state := r\<rparr>))"

text \<open>\<open>rng.gen_range(i64::MIN..=i64::MAX)\<close> and \<open>rng.random::<i64>()\<close>.\<close>

definition gen_i64 :: "('r, 'x) rand_scheme \<Rightarrow> 'r genv \<Rightarrow> int \<times> 'r genv" where
  "gen_i64 R g = (let (i, r) = gen_range_int R (- (2 ^ 63)) (2 ^ 63 - 1) (rng_state g) in (i, g\<lparr>rng_state := r\<rparr>))"

definition random_i64 :: "('r, 'x) rand_scheme \<Rightarrow> 'r genv \<Rightarrow> int \<times> 'r genv" where
  "random_i64 R g =
     (let (n, g) = thread_gen_bits R 64 g in (if n < 2 ^ 63 then int n else int n - 2 ^ 64, g))"

definition random_type :: "('r, 'x) rand_scheme \<Rightarrow> clif_type list \<Rightarrow> 'r genv \<Rightarrow> (clif_type \<times> 'r genv) option" where
  "random_type R tys g = thread_choose R tys g"

definition random_intcc :: "('r, 'x) rand_scheme \<Rightarrow> 'r genv \<Rightarrow> (string \<times> 'r genv) option" where
  "random_intcc R g = thread_choose R
     [''eq'', ''ne'', ''slt'', ''sge'', ''sgt'', ''sle'', ''ult'', ''uge'', ''ugt'', ''ule''] g"

definition extract_vector_type :: "clif_type \<Rightarrow> (clif_type \<times> nat) option" where
  "extract_vector_type t = map_of [(I8X16, (I8, 16)), (I16X8, (I16, 8)), (I32X4, (I32, 4)), (I64X2, (I64, 2)),
     (F16X8, (F16, 8)), (F32X4, (F32, 4)), (F64X2, (F64, 2))] t"

definition bitcast_type_mapping :: "('r, 'x) rand_scheme \<Rightarrow> clif_type \<Rightarrow> 'r genv \<Rightarrow> (clif_type \<times> 'r genv) option" where
  "bitcast_type_mapping R t g =
     (case map_of [(I16, F16), (I32, F32), (I64, F64), (F16, I16), (F32, I32), (F64, I64)] t of
        Some r \<Rightarrow> Some (r, g)
      | None \<Rightarrow> do {
          ts \<leftarrow> map_of [(I128, [I16X8, I32X4, I64X2, F32X4, F64X2]), (I16X8, [I128]), (I32X4, [F32X4, I128]),
                  (I64X2, [F64X2, I128]), (F16X8, [I16X8, I128]), (F32X4, [I32X4, I128]), (F64X2, [I32X4, I128])] t;
          random_type R ts g
        })"

text \<open>The first tenth of the values, which are the newest, is preferred; the rounded tenth of the
  length is at most the length.\<close>

definition select_random_value :: "('r, 'x) rand_scheme \<Rightarrow> 'a list \<Rightarrow> 'r genv \<Rightarrow> ('a option \<times> 'r genv) option" where
  "select_random_value R xs g =
     (if xs = [] then Some (None, g)
      else
        let (select_head, g) = thread_above_ratio R g in
        if select_head then
          (let head_count = (length xs + 5) div 10 in
           if head_count = 0 then Some (Some (xs ! 0), g)
           else do {
             (i, g) \<leftarrow> thread_gen_range R 0 (min head_count (length xs)) g;
             Some (Some (xs ! i), g)
           })
        else do {
          (i, g) \<leftarrow> thread_gen_range R 0 (length xs) g;
          Some (Some (xs ! i), g)
        })"

text \<open>\<open>*select_random_value(&xs, 0.1).unwrap()\<close>\<close>

definition pick :: "('r, 'x) rand_scheme \<Rightarrow> 'a list \<Rightarrow> 'r genv \<Rightarrow> ('a \<times> 'r genv) option" where
  "pick R xs g = do {
     (x, g) \<leftarrow> select_random_value R xs g;
     x \<leftarrow> x;
     Some (x, g)
   }"

definition get_random_cond_value :: "('r, 'x) rand_scheme \<Rightarrow> dom_env \<Rightarrow> 'r genv \<Rightarrow> (val \<times> 'r genv) option" where
  "get_random_cond_value R D g = pick R (get_dominator_values_with_type D I32) g"

subsection \<open>What an arm does\<close>

type_synonym sel_result = "(typed_value option \<times> typed_value list option) option"
type_synonym 'r arm = "mode \<Rightarrow> cursor \<Rightarrow> 'r genv \<Rightarrow> (sel_result \<times> cursor \<times> 'r genv) option"

definition new_value :: "val \<Rightarrow> clif_type \<Rightarrow> typed_value list \<Rightarrow> sel_result" where
  "new_value v t refs = Some (Some (TypedValue v t), Some refs)"

definition new_only :: "val \<Rightarrow> clif_type \<Rightarrow> sel_result" where
  "new_only v t = Some (Some (TypedValue v t), None)"

definition used_only :: "typed_value list \<Rightarrow> sel_result" where
  "used_only refs = Some (None, Some refs)"

text \<open>The first result of an instruction, and an instruction whose results are not used.\<close>

definition ins_value :: "opcode \<Rightarrow> clif_type \<Rightarrow> imm list \<Rightarrow> val list \<Rightarrow> cursor \<Rightarrow> (val \<times> cursor) option" where
  "ins_value m ty imms args cur = do {
     (vs, cur) \<leftarrow> ins_op m ty imms args cur;
     v \<leftarrow> nth_opt vs 0;
     Some (v, cur)
   }"

definition ins_plain :: "opcode \<Rightarrow> clif_type \<Rightarrow> imm list \<Rightarrow> val list \<Rightarrow> cursor \<Rightarrow> cursor option" where
  "ins_plain m ty imms args cur = map_option snd (ins_op m ty imms args cur)"

text \<open>\<open>mode.operand_types.as_ref().unwrap()\<close>, a choice among the types and its conversion.\<close>

definition choose_type :: "('r, 'x) rand_scheme \<Rightarrow> operand_type list option \<Rightarrow> 'r genv \<Rightarrow> (clif_type \<times> 'r genv) option" where
  "choose_type R types g = do {
     types \<leftarrow> types;
     (t, g) \<leftarrow> thread_choose R types g;
     Some (to_cranelift_type t, g)
   }"

definition random_stack_slot :: "('r, 'x) rand_scheme \<Rightarrow> cursor \<Rightarrow> 'r genv \<Rightarrow> (nat \<times> 'r genv) option" where
  "random_stack_slot R cur g = thread_choose R [0..<length (stack_slots (cur_func cur))] g"

text \<open>The address of a random stack slot at offset zero.\<close>

definition slot_address :: "('r, 'x) rand_scheme \<Rightarrow> cursor \<Rightarrow> 'r genv \<Rightarrow> (val \<times> cursor \<times> 'r genv) option" where
  "slot_address R cur g = do {
     (slot, g) \<leftarrow> random_stack_slot R cur g;
     (addr, cur) \<leftarrow> ins_value ''stack_addr'' I64 [StackSlot slot, Offset32 0] [] cur;
     Some (addr, cur, g)
   }"

text \<open>Two operands of one type: the only candidate twice, or two random candidates.\<close>

definition two_operands :: "('r, 'x) rand_scheme \<Rightarrow> clif_type \<Rightarrow> val list \<Rightarrow> 'r genv \<Rightarrow> (val \<times> val \<times> typed_value list \<times> 'r genv) option" where
  "two_operands R t xs g =
     (if length xs = 1 then Some (xs ! 0, xs ! 0, [TypedValue (xs ! 0) t], g)
      else do {
        (first_value, g) \<leftarrow> pick R xs g;
        (second_value, g) \<leftarrow> pick R xs g;
        Some (first_value, second_value, [TypedValue first_value t, TypedValue second_value t], g)
      })"

subsection \<open>Schemes\<close>

text \<open>Two operands of one type; \<open>result\<close> gives the recorded type of the result, or panics.\<close>

definition binary_arm :: "('r, 'x) rand_scheme \<Rightarrow> dom_env \<Rightarrow> opcode \<Rightarrow> imm list \<Rightarrow> (clif_type \<Rightarrow> clif_type option) \<Rightarrow> 'r arm" where
  "binary_arm R D m imms result md cur g = do {
     (t, g) \<leftarrow> choose_type R (mode_operand_types md) g;
     let xs = get_dominator_values_with_type D t;
     if xs = [] then Some (None, cur, g)
     else do {
       (x, y, refs, g) \<leftarrow> two_operands R t xs g;
       (v, cur) \<leftarrow> ins_value m t imms [x, y] cur;
       r \<leftarrow> result t;
       Some (new_value v r refs, cur, g)
     }
   }"

text \<open>As before, but with one candidate the new value is reported as the referenced one.\<close>

definition binary_self_arm :: "('r, 'x) rand_scheme \<Rightarrow> dom_env \<Rightarrow> opcode \<Rightarrow> (clif_type \<Rightarrow> clif_type option) \<Rightarrow> 'r arm" where
  "binary_self_arm R D m result md cur g = do {
     (t, g) \<leftarrow> choose_type R (mode_operand_types md) g;
     let xs = get_dominator_values_with_type D t;
     if xs = [] then Some (None, cur, g)
     else do {
       (x, y, refs, g) \<leftarrow> two_operands R t xs g;
       (v, cur) \<leftarrow> ins_value m t [] [x, y] cur;
       r \<leftarrow> result t;
       Some (new_value v r (if length xs = 1 then [TypedValue v t] else refs), cur, g)
     }
   }"

text \<open>\<open>if operand_types.is_empty() { return None; }\<close> before the rest of an arm.\<close>

definition unless_no_types :: "'r arm \<Rightarrow> 'r arm" where
  "unless_no_types arm md cur g = do {
     types \<leftarrow> mode_operand_types md;
     if types = [] then Some (None, cur, g) else arm md cur g
   }"

definition shift_arm :: "('r, 'x) rand_scheme \<Rightarrow> dom_env \<Rightarrow> opcode \<Rightarrow> 'r arm" where
  "shift_arm R D m md cur g = do {
     (t0, g) \<leftarrow> choose_type R (mode_arg0_types md) g;
     (t1, g) \<leftarrow> choose_type R (mode_arg1_types md) g;
     (x, g) \<leftarrow> pick R (get_dominator_values_with_type D t0) g;
     (bits_num, g) \<leftarrow> pick R (get_dominator_values_with_type D t1) g;
     (v, cur) \<leftarrow> ins_value m t0 [] [x, bits_num] cur;
     Some (new_value v t0 [TypedValue x t0, TypedValue bits_num t1], cur, g)
   }"

definition imm_arm :: "('r, 'x) rand_scheme \<Rightarrow> dom_env \<Rightarrow> opcode \<Rightarrow> 'r arm" where
  "imm_arm R D m md cur g = do {
     (t, g) \<leftarrow> choose_type R (mode_operand_types md) g;
     (x, g) \<leftarrow> pick R (get_dominator_values_with_type D t) g;
     let (i, g) = gen_i64 R g;
     (v, cur) \<leftarrow> ins_value m t [Imm64 i] [x] cur;
     Some (new_value v t [TypedValue x t], cur, g)
   }"

text \<open>One operand; without a candidate the first scheme returns nothing and the second panics.\<close>

definition unary_guard_arm :: "('r, 'x) rand_scheme \<Rightarrow> dom_env \<Rightarrow> opcode \<Rightarrow> 'r arm" where
  "unary_guard_arm R D m md cur g = do {
     (t, g) \<leftarrow> choose_type R (mode_operand_types md) g;
     let xs = get_dominator_values_with_type D t;
     if xs = [] then Some (None, cur, g)
     else do {
       (x, g) \<leftarrow> pick R xs g;
       (v, cur) \<leftarrow> ins_value m t [] [x] cur;
       Some (new_value v t [TypedValue x t], cur, g)
     }
   }"

definition unary_arm :: "('r, 'x) rand_scheme \<Rightarrow> dom_env \<Rightarrow> opcode \<Rightarrow> (clif_type \<Rightarrow> clif_type) \<Rightarrow> 'r arm" where
  "unary_arm R D m result md cur g = do {
     (t, g) \<leftarrow> choose_type R (mode_operand_types md) g;
     (x, g) \<leftarrow> pick R (get_dominator_values_with_type D t) g;
     (v, cur) \<leftarrow> ins_value m t [] [x] cur;
     Some (new_value v (result t) [TypedValue x t], cur, g)
   }"

text \<open>A lane of the drawn vector type made into a vector.\<close>

definition lane_to_vector_arm :: "('r, 'x) rand_scheme \<Rightarrow> dom_env \<Rightarrow> opcode \<Rightarrow> 'r arm" where
  "lane_to_vector_arm R D m md cur g = do {
     (t, g) \<leftarrow> choose_type R (mode_operand_types md) g;
     (lane_t, max_lane) \<leftarrow> extract_vector_type t;
     let xs = get_dominator_values_with_type D lane_t;
     if xs = [] then Some (None, cur, g)
     else do {
       (x, g) \<leftarrow> thread_choose R xs g;
       (v, cur) \<leftarrow> ins_value m t [] [x] cur;
       Some (new_value v t [TypedValue x lane_t], cur, g)
     }
   }"

text \<open>A conversion to the drawn type from a type drawn among the ones listed for it.\<close>

definition resize_arm :: "('r, 'x) rand_scheme \<Rightarrow> dom_env \<Rightarrow> opcode \<Rightarrow> (clif_type \<times> clif_type list) list \<Rightarrow> 'r arm" where
  "resize_arm R D m sources md cur g = do {
     (to_t, g) \<leftarrow> choose_type R (mode_operand_types md) g;
     froms \<leftarrow> map_of sources to_t;
     (from_t, g) \<leftarrow> random_type R froms g;
     (x, g) \<leftarrow> pick R (get_dominator_values_with_type D from_t) g;
     (v, cur) \<leftarrow> ins_value m to_t [] [x] cur;
     Some (new_value v to_t [TypedValue x from_t], cur, g)
   }"

definition widen_arm :: "('r, 'x) rand_scheme \<Rightarrow> dom_env \<Rightarrow> opcode \<Rightarrow> 'r arm" where
  "widen_arm R D m md cur g = do {
     (to_t, g) \<leftarrow> choose_type R (mode_operand_types md) g;
     from_t \<leftarrow> map_of [(I16X8, I8X16), (I32X4, I16X8), (I64X2, I32X4)] to_t;
     (x, g) \<leftarrow> pick R (get_dominator_values_with_type D from_t) g;
     (v, cur) \<leftarrow> ins_value m to_t [] [x] cur;
     Some (new_value v to_t [TypedValue x from_t], cur, g)
   }"

text \<open>A conversion between fixed types, and one from the drawn type to the type listed for it; for
  other types nothing is emitted.\<close>

definition fixed_conv_arm :: "('r, 'x) rand_scheme \<Rightarrow> dom_env \<Rightarrow> opcode \<Rightarrow> clif_type \<Rightarrow> clif_type \<Rightarrow> 'r arm" where
  "fixed_conv_arm R D m from_t to_t md cur g = do {
     (x, g) \<leftarrow> pick R (get_dominator_values_with_type D from_t) g;
     (v, cur) \<leftarrow> ins_value m to_t [] [x] cur;
     Some (new_value v to_t [TypedValue x from_t], cur, g)
   }"

definition convert_arm :: "('r, 'x) rand_scheme \<Rightarrow> dom_env \<Rightarrow> opcode \<Rightarrow> (clif_type \<times> clif_type) list \<Rightarrow> 'r arm" where
  "convert_arm R D m table md cur g = do {
     (t, g) \<leftarrow> choose_type R (mode_operand_types md) g;
     (x, g) \<leftarrow> pick R (get_dominator_values_with_type D t) g;
     case map_of table t of
       None \<Rightarrow> Some (None, cur, g)
     | Some r \<Rightarrow> do {
         (v, cur) \<leftarrow> ins_value m r [] [x] cur;
         Some (new_value v r [TypedValue x t], cur, g)
       }
   }"

text \<open>Two operands of the drawn type and a flag.\<close>

definition carry_arm :: "('r, 'x) rand_scheme \<Rightarrow> dom_env \<Rightarrow> opcode \<Rightarrow> 'r arm" where
  "carry_arm R D m md cur g = do {
     (t, g) \<leftarrow> choose_type R (mode_operand_types md) g;
     let xs = get_dominator_values_with_type D t;
     let flags = get_dominator_values_with_type D I8;
     if xs = [] \<or> flags = [] then Some (None, cur, g)
     else do {
       (x, g) \<leftarrow> pick R xs g;
       (y, g) \<leftarrow> pick R xs g;
       (c_in, g) \<leftarrow> pick R flags g;
       (v, cur) \<leftarrow> ins_value m t [] [x, y, c_in] cur;
       Some (new_value v t [TypedValue x t, TypedValue y t, TypedValue c_in I8], cur, g)
     }
   }"

text \<open>Loads from a random slot: of the drawn type, with the type drawn after or before the slot, and
  of a fixed type.\<close>

definition load_arm :: "('r, 'x) rand_scheme \<Rightarrow> opcode \<Rightarrow> 'r arm" where
  "load_arm R m md cur g = do {
     (addr, cur, g) \<leftarrow> slot_address R cur g;
     (t, g) \<leftarrow> choose_type R (mode_operand_types md) g;
     (off, g) \<leftarrow> thread_gen_range R 0 10 g;
     (v, cur) \<leftarrow> ins_value m t [MemFlagsLE, Offset32 (int off)] [addr] cur;
     Some (new_only v t, cur, g)
   }"

definition load_typed_arm :: "('r, 'x) rand_scheme \<Rightarrow> opcode \<Rightarrow> 'r arm" where
  "load_typed_arm R m md cur g = do {
     (t, g) \<leftarrow> choose_type R (mode_operand_types md) g;
     (addr, cur, g) \<leftarrow> slot_address R cur g;
     (off, g) \<leftarrow> thread_gen_range R 0 10 g;
     (v, cur) \<leftarrow> ins_value m t [MemFlagsLE, Offset32 (int off)] [addr] cur;
     Some (new_only v t, cur, g)
   }"

definition load_fixed_arm :: "('r, 'x) rand_scheme \<Rightarrow> opcode \<Rightarrow> clif_type \<Rightarrow> 'r arm" where
  "load_fixed_arm R m t md cur g = do {
     (addr, cur, g) \<leftarrow> slot_address R cur g;
     (off, g) \<leftarrow> thread_gen_range R 0 10 g;
     (v, cur) \<leftarrow> ins_value m t [MemFlagsLE, Offset32 (int off)] [addr] cur;
     Some (new_only v t, cur, g)
   }"

text \<open>Stores to a random slot, with the type drawn before it.\<close>

definition store_arm :: "('r, 'x) rand_scheme \<Rightarrow> dom_env \<Rightarrow> opcode \<Rightarrow> imm list \<Rightarrow> 'r arm" where
  "store_arm R D m imms md cur g = do {
     (t, g) \<leftarrow> choose_type R (mode_operand_types md) g;
     (addr, cur, g) \<leftarrow> slot_address R cur g;
     (x, g) \<leftarrow> pick R (get_dominator_values_with_type D t) g;
     cur \<leftarrow> ins_plain m t imms [x, addr] cur;
     Some (used_only [TypedValue x t], cur, g)
   }"

text \<open>The registers, the instructions without operands, and the arms that only return \<open>None\<close>.\<close>

definition register_arm :: "opcode \<Rightarrow> 'r arm" where
  "register_arm m md cur g = do {
     (v, cur) \<leftarrow> ins_value m I64 [] [] cur;
     Some (new_only v I64, cur, g)
   }"

definition effect_arm :: "opcode \<Rightarrow> 'r arm" where
  "effect_arm m md cur g = do {
     cur \<leftarrow> ins_plain m INVALID [] [] cur;
     Some (None, cur, g)
   }"

definition skip_arm :: "'r arm" where
  "skip_arm md cur g = Some (None, cur, g)"

definition select_arm :: "('r, 'x) rand_scheme \<Rightarrow> dom_env \<Rightarrow> opcode \<Rightarrow> 'r arm" where
  "select_arm R D m md cur g = do {
     (control_t, g) \<leftarrow> choose_type R (mode_arg0_types md) g;
     (control, g) \<leftarrow> pick R (get_dominator_values_with_type D control_t) g;
     (t, g) \<leftarrow> choose_type R (mode_arg0_types md) g;
     let xs = get_dominator_values_with_type D t;
     (x, g) \<leftarrow> pick R xs g;
     (y, g) \<leftarrow> pick R xs g;
     (v, cur) \<leftarrow> ins_value m t [] [control, x, y] cur;
     Some (new_value v t [TypedValue control control_t, TypedValue x t, TypedValue y t], cur, g)
   }"

end
