(* ===== verification/Selector_Arms.thy ===== *)
theory Selector_Arms
  imports Instruction_Selector
begin

text \<open>
  The arms of \<open>populate_block_instructions\<close>, one definition for each opcode that emits something, the
  table of the arms, and the function itself. The opcodes without an entry in the table are the arms
  whose only statement is \<open>return None\<close> (control flow, calls, traps, dynamic stack slots, symbols,
  \<open>vconst\<close> and \<open>f16const\<close>) and the ones of the last arm of the match.
\<close>

subsection \<open>Draws of single arms\<close>

text \<open>The condition of \<open>fcmp\<close>: draws are repeated until the code is not one of the six excluded ones.\<close>

definition floatcc_all :: "string list" where
  "floatcc_all = [''ord'', ''uno'', ''eq'', ''ne'', ''one'', ''ueq'', ''lt'', ''le'', ''gt'', ''ge'', ''ult'', ''ule'', ''ugt'', ''uge'']"

definition floatcc_excluded :: "string list" where
  "floatcc_excluded = [''ult'', ''ule'', ''ugt'', ''uge'', ''one'', ''ueq'']"

partial_function (option) fcmp_cond :: "('r, 'x) rand_scheme \<Rightarrow> 'r genv \<Rightarrow> (string \<times> 'r genv) option" where
  [code]: "fcmp_cond R g = do {
     (cc, g) \<leftarrow> thread_choose R floatcc_all g;
     if cc \<in> set floatcc_excluded then fcmp_cond R g else Some (cc, g)
   }"

text \<open>The lanes of a shuffle mask, each drawn from \<open>0..=31\<close>.\<close>

primrec shuffle_lanes :: "('r, 'x) rand_scheme \<Rightarrow> nat \<Rightarrow> 'r genv \<Rightarrow> (nat list \<times> 'r genv) option" where
  "shuffle_lanes R 0 g = Some ([], g)"
| "shuffle_lanes R (Suc n) g = do {
     (lane, g) \<leftarrow> thread_gen_range R 0 32 g;
     (lanes, g) \<leftarrow> shuffle_lanes R n g;
     Some (lane # lanes, g)
   }"

definition bytes_le :: "nat \<Rightarrow> nat \<Rightarrow> nat list" where
  "bytes_le k n = map (\<lambda>i. n div 256 ^ i mod 256) [0..<k]"

subsection \<open>Two operands of one type\<close>

definition sel_swizzle :: "('r, 'x) rand_scheme \<Rightarrow> dom_env \<Rightarrow> 'r arm" where
  "sel_swizzle R D = binary_arm R D ''swizzle'' [] Some"

definition sel_x86_pshufb :: "('r, 'x) rand_scheme \<Rightarrow> dom_env \<Rightarrow> 'r arm" where
  "sel_x86_pshufb R D = unless_no_types (binary_arm R D ''x86_pshufb'' [] Some)"

definition sel_smin :: "('r, 'x) rand_scheme \<Rightarrow> dom_env \<Rightarrow> 'r arm" where
  "sel_smin R D = binary_arm R D ''smin'' [] Some"

definition sel_umin :: "('r, 'x) rand_scheme \<Rightarrow> dom_env \<Rightarrow> 'r arm" where
  "sel_umin R D = binary_arm R D ''umin'' [] Some"

definition sel_smax :: "('r, 'x) rand_scheme \<Rightarrow> dom_env \<Rightarrow> 'r arm" where
  "sel_smax R D = binary_arm R D ''smax'' [] Some"

definition sel_umax :: "('r, 'x) rand_scheme \<Rightarrow> dom_env \<Rightarrow> 'r arm" where
  "sel_umax R D = binary_self_arm R D ''umax'' Some"

definition sel_avg_round :: "('r, 'x) rand_scheme \<Rightarrow> dom_env \<Rightarrow> 'r arm" where
  "sel_avg_round R D = binary_self_arm R D ''avg_round'' Some"

definition sel_uadd_sat :: "('r, 'x) rand_scheme \<Rightarrow> dom_env \<Rightarrow> 'r arm" where
  "sel_uadd_sat R D = binary_self_arm R D ''uadd_sat'' Some"

definition sel_sadd_sat :: "('r, 'x) rand_scheme \<Rightarrow> dom_env \<Rightarrow> 'r arm" where
  "sel_sadd_sat R D = binary_self_arm R D ''sadd_sat'' Some"

definition sel_usub_sat :: "('r, 'x) rand_scheme \<Rightarrow> dom_env \<Rightarrow> 'r arm" where
  "sel_usub_sat R D = binary_self_arm R D ''usub_sat'' Some"

definition sel_ssub_sat :: "('r, 'x) rand_scheme \<Rightarrow> dom_env \<Rightarrow> 'r arm" where
  "sel_ssub_sat R D = binary_self_arm R D ''ssub_sat'' Some"

definition sel_iadd :: "('r, 'x) rand_scheme \<Rightarrow> dom_env \<Rightarrow> 'r arm" where
  "sel_iadd R D = binary_arm R D ''iadd'' [] Some"

definition sel_isub :: "('r, 'x) rand_scheme \<Rightarrow> dom_env \<Rightarrow> 'r arm" where
  "sel_isub R D = binary_self_arm R D ''isub'' Some"

definition sel_imul :: "('r, 'x) rand_scheme \<Rightarrow> dom_env \<Rightarrow> 'r arm" where
  "sel_imul R D = binary_arm R D ''imul'' [] Some"

definition sel_umulhi :: "('r, 'x) rand_scheme \<Rightarrow> dom_env \<Rightarrow> 'r arm" where
  "sel_umulhi R D = binary_self_arm R D ''umulhi'' Some"

definition sel_smulhi :: "('r, 'x) rand_scheme \<Rightarrow> dom_env \<Rightarrow> 'r arm" where
  "sel_smulhi R D = binary_arm R D ''smulhi'' [] Some"

definition sel_sqmul_round_sat :: "('r, 'x) rand_scheme \<Rightarrow> dom_env \<Rightarrow> 'r arm" where
  "sel_sqmul_round_sat R D = binary_self_arm R D ''sqmul_round_sat'' Some"

definition sel_x86_pmulhrsw :: "('r, 'x) rand_scheme \<Rightarrow> dom_env \<Rightarrow> 'r arm" where
  "sel_x86_pmulhrsw R D = binary_self_arm R D ''x86_pmulhrsw'' Some"

definition sel_x86_pmaddubsw :: "('r, 'x) rand_scheme \<Rightarrow> dom_env \<Rightarrow> 'r arm" where
  "sel_x86_pmaddubsw R D = unless_no_types (binary_self_arm R D ''x86_pmaddubsw'' (\<lambda>_. Some I16X8))"

definition sel_udiv :: "('r, 'x) rand_scheme \<Rightarrow> dom_env \<Rightarrow> 'r arm" where
  "sel_udiv R D = binary_arm R D ''udiv'' [] Some"

definition sel_sdiv :: "('r, 'x) rand_scheme \<Rightarrow> dom_env \<Rightarrow> 'r arm" where
  "sel_sdiv R D = binary_arm R D ''sdiv'' [] Some"

definition sel_urem :: "('r, 'x) rand_scheme \<Rightarrow> dom_env \<Rightarrow> 'r arm" where
  "sel_urem R D = binary_arm R D ''urem'' [] Some"

definition sel_srem :: "('r, 'x) rand_scheme \<Rightarrow> dom_env \<Rightarrow> 'r arm" where
  "sel_srem R D = binary_arm R D ''srem'' [] Some"

definition sel_uadd_overflow :: "('r, 'x) rand_scheme \<Rightarrow> dom_env \<Rightarrow> 'r arm" where
  "sel_uadd_overflow R D = binary_arm R D ''uadd_overflow'' [] Some"

definition sel_sadd_overflow :: "('r, 'x) rand_scheme \<Rightarrow> dom_env \<Rightarrow> 'r arm" where
  "sel_sadd_overflow R D = binary_arm R D ''sadd_overflow'' [] Some"

definition sel_usub_overflow :: "('r, 'x) rand_scheme \<Rightarrow> dom_env \<Rightarrow> 'r arm" where
  "sel_usub_overflow R D = binary_arm R D ''usub_overflow'' [] Some"

definition sel_ssub_overflow :: "('r, 'x) rand_scheme \<Rightarrow> dom_env \<Rightarrow> 'r arm" where
  "sel_ssub_overflow R D = binary_arm R D ''ssub_overflow'' [] Some"

definition sel_umul_overflow :: "('r, 'x) rand_scheme \<Rightarrow> dom_env \<Rightarrow> 'r arm" where
  "sel_umul_overflow R D = binary_arm R D ''umul_overflow'' [] Some"

definition sel_smul_overflow :: "('r, 'x) rand_scheme \<Rightarrow> dom_env \<Rightarrow> 'r arm" where
  "sel_smul_overflow R D = binary_arm R D ''smul_overflow'' [] Some"

definition sel_uadd_overflow_trap :: "('r, 'x) rand_scheme \<Rightarrow> dom_env \<Rightarrow> 'r arm" where
  "sel_uadd_overflow_trap R D = binary_arm R D ''uadd_overflow_trap'' [TrapCode] Some"

definition sel_band :: "('r, 'x) rand_scheme \<Rightarrow> dom_env \<Rightarrow> 'r arm" where
  "sel_band R D = binary_arm R D ''band'' [] Some"

definition sel_bor :: "('r, 'x) rand_scheme \<Rightarrow> dom_env \<Rightarrow> 'r arm" where
  "sel_bor R D = binary_arm R D ''bor'' [] Some"

definition sel_bxor :: "('r, 'x) rand_scheme \<Rightarrow> dom_env \<Rightarrow> 'r arm" where
  "sel_bxor R D = binary_arm R D ''bxor'' [] Some"

definition sel_band_not :: "('r, 'x) rand_scheme \<Rightarrow> dom_env \<Rightarrow> 'r arm" where
  "sel_band_not R D = binary_arm R D ''band_not'' [] Some"

definition sel_bor_not :: "('r, 'x) rand_scheme \<Rightarrow> dom_env \<Rightarrow> 'r arm" where
  "sel_bor_not R D = binary_arm R D ''bor_not'' [] Some"

definition sel_bxor_not :: "('r, 'x) rand_scheme \<Rightarrow> dom_env \<Rightarrow> 'r arm" where
  "sel_bxor_not R D = binary_arm R D ''bxor_not'' [] Some"

definition sel_fadd :: "('r, 'x) rand_scheme \<Rightarrow> dom_env \<Rightarrow> 'r arm" where
  "sel_fadd R D = binary_arm R D ''fadd'' [] Some"

definition sel_fsub :: "('r, 'x) rand_scheme \<Rightarrow> dom_env \<Rightarrow> 'r arm" where
  "sel_fsub R D = binary_arm R D ''fsub'' [] Some"

definition sel_fmul :: "('r, 'x) rand_scheme \<Rightarrow> dom_env \<Rightarrow> 'r arm" where
  "sel_fmul R D = binary_arm R D ''fmul'' [] Some"

definition sel_fdiv :: "('r, 'x) rand_scheme \<Rightarrow> dom_env \<Rightarrow> 'r arm" where
  "sel_fdiv R D = binary_arm R D ''fdiv'' [] Some"

definition sel_fcopysign :: "('r, 'x) rand_scheme \<Rightarrow> dom_env \<Rightarrow> 'r arm" where
  "sel_fcopysign R D = binary_arm R D ''fcopysign'' [] Some"

definition sel_fmin :: "('r, 'x) rand_scheme \<Rightarrow> dom_env \<Rightarrow> 'r arm" where
  "sel_fmin R D = binary_arm R D ''fmin'' [] Some"

definition sel_fmax :: "('r, 'x) rand_scheme \<Rightarrow> dom_env \<Rightarrow> 'r arm" where
  "sel_fmax R D = binary_arm R D ''fmax'' [] Some"

definition sel_snarrow :: "('r, 'x) rand_scheme \<Rightarrow> dom_env \<Rightarrow> 'r arm" where
  "sel_snarrow R D = binary_arm R D ''snarrow'' [] (map_of [(I16X8, I8X16), (I32X4, I16X8), (I64X2, I32X4)])"

definition sel_unarrow :: "('r, 'x) rand_scheme \<Rightarrow> dom_env \<Rightarrow> 'r arm" where
  "sel_unarrow R D = binary_arm R D ''unarrow'' [] (map_of [(I16X8, I8X16), (I32X4, I16X8)])"

definition sel_uunarrow :: "('r, 'x) rand_scheme \<Rightarrow> dom_env \<Rightarrow> 'r arm" where
  "sel_uunarrow R D = binary_arm R D ''uunarrow'' [] (map_of [(I16X8, I8X16), (I32X4, I16X8), (I64X2, I32X4)])"

definition sel_iadd_pairwise :: "('r, 'x) rand_scheme \<Rightarrow> dom_env \<Rightarrow> 'r arm" where
  "sel_iadd_pairwise R D = binary_arm R D ''iadd_pairwise'' [] Some"

definition sel_iconcat :: "('r, 'x) rand_scheme \<Rightarrow> dom_env \<Rightarrow> 'r arm" where
  "sel_iconcat R D = binary_arm R D ''iconcat'' [] (map_of [(I64, I128)])"

subsection \<open>Comparisons and shuffles\<close>

definition sel_fcmp :: "('r, 'x) rand_scheme \<Rightarrow> dom_env \<Rightarrow> 'r arm" where
  "sel_fcmp R D md cur g = do {
     (t, g) \<leftarrow> choose_type R (mode_operand_types md) g;
     let xs = get_dominator_values_with_type D t;
     (cc, g) \<leftarrow> fcmp_cond R g;
     if xs = [] then Some (None, cur, g)
     else do {
       (x, y, refs, g) \<leftarrow> two_operands R t xs g;
       (v, cur) \<leftarrow> ins_value ''fcmp'' t [CondCode cc] [x, y] cur;
       let r = (case map_of [(F16X8, I16X8), (F32X4, I32X4), (F64X2, I64X2)] t of Some r \<Rightarrow> r | None \<Rightarrow> I8);
       Some (new_value v r refs, cur, g)
     }
   }"

definition sel_icmp :: "('r, 'x) rand_scheme \<Rightarrow> dom_env \<Rightarrow> 'r arm" where
  "sel_icmp R D md cur g = do {
     (t, g) \<leftarrow> choose_type R (mode_operand_types md) g;
     let xs = get_dominator_values_with_type D t;
     if xs = [] then Some (None, cur, g)
     else do {
       (x, y, refs, g) \<leftarrow> two_operands R t xs g;
       (cc, g) \<leftarrow> random_intcc R g;
       (v, cur) \<leftarrow> ins_value ''icmp'' t [CondCode cc] [x, y] cur;
       let r = (case map_of [(I16X8, I16X8), (I32X4, I32X4), (I64X2, I64X2)] t of Some r \<Rightarrow> r | None \<Rightarrow> I8);
       Some (new_value v r refs, cur, g)
     }
   }"

definition sel_icmp_imm :: "('r, 'x) rand_scheme \<Rightarrow> dom_env \<Rightarrow> 'r arm" where
  "sel_icmp_imm R D md cur g = do {
     (t, g) \<leftarrow> choose_type R (mode_operand_types md) g;
     let (i, g) = gen_i64 R g;
     (x, g) \<leftarrow> pick R (get_dominator_values_with_type D t) g;
     (cc, g) \<leftarrow> random_intcc R g;
     (v, cur) \<leftarrow> ins_value ''icmp_imm'' t [CondCode cc, Imm64 i] [x] cur;
     Some (new_value v I8 [TypedValue x t], cur, g)
   }"

definition sel_shuffle :: "('r, 'x) rand_scheme \<Rightarrow> dom_env \<Rightarrow> 'r arm" where
  "sel_shuffle R D md cur g = do {
     (t, g) \<leftarrow> choose_type R (mode_operand_types md) g;
     let xs = get_dominator_values_with_type D t;
     if xs = [] then Some (None, cur, g)
     else do {
       (lanes, g) \<leftarrow> shuffle_lanes R 16 g;
       (x, y, refs, g) \<leftarrow> two_operands R t xs g;
       (v, cur) \<leftarrow> ins_value ''shuffle'' t [ConstBytes lanes] [x, y] cur;
       Some (new_value v I8X16 refs, cur, g)
     }
   }"

subsection \<open>Shifts and immediates\<close>

definition sel_rotl :: "('r, 'x) rand_scheme \<Rightarrow> dom_env \<Rightarrow> 'r arm" where
  "sel_rotl R D = shift_arm R D ''rotl''"

definition sel_rotr :: "('r, 'x) rand_scheme \<Rightarrow> dom_env \<Rightarrow> 'r arm" where
  "sel_rotr R D = shift_arm R D ''rotr''"

definition sel_ishl :: "('r, 'x) rand_scheme \<Rightarrow> dom_env \<Rightarrow> 'r arm" where
  "sel_ishl R D = shift_arm R D ''ishl''"

definition sel_ushr :: "('r, 'x) rand_scheme \<Rightarrow> dom_env \<Rightarrow> 'r arm" where
  "sel_ushr R D = shift_arm R D ''ushr''"

definition sel_sshr :: "('r, 'x) rand_scheme \<Rightarrow> dom_env \<Rightarrow> 'r arm" where
  "sel_sshr R D = shift_arm R D ''sshr''"

definition sel_iadd_imm :: "('r, 'x) rand_scheme \<Rightarrow> dom_env \<Rightarrow> 'r arm" where
  "sel_iadd_imm R D = imm_arm R D ''iadd_imm''"

definition sel_imul_imm :: "('r, 'x) rand_scheme \<Rightarrow> dom_env \<Rightarrow> 'r arm" where
  "sel_imul_imm R D = imm_arm R D ''imul_imm''"

definition sel_udiv_imm :: "('r, 'x) rand_scheme \<Rightarrow> dom_env \<Rightarrow> 'r arm" where
  "sel_udiv_imm R D = imm_arm R D ''udiv_imm''"

definition sel_sdiv_imm :: "('r, 'x) rand_scheme \<Rightarrow> dom_env \<Rightarrow> 'r arm" where
  "sel_sdiv_imm R D = imm_arm R D ''sdiv_imm''"

definition sel_urem_imm :: "('r, 'x) rand_scheme \<Rightarrow> dom_env \<Rightarrow> 'r arm" where
  "sel_urem_imm R D = imm_arm R D ''urem_imm''"

definition sel_srem_imm :: "('r, 'x) rand_scheme \<Rightarrow> dom_env \<Rightarrow> 'r arm" where
  "sel_srem_imm R D = imm_arm R D ''srem_imm''"

definition sel_irsub_imm :: "('r, 'x) rand_scheme \<Rightarrow> dom_env \<Rightarrow> 'r arm" where
  "sel_irsub_imm R D = imm_arm R D ''irsub_imm''"

definition sel_band_imm :: "('r, 'x) rand_scheme \<Rightarrow> dom_env \<Rightarrow> 'r arm" where
  "sel_band_imm R D = imm_arm R D ''band_imm''"

definition sel_bor_imm :: "('r, 'x) rand_scheme \<Rightarrow> dom_env \<Rightarrow> 'r arm" where
  "sel_bor_imm R D = imm_arm R D ''bor_imm''"

definition sel_bxor_imm :: "('r, 'x) rand_scheme \<Rightarrow> dom_env \<Rightarrow> 'r arm" where
  "sel_bxor_imm R D = imm_arm R D ''bxor_imm''"

definition sel_rotl_imm :: "('r, 'x) rand_scheme \<Rightarrow> dom_env \<Rightarrow> 'r arm" where
  "sel_rotl_imm R D = imm_arm R D ''rotl_imm''"

definition sel_rotr_imm :: "('r, 'x) rand_scheme \<Rightarrow> dom_env \<Rightarrow> 'r arm" where
  "sel_rotr_imm R D = imm_arm R D ''rotr_imm''"

definition sel_ishl_imm :: "('r, 'x) rand_scheme \<Rightarrow> dom_env \<Rightarrow> 'r arm" where
  "sel_ishl_imm R D = imm_arm R D ''ishl_imm''"

definition sel_ushr_imm :: "('r, 'x) rand_scheme \<Rightarrow> dom_env \<Rightarrow> 'r arm" where
  "sel_ushr_imm R D = imm_arm R D ''ushr_imm''"

definition sel_sshr_imm :: "('r, 'x) rand_scheme \<Rightarrow> dom_env \<Rightarrow> 'r arm" where
  "sel_sshr_imm R D = imm_arm R D ''sshr_imm''"

subsection \<open>One operand\<close>

definition sel_ineg :: "('r, 'x) rand_scheme \<Rightarrow> dom_env \<Rightarrow> 'r arm" where
  "sel_ineg R D = unary_guard_arm R D ''ineg''"

definition sel_iabs :: "('r, 'x) rand_scheme \<Rightarrow> dom_env \<Rightarrow> 'r arm" where
  "sel_iabs R D = unary_guard_arm R D ''iabs''"

definition sel_bnot :: "('r, 'x) rand_scheme \<Rightarrow> dom_env \<Rightarrow> 'r arm" where
  "sel_bnot R D = unary_guard_arm R D ''bnot''"

definition sel_bitrev :: "('r, 'x) rand_scheme \<Rightarrow> dom_env \<Rightarrow> 'r arm" where
  "sel_bitrev R D = unary_guard_arm R D ''bitrev''"

definition sel_clz :: "('r, 'x) rand_scheme \<Rightarrow> dom_env \<Rightarrow> 'r arm" where
  "sel_clz R D = unary_guard_arm R D ''clz''"

definition sel_cls :: "('r, 'x) rand_scheme \<Rightarrow> dom_env \<Rightarrow> 'r arm" where
  "sel_cls R D = unary_guard_arm R D ''clz''"

definition sel_ctz :: "('r, 'x) rand_scheme \<Rightarrow> dom_env \<Rightarrow> 'r arm" where
  "sel_ctz R D = unary_guard_arm R D ''ctz''"

definition sel_bswap :: "('r, 'x) rand_scheme \<Rightarrow> dom_env \<Rightarrow> 'r arm" where
  "sel_bswap R D = unary_guard_arm R D ''bswap''"

definition sel_popcnt :: "('r, 'x) rand_scheme \<Rightarrow> dom_env \<Rightarrow> 'r arm" where
  "sel_popcnt R D = unary_guard_arm R D ''popcnt''"

definition sel_sqrt :: "('r, 'x) rand_scheme \<Rightarrow> dom_env \<Rightarrow> 'r arm" where
  "sel_sqrt R D = unary_arm R D ''sqrt'' (\<lambda>t. t)"

definition sel_fneg :: "('r, 'x) rand_scheme \<Rightarrow> dom_env \<Rightarrow> 'r arm" where
  "sel_fneg R D = unary_arm R D ''fneg'' (\<lambda>t. t)"

definition sel_fabs :: "('r, 'x) rand_scheme \<Rightarrow> dom_env \<Rightarrow> 'r arm" where
  "sel_fabs R D = unary_arm R D ''fabs'' (\<lambda>t. t)"

definition sel_ceil :: "('r, 'x) rand_scheme \<Rightarrow> dom_env \<Rightarrow> 'r arm" where
  "sel_ceil R D = unary_arm R D ''ceil'' (\<lambda>t. t)"

definition sel_floor :: "('r, 'x) rand_scheme \<Rightarrow> dom_env \<Rightarrow> 'r arm" where
  "sel_floor R D = unary_arm R D ''floor'' (\<lambda>t. t)"

definition sel_trunc :: "('r, 'x) rand_scheme \<Rightarrow> dom_env \<Rightarrow> 'r arm" where
  "sel_trunc R D = unary_arm R D ''trunc'' (\<lambda>t. t)"

definition sel_nearest :: "('r, 'x) rand_scheme \<Rightarrow> dom_env \<Rightarrow> 'r arm" where
  "sel_nearest R D = unary_arm R D ''nearest'' (\<lambda>t. t)"

definition sel_vany_true :: "('r, 'x) rand_scheme \<Rightarrow> dom_env \<Rightarrow> 'r arm" where
  "sel_vany_true R D = unary_arm R D ''vany_true'' (\<lambda>_. I8)"

definition sel_vall_true :: "('r, 'x) rand_scheme \<Rightarrow> dom_env \<Rightarrow> 'r arm" where
  "sel_vall_true R D = unary_arm R D ''vall_true'' (\<lambda>_. I8)"

definition sel_vhigh_bits :: "('r, 'x) rand_scheme \<Rightarrow> dom_env \<Rightarrow> 'r arm" where
  "sel_vhigh_bits R D md cur g = do {
     (t, g) \<leftarrow> choose_type R (mode_operand_types md) g;
     let xs = get_dominator_values_with_type D t;
     if xs = [] then Some (None, cur, g)
     else do {
       (x, g) \<leftarrow> pick R xs g;
       case map_of [(I8X16, I8), (I16X8, I16), (I32X4, I32), (I64X2, I64)] t of
         None \<Rightarrow> Some (None, cur, g)
       | Some r \<Rightarrow> do {
           (v, cur) \<leftarrow> ins_value ''vhigh_bits'' r [] [x] cur;
           Some (new_value v r [TypedValue x t], cur, g)
         }
     }
   }"

subsection \<open>Lanes, selections and fused operations\<close>

definition sel_extractlane :: "('r, 'x) rand_scheme \<Rightarrow> dom_env \<Rightarrow> 'r arm" where
  "sel_extractlane R D md cur g = do {
     (t, g) \<leftarrow> choose_type R (mode_operand_types md) g;
     (lane_t, max_lane) \<leftarrow> extract_vector_type t;
     let xs = get_dominator_values_with_type D t;
     if xs = [] then Some (None, cur, g)
     else do {
       (x, g) \<leftarrow> thread_choose R xs g;
       (lane, g) \<leftarrow> thread_gen_range R 0 max_lane g;
       (v, cur) \<leftarrow> ins_value ''extractlane'' t [Uimm8 lane] [x] cur;
       Some (new_value v lane_t [TypedValue x t], cur, g)
     }
   }"

definition sel_insertlane :: "('r, 'x) rand_scheme \<Rightarrow> dom_env \<Rightarrow> 'r arm" where
  "sel_insertlane R D md cur g = do {
     (t, g) \<leftarrow> choose_type R (mode_operand_types md) g;
     (lane_t, max_lane) \<leftarrow> extract_vector_type t;
     let xs = get_dominator_values_with_type D t;
     if xs = [] then Some (None, cur, g)
     else do {
       (x, g) \<leftarrow> thread_choose R xs g;
       (inserted, g) \<leftarrow> thread_choose R (get_dominator_values_with_type D lane_t) g;
       (lane, g) \<leftarrow> thread_gen_range R 0 max_lane g;
       (v, cur) \<leftarrow> ins_value ''insertlane'' t [Uimm8 lane] [x, inserted] cur;
       Some (new_value v t [TypedValue x t, TypedValue inserted lane_t], cur, g)
     }
   }"

definition sel_splat :: "('r, 'x) rand_scheme \<Rightarrow> dom_env \<Rightarrow> 'r arm" where
  "sel_splat R D = lane_to_vector_arm R D ''splat''"

definition sel_scalar_to_vector :: "('r, 'x) rand_scheme \<Rightarrow> dom_env \<Rightarrow> 'r arm" where
  "sel_scalar_to_vector R D = lane_to_vector_arm R D ''scalar_to_vector''"

definition sel_select :: "('r, 'x) rand_scheme \<Rightarrow> dom_env \<Rightarrow> 'r arm" where
  "sel_select R D = select_arm R D ''select''"

definition sel_select_spectre_guard :: "('r, 'x) rand_scheme \<Rightarrow> dom_env \<Rightarrow> 'r arm" where
  "sel_select_spectre_guard R D = select_arm R D ''select_spectre_guard''"

definition sel_bitselect :: "('r, 'x) rand_scheme \<Rightarrow> dom_env \<Rightarrow> 'r arm" where
  "sel_bitselect R D md cur g = do {
     (t, g) \<leftarrow> choose_type R (mode_operand_types md) g;
     let xs = get_dominator_values_with_type D t;
     (control, g) \<leftarrow> pick R xs g;
     (x, g) \<leftarrow> pick R xs g;
     (y, g) \<leftarrow> pick R xs g;
     (v, cur) \<leftarrow> ins_value ''bitselect'' t [] [control, x, y] cur;
     Some (new_value v t [TypedValue control t, TypedValue x t, TypedValue y t], cur, g)
   }"

definition sel_fma :: "('r, 'x) rand_scheme \<Rightarrow> dom_env \<Rightarrow> 'r arm" where
  "sel_fma R D md cur g = do {
     (t, g) \<leftarrow> choose_type R (mode_operand_types md) g;
     let xs = get_dominator_values_with_type D t;
     if xs = [] then Some (None, cur, g)
     else do {
       (x, g) \<leftarrow> thread_choose R xs g;
       (y, g) \<leftarrow> thread_choose R xs g;
       (z, g) \<leftarrow> thread_choose R xs g;
       (v, cur) \<leftarrow> ins_value ''fma'' t [] [x, y, z] cur;
       Some (new_value v t [TypedValue x t, TypedValue y t, TypedValue z t], cur, g)
     }
   }"

subsection \<open>Conversions\<close>

definition sel_bitcast :: "('r, 'x) rand_scheme \<Rightarrow> dom_env \<Rightarrow> 'r arm" where
  "sel_bitcast R D md cur g = do {
     (t, g) \<leftarrow> choose_type R (mode_operand_types md) g;
     (x, g) \<leftarrow> pick R (get_dominator_values_with_type D t) g;
     (cast_t, g) \<leftarrow> bitcast_type_mapping R t g;
     (v, cur) \<leftarrow> ins_value ''bitcast'' cast_t [MemFlagsLE] [x] cur;
     Some (new_value v cast_t [TypedValue x t], cur, g)
   }"

definition sel_bmask :: "('r, 'x) rand_scheme \<Rightarrow> dom_env \<Rightarrow> 'r arm" where
  "sel_bmask R D md cur g = do {
     (target_t, g) \<leftarrow> choose_type R (mode_arg0_types md) g;
     (param_t, g) \<leftarrow> choose_type R (mode_arg1_types md) g;
     (x, g) \<leftarrow> pick R (get_dominator_values_with_type D param_t) g;
     (v, cur) \<leftarrow> ins_value ''bmask'' target_t [] [x] cur;
     Some (new_value v target_t [TypedValue x param_t], cur, g)
   }"

definition sel_ireduce :: "('r, 'x) rand_scheme \<Rightarrow> dom_env \<Rightarrow> 'r arm" where
  "sel_ireduce R D = resize_arm R D ''ireduce''
     [(I8, [I16, I32, I64]), (I16, [I32, I64]), (I32, [I64])]"

definition sel_swiden_low :: "('r, 'x) rand_scheme \<Rightarrow> dom_env \<Rightarrow> 'r arm" where
  "sel_swiden_low R D = widen_arm R D ''swiden_low''"

definition sel_swiden_high :: "('r, 'x) rand_scheme \<Rightarrow> dom_env \<Rightarrow> 'r arm" where
  "sel_swiden_high R D = widen_arm R D ''swiden_high''"

definition sel_uwiden_low :: "('r, 'x) rand_scheme \<Rightarrow> dom_env \<Rightarrow> 'r arm" where
  "sel_uwiden_low R D = widen_arm R D ''uwiden_low''"

definition sel_uwiden_high :: "('r, 'x) rand_scheme \<Rightarrow> dom_env \<Rightarrow> 'r arm" where
  "sel_uwiden_high R D = widen_arm R D ''uwiden_high''"

definition sel_uextend :: "('r, 'x) rand_scheme \<Rightarrow> dom_env \<Rightarrow> 'r arm" where
  "sel_uextend R D = resize_arm R D ''uextend''
     [(I16, [I8]), (I32, [I8, I16]), (I64, [I8, I16, I32]), (I128, [I8, I16, I32, I64])]"

definition sel_sextend :: "('r, 'x) rand_scheme \<Rightarrow> dom_env \<Rightarrow> 'r arm" where
  "sel_sextend R D = resize_arm R D ''sextend''
     [(I16, [I8]), (I32, [I8, I16]), (I64, [I8, I16, I32]), (I128, [I8, I16, I32, I64])]"

definition sel_fpromote :: "('r, 'x) rand_scheme \<Rightarrow> dom_env \<Rightarrow> 'r arm" where
  "sel_fpromote R D = fixed_conv_arm R D ''fpromote'' F32 F64"

definition sel_fdemote :: "('r, 'x) rand_scheme \<Rightarrow> dom_env \<Rightarrow> 'r arm" where
  "sel_fdemote R D = fixed_conv_arm R D ''fdemote'' F64 F32"

definition sel_fvdemote :: "('r, 'x) rand_scheme \<Rightarrow> dom_env \<Rightarrow> 'r arm" where
  "sel_fvdemote R D = fixed_conv_arm R D ''fvdemote'' F64X2 F32X4"

definition sel_fvpromote_low :: "('r, 'x) rand_scheme \<Rightarrow> dom_env \<Rightarrow> 'r arm" where
  "sel_fvpromote_low R D = fixed_conv_arm R D ''fvpromote_low'' F32X4 F64X2"

definition sel_fcvt_to_uint :: "('r, 'x) rand_scheme \<Rightarrow> dom_env \<Rightarrow> 'r arm" where
  "sel_fcvt_to_uint R D = convert_arm R D ''fcvt_to_uint'' [(F32, I32), (F64, I64)]"

definition sel_fcvt_to_sint :: "('r, 'x) rand_scheme \<Rightarrow> dom_env \<Rightarrow> 'r arm" where
  "sel_fcvt_to_sint R D = convert_arm R D ''fcvt_to_sint'' [(F32, I32), (F64, I64)]"

definition sel_fcvt_to_uint_sat :: "('r, 'x) rand_scheme \<Rightarrow> dom_env \<Rightarrow> 'r arm" where
  "sel_fcvt_to_uint_sat R D = convert_arm R D ''fcvt_to_uint_sat''
     [(F32, I32), (F64, I64), (F32X4, I32X4), (F64X2, I64X2)]"

definition sel_fcvt_to_sint_sat :: "('r, 'x) rand_scheme \<Rightarrow> dom_env \<Rightarrow> 'r arm" where
  "sel_fcvt_to_sint_sat R D = convert_arm R D ''fcvt_to_sint_sat''
     [(F32, I32), (F64, I64), (F32X4, I32X4), (F64X2, I64X2)]"

definition sel_x86_cvtt2dq :: "('r, 'x) rand_scheme \<Rightarrow> dom_env \<Rightarrow> 'r arm" where
  "sel_x86_cvtt2dq R D = unless_no_types (convert_arm R D ''x86_cvtt2dq''
     [(F32X4, I32X4), (F64X2, I64X2)])"

definition sel_fcvt_from_uint :: "('r, 'x) rand_scheme \<Rightarrow> dom_env \<Rightarrow> 'r arm" where
  "sel_fcvt_from_uint R D = convert_arm R D ''fcvt_from_uint''
     [(I32, F32), (I64, F64), (I32X4, F32X4), (I64X2, F64X2)]"

definition sel_fcvt_from_sint :: "('r, 'x) rand_scheme \<Rightarrow> dom_env \<Rightarrow> 'r arm" where
  "sel_fcvt_from_sint R D = convert_arm R D ''fcvt_from_sint''
     [(I32, F32), (I64, F64), (I32X4, F32X4), (I64X2, F64X2)]"

definition sel_isplit :: "('r, 'x) rand_scheme \<Rightarrow> dom_env \<Rightarrow> 'r arm" where
  "sel_isplit R D md cur g = do {
     (t, g) \<leftarrow> choose_type R (mode_operand_types md) g;
     let xs = get_dominator_values_with_type D t;
     if xs = [] then Some (None, cur, g)
     else case half_width t of
       None \<Rightarrow> Some (None, cur, g)
     | Some out_t \<Rightarrow> do {
         (x, g) \<leftarrow> pick R xs g;
         (lo, cur) \<leftarrow> ins_value ''isplit'' t [] [x] cur;
         Some (new_value lo out_t [TypedValue x t], cur, g)
       }
   }"

subsection \<open>Carries\<close>

definition sel_ssub_overflow_bin :: "('r, 'x) rand_scheme \<Rightarrow> dom_env \<Rightarrow> 'r arm" where
  "sel_ssub_overflow_bin R D = carry_arm R D ''ssub_overflow_bin''"

definition sel_usub_overflow_bin :: "('r, 'x) rand_scheme \<Rightarrow> dom_env \<Rightarrow> 'r arm" where
  "sel_usub_overflow_bin R D = carry_arm R D ''usub_overflow_bin''"

definition sel_uadd_overflow_cin :: "('r, 'x) rand_scheme \<Rightarrow> dom_env \<Rightarrow> 'r arm" where
  "sel_uadd_overflow_cin R D = carry_arm R D ''uadd_overflow_cin''"

definition sel_sadd_overflow_cin :: "('r, 'x) rand_scheme \<Rightarrow> dom_env \<Rightarrow> 'r arm" where
  "sel_sadd_overflow_cin R D = carry_arm R D ''sadd_overflow_cin''"

subsection \<open>Memory\<close>

definition sel_load :: "('r, 'x) rand_scheme \<Rightarrow> dom_env \<Rightarrow> 'r arm" where
  "sel_load R D = load_arm R ''load''"

definition sel_uload8 :: "('r, 'x) rand_scheme \<Rightarrow> dom_env \<Rightarrow> 'r arm" where
  "sel_uload8 R D = load_arm R ''uload8''"

definition sel_sload8 :: "('r, 'x) rand_scheme \<Rightarrow> dom_env \<Rightarrow> 'r arm" where
  "sel_sload8 R D = load_arm R ''sload8''"

definition sel_uload16 :: "('r, 'x) rand_scheme \<Rightarrow> dom_env \<Rightarrow> 'r arm" where
  "sel_uload16 R D = load_typed_arm R ''uload16''"

definition sel_sload16 :: "('r, 'x) rand_scheme \<Rightarrow> dom_env \<Rightarrow> 'r arm" where
  "sel_sload16 R D = load_typed_arm R ''sload16''"

definition sel_uload32 :: "('r, 'x) rand_scheme \<Rightarrow> dom_env \<Rightarrow> 'r arm" where
  "sel_uload32 R D = load_fixed_arm R ''uload32'' I64"

definition sel_sload32 :: "('r, 'x) rand_scheme \<Rightarrow> dom_env \<Rightarrow> 'r arm" where
  "sel_sload32 R D = load_fixed_arm R ''sload32'' I64"

definition sel_uload8x8 :: "('r, 'x) rand_scheme \<Rightarrow> dom_env \<Rightarrow> 'r arm" where
  "sel_uload8x8 R D = load_fixed_arm R ''uload8x8'' I16X8"

definition sel_sload8x8 :: "('r, 'x) rand_scheme \<Rightarrow> dom_env \<Rightarrow> 'r arm" where
  "sel_sload8x8 R D = load_fixed_arm R ''sload8x8'' I16X8"

definition sel_uload16x4 :: "('r, 'x) rand_scheme \<Rightarrow> dom_env \<Rightarrow> 'r arm" where
  "sel_uload16x4 R D = load_fixed_arm R ''uload16x4'' I32X4"

definition sel_sload16x4 :: "('r, 'x) rand_scheme \<Rightarrow> dom_env \<Rightarrow> 'r arm" where
  "sel_sload16x4 R D = load_fixed_arm R ''sload16x4'' I32X4"

definition sel_uload32x2 :: "('r, 'x) rand_scheme \<Rightarrow> dom_env \<Rightarrow> 'r arm" where
  "sel_uload32x2 R D = load_fixed_arm R ''uload32x2'' I64X2"

definition sel_sload32x2 :: "('r, 'x) rand_scheme \<Rightarrow> dom_env \<Rightarrow> 'r arm" where
  "sel_sload32x2 R D = load_fixed_arm R ''sload32x2'' I64X2"

definition sel_atomic_load :: "('r, 'x) rand_scheme \<Rightarrow> dom_env \<Rightarrow> 'r arm" where
  "sel_atomic_load R D md cur g = do {
     (addr, cur, g) \<leftarrow> slot_address R cur g;
     (t, g) \<leftarrow> choose_type R (mode_operand_types md) g;
     (v, cur) \<leftarrow> ins_value ''atomic_load'' t [MemFlagsLE] [addr] cur;
     Some (new_only v t, cur, g)
   }"

definition sel_stack_load :: "('r, 'x) rand_scheme \<Rightarrow> dom_env \<Rightarrow> 'r arm" where
  "sel_stack_load R D md cur g = do {
     (t, g) \<leftarrow> choose_type R (mode_operand_types md) g;
     (slot, g) \<leftarrow> random_stack_slot R cur g;
     (v, cur) \<leftarrow> ins_value ''stack_load'' t [StackSlot slot, Offset32 0] [] cur;
     Some (new_only v t, cur, g)
   }"

definition sel_stack_addr :: "('r, 'x) rand_scheme \<Rightarrow> dom_env \<Rightarrow> 'r arm" where
  "sel_stack_addr R D md cur g = do {
     (addr, cur, g) \<leftarrow> slot_address R cur g;
     Some (None, cur, g)
   }"

definition sel_stack_store :: "('r, 'x) rand_scheme \<Rightarrow> dom_env \<Rightarrow> 'r arm" where
  "sel_stack_store R D md cur g = do {
     (t, g) \<leftarrow> choose_type R (mode_operand_types md) g;
     let xs = get_dominator_values_with_type D t;
     if xs = [] then Some (None, cur, g)
     else do {
       (x, g) \<leftarrow> pick R xs g;
       (slot, g) \<leftarrow> random_stack_slot R cur g;
       cur \<leftarrow> ins_plain ''stack_store'' t [StackSlot slot, Offset32 0] [x] cur;
       Some (used_only [TypedValue x t], cur, g)
     }
   }"

definition sel_store :: "('r, 'x) rand_scheme \<Rightarrow> dom_env \<Rightarrow> 'r arm" where
  "sel_store R D md cur g = do {
     (addr, cur, g) \<leftarrow> slot_address R cur g;
     (t, g) \<leftarrow> choose_type R (mode_operand_types md) g;
     let xs = get_dominator_values_with_type D t;
     if xs = [] then Some (None, cur, g)
     else do {
       (x, g) \<leftarrow> pick R xs g;
       cur \<leftarrow> ins_plain ''store'' t [MemFlagsLE, Offset32 0] [x, addr] cur;
       Some (used_only [TypedValue x t], cur, g)
     }
   }"

definition sel_istore8 :: "('r, 'x) rand_scheme \<Rightarrow> dom_env \<Rightarrow> 'r arm" where
  "sel_istore8 R D md cur g = do {
     (addr, cur, g) \<leftarrow> slot_address R cur g;
     (t, g) \<leftarrow> choose_type R (mode_operand_types md) g;
     (x, g) \<leftarrow> pick R (get_dominator_values_with_type D t) g;
     cur \<leftarrow> ins_plain ''istore8'' t [MemFlagsLE, Offset32 0] [x, addr] cur;
     Some (used_only [TypedValue x t], cur, g)
   }"

definition sel_istore16 :: "('r, 'x) rand_scheme \<Rightarrow> dom_env \<Rightarrow> 'r arm" where
  "sel_istore16 R D = store_arm R D ''istore16'' [MemFlagsLE, Offset32 0]"

definition sel_istore32 :: "('r, 'x) rand_scheme \<Rightarrow> dom_env \<Rightarrow> 'r arm" where
  "sel_istore32 R D = store_arm R D ''istore32'' [MemFlagsLE, Offset32 0]"

definition sel_atomic_store :: "('r, 'x) rand_scheme \<Rightarrow> dom_env \<Rightarrow> 'r arm" where
  "sel_atomic_store R D = store_arm R D ''atomic_store'' [MemFlagsLE]"

definition sel_atomic_cas :: "('r, 'x) rand_scheme \<Rightarrow> dom_env \<Rightarrow> 'r arm" where
  "sel_atomic_cas R D md cur g = do {
     (slot, g) \<leftarrow> random_stack_slot R cur g;
     (off, g) \<leftarrow> thread_gen_range R 0 10 g;
     (addr, cur) \<leftarrow> ins_value ''stack_addr'' I64 [StackSlot slot, Offset32 (int off)] [] cur;
     (t, g) \<leftarrow> choose_type R (mode_operand_types md) g;
     let xs = get_dominator_values_with_type D t;
     if xs = [] then Some (None, cur, g)
     else do {
       (x, y, refs, g) \<leftarrow> two_operands R t xs g;
       (v, cur) \<leftarrow> ins_value ''atomic_cas'' t [MemFlagsLE] [addr, x, y] cur;
       Some (new_value v t refs, cur, g)
     }
   }"

definition sel_atomic_rmw :: "('r, 'x) rand_scheme \<Rightarrow> dom_env \<Rightarrow> 'r arm" where
  "sel_atomic_rmw R D md cur g = do {
     (t, g) \<leftarrow> choose_type R (mode_operand_types md) g;
     (rmw, g) \<leftarrow> thread_choose R [''add'', ''sub'', ''and'', ''nand'', ''or'', ''xor'', ''xchg'', ''umin'', ''umax'',
                    ''smin'', ''smax''] g;
     (addr, cur, g) \<leftarrow> slot_address R cur g;
     (x, g) \<leftarrow> pick R (get_dominator_values_with_type D t) g;
     (v, cur) \<leftarrow> ins_value ''atomic_rmw'' t [MemFlagsLE, RmwOp rmw] [addr, x] cur;
     Some (new_value v t [TypedValue x t], cur, g)
   }"

definition sel_set_pinned_reg :: "('r, 'x) rand_scheme \<Rightarrow> dom_env \<Rightarrow> 'r arm" where
  "sel_set_pinned_reg R D md cur g = do {
     (addr, cur, g) \<leftarrow> slot_address R cur g;
     cur \<leftarrow> ins_plain ''set_pinned_reg'' I64 [] [addr] cur;
     Some (None, cur, g)
   }"

subsection \<open>Registers, effects and constants\<close>

definition sel_get_frame_pointer :: "('r, 'x) rand_scheme \<Rightarrow> dom_env \<Rightarrow> 'r arm" where
  "sel_get_frame_pointer R D = register_arm ''get_frame_pointer''"

definition sel_get_stack_pointer :: "('r, 'x) rand_scheme \<Rightarrow> dom_env \<Rightarrow> 'r arm" where
  "sel_get_stack_pointer R D = register_arm ''get_stack_pointer''"

definition sel_get_return_address :: "('r, 'x) rand_scheme \<Rightarrow> dom_env \<Rightarrow> 'r arm" where
  "sel_get_return_address R D = register_arm ''get_return_address''"

definition sel_get_pinned_reg :: "('r, 'x) rand_scheme \<Rightarrow> dom_env \<Rightarrow> 'r arm" where
  "sel_get_pinned_reg R D = register_arm ''get_pinned_reg''"

definition sel_nop :: "('r, 'x) rand_scheme \<Rightarrow> dom_env \<Rightarrow> 'r arm" where
  "sel_nop R D = effect_arm ''nop''"

definition sel_fence :: "('r, 'x) rand_scheme \<Rightarrow> dom_env \<Rightarrow> 'r arm" where
  "sel_fence R D = effect_arm ''fence''"

definition sel_sequence_point :: "('r, 'x) rand_scheme \<Rightarrow> dom_env \<Rightarrow> 'r arm" where
  "sel_sequence_point R D = effect_arm ''sequence_point''"

definition sel_f128const :: "('r, 'x) rand_scheme \<Rightarrow> dom_env \<Rightarrow> 'r arm" where
  "sel_f128const R D md cur g = do {
     let (n, g) = thread_gen_bits R 128 g;
     (v, cur) \<leftarrow> ins_value ''f128const'' F128 [ConstBytes (bytes_le 16 n)] [] cur;
     Some (new_only v F128, cur, g)
   }"

definition sel_f32const :: "('r, 'x) rand_scheme \<Rightarrow> dom_env \<Rightarrow> 'r arm" where
  "sel_f32const R D md cur g = do {
     let (n, g) = thread_gen_bits R 32 g;
     (v, cur) \<leftarrow> ins_value ''f32const'' F32 [FloatBits n] [] cur;
     Some (new_only v F32, cur, g)
   }"

definition sel_f64const :: "('r, 'x) rand_scheme \<Rightarrow> dom_env \<Rightarrow> 'r arm" where
  "sel_f64const R D md cur g = do {
     let (n, g) = thread_gen_bits R 64 g;
     (v, cur) \<leftarrow> ins_value ''f64const'' F64 [FloatBits n] [] cur;
     Some (new_only v F64, cur, g)
   }"

definition sel_iconst :: "('r, 'x) rand_scheme \<Rightarrow> dom_env \<Rightarrow> 'r arm" where
  "sel_iconst R D md cur g = do {
     (choice, g) \<leftarrow> thread_gen_range R 0 4 g;
     let t = (if choice = 0 then I8 else if choice = 1 then I16 else if choice = 2 then I32 else I64);
     let (i, g) = random_i64 R g;
     (v, cur) \<leftarrow> ins_value ''iconst'' t [Imm64 i] [] cur;
     Some (new_only v t, cur, g)
   }"

subsection \<open>The selection\<close>

definition arm_table :: "('r, 'x) rand_scheme \<Rightarrow> dom_env \<Rightarrow> (opcode \<times> 'r arm) list" where
  "arm_table R D =
     [(''swizzle'', sel_swizzle R D), (''x86_pshufb'', sel_x86_pshufb R D), (''smin'', sel_smin R D),
      (''umin'', sel_umin R D), (''smax'', sel_smax R D), (''umax'', sel_umax R D),
      (''avg_round'', sel_avg_round R D), (''uadd_sat'', sel_uadd_sat R D), (''sadd_sat'', sel_sadd_sat R D),
      (''usub_sat'', sel_usub_sat R D), (''ssub_sat'', sel_ssub_sat R D), (''iadd'', sel_iadd R D),
      (''isub'', sel_isub R D), (''imul'', sel_imul R D), (''umulhi'', sel_umulhi R D),
      (''smulhi'', sel_smulhi R D), (''sqmul_round_sat'', sel_sqmul_round_sat R D),
      (''x86_pmulhrsw'', sel_x86_pmulhrsw R D), (''x86_pmaddubsw'', sel_x86_pmaddubsw R D),
      (''udiv'', sel_udiv R D), (''sdiv'', sel_sdiv R D), (''urem'', sel_urem R D), (''srem'', sel_srem R D),
      (''uadd_overflow'', sel_uadd_overflow R D), (''sadd_overflow'', sel_sadd_overflow R D),
      (''usub_overflow'', sel_usub_overflow R D), (''ssub_overflow'', sel_ssub_overflow R D),
      (''umul_overflow'', sel_umul_overflow R D), (''smul_overflow'', sel_smul_overflow R D),
      (''uadd_overflow_trap'', sel_uadd_overflow_trap R D), (''band'', sel_band R D), (''bor'', sel_bor R D),
      (''bxor'', sel_bxor R D), (''band_not'', sel_band_not R D), (''bor_not'', sel_bor_not R D),
      (''bxor_not'', sel_bxor_not R D), (''fadd'', sel_fadd R D), (''fsub'', sel_fsub R D),
      (''fmul'', sel_fmul R D), (''fdiv'', sel_fdiv R D), (''fcopysign'', sel_fcopysign R D),
      (''fmin'', sel_fmin R D), (''fmax'', sel_fmax R D), (''snarrow'', sel_snarrow R D),
      (''unarrow'', sel_unarrow R D), (''uunarrow'', sel_uunarrow R D),
      (''iadd_pairwise'', sel_iadd_pairwise R D), (''iconcat'', sel_iconcat R D), (''fcmp'', sel_fcmp R D),
      (''icmp'', sel_icmp R D), (''icmp_imm'', sel_icmp_imm R D), (''shuffle'', sel_shuffle R D),
      (''rotl'', sel_rotl R D), (''rotr'', sel_rotr R D), (''ishl'', sel_ishl R D), (''ushr'', sel_ushr R D),
      (''sshr'', sel_sshr R D), (''iadd_imm'', sel_iadd_imm R D), (''imul_imm'', sel_imul_imm R D),
      (''udiv_imm'', sel_udiv_imm R D), (''sdiv_imm'', sel_sdiv_imm R D), (''urem_imm'', sel_urem_imm R D),
      (''srem_imm'', sel_srem_imm R D), (''irsub_imm'', sel_irsub_imm R D), (''band_imm'', sel_band_imm R D),
      (''bor_imm'', sel_bor_imm R D), (''bxor_imm'', sel_bxor_imm R D), (''rotl_imm'', sel_rotl_imm R D),
      (''rotr_imm'', sel_rotr_imm R D), (''ishl_imm'', sel_ishl_imm R D), (''ushr_imm'', sel_ushr_imm R D),
      (''sshr_imm'', sel_sshr_imm R D), (''ineg'', sel_ineg R D), (''iabs'', sel_iabs R D),
      (''bnot'', sel_bnot R D), (''bitrev'', sel_bitrev R D), (''clz'', sel_clz R D), (''cls'', sel_cls R D),
      (''ctz'', sel_ctz R D), (''bswap'', sel_bswap R D), (''popcnt'', sel_popcnt R D),
      (''sqrt'', sel_sqrt R D), (''fneg'', sel_fneg R D), (''fabs'', sel_fabs R D), (''ceil'', sel_ceil R D),
      (''floor'', sel_floor R D), (''trunc'', sel_trunc R D), (''nearest'', sel_nearest R D),
      (''vany_true'', sel_vany_true R D), (''vall_true'', sel_vall_true R D),
      (''vhigh_bits'', sel_vhigh_bits R D), (''extractlane'', sel_extractlane R D),
      (''insertlane'', sel_insertlane R D), (''splat'', sel_splat R D),
      (''scalar_to_vector'', sel_scalar_to_vector R D), (''select'', sel_select R D),
      (''select_spectre_guard'', sel_select_spectre_guard R D), (''bitselect'', sel_bitselect R D),
      (''fma'', sel_fma R D), (''bitcast'', sel_bitcast R D), (''bmask'', sel_bmask R D),
      (''ireduce'', sel_ireduce R D), (''swiden_low'', sel_swiden_low R D),
      (''swiden_high'', sel_swiden_high R D), (''uwiden_low'', sel_uwiden_low R D),
      (''uwiden_high'', sel_uwiden_high R D), (''uextend'', sel_uextend R D), (''sextend'', sel_sextend R D),
      (''fpromote'', sel_fpromote R D), (''fdemote'', sel_fdemote R D), (''fvdemote'', sel_fvdemote R D),
      (''fvpromote_low'', sel_fvpromote_low R D), (''fcvt_to_uint'', sel_fcvt_to_uint R D),
      (''fcvt_to_sint'', sel_fcvt_to_sint R D), (''fcvt_to_uint_sat'', sel_fcvt_to_uint_sat R D),
      (''fcvt_to_sint_sat'', sel_fcvt_to_sint_sat R D), (''x86_cvtt2dq'', sel_x86_cvtt2dq R D),
      (''fcvt_from_uint'', sel_fcvt_from_uint R D), (''fcvt_from_sint'', sel_fcvt_from_sint R D),
      (''isplit'', sel_isplit R D), (''ssub_overflow_bin'', sel_ssub_overflow_bin R D),
      (''usub_overflow_bin'', sel_usub_overflow_bin R D), (''uadd_overflow_cin'', sel_uadd_overflow_cin R D),
      (''sadd_overflow_cin'', sel_sadd_overflow_cin R D), (''load'', sel_load R D),
      (''uload8'', sel_uload8 R D), (''sload8'', sel_sload8 R D), (''uload16'', sel_uload16 R D),
      (''sload16'', sel_sload16 R D), (''uload32'', sel_uload32 R D), (''sload32'', sel_sload32 R D),
      (''uload8x8'', sel_uload8x8 R D), (''sload8x8'', sel_sload8x8 R D), (''uload16x4'', sel_uload16x4 R D),
      (''sload16x4'', sel_sload16x4 R D), (''uload32x2'', sel_uload32x2 R D),
      (''sload32x2'', sel_sload32x2 R D), (''atomic_load'', sel_atomic_load R D),
      (''stack_load'', sel_stack_load R D), (''stack_addr'', sel_stack_addr R D),
      (''stack_store'', sel_stack_store R D), (''store'', sel_store R D), (''istore8'', sel_istore8 R D),
      (''istore16'', sel_istore16 R D), (''istore32'', sel_istore32 R D),
      (''atomic_store'', sel_atomic_store R D), (''atomic_cas'', sel_atomic_cas R D),
      (''atomic_rmw'', sel_atomic_rmw R D), (''set_pinned_reg'', sel_set_pinned_reg R D),
      (''get_frame_pointer'', sel_get_frame_pointer R D), (''get_stack_pointer'', sel_get_stack_pointer R D),
      (''get_return_address'', sel_get_return_address R D), (''get_pinned_reg'', sel_get_pinned_reg R D),
      (''nop'', sel_nop R D), (''fence'', sel_fence R D), (''sequence_point'', sel_sequence_point R D),
      (''f128const'', sel_f128const R D), (''f32const'', sel_f32const R D), (''f64const'', sel_f64const R D),
      (''iconst'', sel_iconst R D)]"

text \<open>\<open>Opcode::all()\<close>\<close>

definition all_opcodes :: "opcode list" where
  "all_opcodes =
     [''jump'', ''brif'', ''br_table'', ''debugtrap'', ''trap'', ''trapz'', ''trapnz'', ''return'', ''call'',
      ''call_indirect'', ''return_call'', ''return_call_indirect'', ''func_addr'', ''try_call'',
      ''try_call_indirect'', ''splat'', ''swizzle'', ''x86_pshufb'', ''insertlane'', ''extractlane'', ''smin'',
      ''umin'', ''smax'', ''umax'', ''avg_round'', ''uadd_sat'', ''sadd_sat'', ''usub_sat'', ''ssub_sat'',
      ''load'', ''store'', ''uload8'', ''sload8'', ''istore8'', ''uload16'', ''sload16'', ''istore16'',
      ''uload32'', ''sload32'', ''istore32'', ''stack_switch'', ''uload8x8'', ''sload8x8'', ''uload16x4'',
      ''sload16x4'', ''uload32x2'', ''sload32x2'', ''stack_load'', ''stack_store'', ''stack_addr'',
      ''dynamic_stack_load'', ''dynamic_stack_store'', ''dynamic_stack_addr'', ''global_value'',
      ''symbol_value'', ''tls_value'', ''get_pinned_reg'', ''set_pinned_reg'', ''get_frame_pointer'',
      ''get_stack_pointer'', ''get_return_address'', ''get_exception_handler_address'', ''iconst'',
      ''f16const'', ''f32const'', ''f64const'', ''f128const'', ''vconst'', ''shuffle'', ''nop'', ''select'',
      ''select_spectre_guard'', ''bitselect'', ''blendv'', ''vany_true'', ''vall_true'', ''vhigh_bits'',
      ''icmp'', ''icmp_imm'', ''iadd'', ''isub'', ''ineg'', ''iabs'', ''imul'', ''umulhi'', ''smulhi'',
      ''sqmul_round_sat'', ''x86_pmulhrsw'', ''udiv'', ''sdiv'', ''urem'', ''srem'', ''iadd_imm'', ''imul_imm'',
      ''udiv_imm'', ''sdiv_imm'', ''urem_imm'', ''srem_imm'', ''irsub_imm'', ''sadd_overflow_cin'',
      ''uadd_overflow_cin'', ''uadd_overflow'', ''sadd_overflow'', ''usub_overflow'', ''ssub_overflow'',
      ''umul_overflow'', ''smul_overflow'', ''uadd_overflow_trap'', ''ssub_overflow_bin'',
      ''usub_overflow_bin'', ''band'', ''bor'', ''bxor'', ''bnot'', ''band_not'', ''bor_not'', ''bxor_not'',
      ''band_imm'', ''bor_imm'', ''bxor_imm'', ''rotl'', ''rotr'', ''rotl_imm'', ''rotr_imm'', ''ishl'',
      ''ushr'', ''sshr'', ''ishl_imm'', ''ushr_imm'', ''sshr_imm'', ''bitrev'', ''clz'', ''cls'', ''ctz'',
      ''bswap'', ''popcnt'', ''fcmp'', ''fadd'', ''fsub'', ''fmul'', ''fdiv'', ''sqrt'', ''fma'', ''fneg'',
      ''fabs'', ''fcopysign'', ''fmin'', ''fmax'', ''ceil'', ''floor'', ''trunc'', ''nearest'', ''bitcast'',
      ''scalar_to_vector'', ''bmask'', ''ireduce'', ''snarrow'', ''unarrow'', ''uunarrow'', ''swiden_low'',
      ''swiden_high'', ''uwiden_low'', ''uwiden_high'', ''iadd_pairwise'', ''x86_pmaddubsw'', ''uextend'',
      ''sextend'', ''fpromote'', ''fdemote'', ''fvdemote'', ''fvpromote_low'', ''fcvt_to_uint'',
      ''fcvt_to_sint'', ''fcvt_to_uint_sat'', ''fcvt_to_sint_sat'', ''x86_cvtt2dq'', ''fcvt_from_uint'',
      ''fcvt_from_sint'', ''isplit'', ''iconcat'', ''atomic_rmw'', ''atomic_cas'', ''atomic_load'',
      ''atomic_store'', ''fence'', ''extract_vector'', ''sequence_point'']"

definition select_instruction :: "('r, 'x) rand_scheme \<Rightarrow> dom_env \<Rightarrow> opcode \<Rightarrow> 'r arm" where
  "select_instruction R D m = (case map_of (arm_table R D) m of Some arm \<Rightarrow> arm | None \<Rightarrow> skip_arm)"

definition populate_block_instructions :: "('r, 'x) rand_scheme \<Rightarrow> dom_env \<Rightarrow> arch_config \<Rightarrow> cursor \<Rightarrow> 'r genv \<Rightarrow>
    (sel_result \<times> cursor \<times> 'r genv) option" where
  "populate_block_instructions R D config cur g = do {
     (instr_opcode, g) \<leftarrow> thread_choose R all_opcodes g;
     instr_config \<leftarrow> cfg_instruction_map config instr_opcode;
     case instr_modes instr_config of
       None \<Rightarrow> Some (None, cur, g)
     | Some modes \<Rightarrow> do {
         (md, g) \<leftarrow> thread_choose R modes g;
         select_instruction R D instr_opcode md cur g
       }
   }"

end
