(* ===== verification/Call_Graph.thy ===== *)
theory Call_Graph
  imports Clif_Ir Commons_Config
begin

text \<open>
  The call graph (\<open>crates/cg-constructor/src/lib.rs\<close>): random signatures, the tree of functions in
  which every function calls its children, and its post order.
\<close>

subsection \<open>Function nodes\<close>

datatype function_node = FunctionNode (node_func: func) (node_sig: signature) (node_name: func_name)
  (node_children: "function_node list")

fun add_child :: "function_node \<Rightarrow> function_node \<Rightarrow> function_node" where
  "add_child (FunctionNode f s n cs) child = FunctionNode f s n (cs @ [child])"

definition get_child_funcs_clone :: "function_node \<Rightarrow> func list" where
  "get_child_funcs_clone node = map node_func (node_children node)"

fun cg_post_order_traversal :: "function_node \<Rightarrow> function_node list" where
  "cg_post_order_traversal (FunctionNode f s n cs) =
     concat (map cg_post_order_traversal cs) @ [FunctionNode f s n cs]"

subsection \<open>Signatures\<close>

definition candidate_types :: "clif_type list" where
  "candidate_types = [I8, I16, I32, I64, F32, F64, I16X8, I32X4, F32X4, I64X2, F64X2]"

definition generate_random_signature ::
  "('r, 'x) rand_scheme \<Rightarrow> clif_type list \<Rightarrow> nat \<Rightarrow> bool \<Rightarrow> 'r genv \<Rightarrow> signature \<times> 'r genv" where
  "generate_random_signature R types types_num is_root_func g =
     (let (params_type, g) = (if is_root_func then ([], g) else thread_choose_multiple R types types_num g);
          (returns_type, g) = thread_choose_multiple R types types_num g
      in (\<lparr>sig_params = params_type, sig_returns = returns_type\<rparr>, g))"

subsection \<open>The tree\<close>

function generate_function_tree ::
  "('r, 'x) rand_scheme \<Rightarrow> function_node \<Rightarrow> nat \<Rightarrow> nat \<Rightarrow> nat \<Rightarrow> 'r genv \<Rightarrow> (function_node \<times> nat \<times> 'r genv) option" where
  "generate_function_tree R node max_depth current_depth func_id g =
     (if current_depth < max_depth then do {
        (num_children, g) \<leftarrow> thread_gen_range R 1 3 g;
        foldM (\<lambda>i (node, func_id, g). do {
            (types_num, g) \<leftarrow> thread_gen_range R 8 10 g;
            let (child_func_sig, g) = generate_random_signature R candidate_types types_num False g;
            let func_id = Suc func_id;
            let child_func_name = User 1 func_id;
            let child_func = func_new child_func_name child_func_sig;
            let child_node = FunctionNode child_func child_func_sig child_func_name [];
            (child_node, func_id, g) \<leftarrow>
              generate_function_tree R child_node max_depth (Suc current_depth) func_id g;
            Some (add_child node child_node, func_id, g)
          }) [0..<num_children] (node, func_id, g)
      }
      else Some (node, func_id, g))"
  by pat_completeness auto
termination
  by (relation "measure (\<lambda>(R, node, max_depth, current_depth, func_id, g). max_depth - current_depth)") auto

declare generate_function_tree.simps [simp del]

definition generate_function_call_graph :: "('r, 'x) rand_scheme \<Rightarrow> 'r genv \<Rightarrow> (function_node \<times> 'r genv) option" where
  "generate_function_call_graph R g = do {
     let root_func_sig = \<lparr>sig_params = [], sig_returns = []\<rparr>;
     let root_func_name = Testcase ''main'';
     let root = FunctionNode (func_new root_func_name root_func_sig) root_func_sig root_func_name [];
     (root, func_id, g) \<leftarrow> generate_function_tree R root 4 0 0 g;
     Some (root, g)
   }"

end
