(* ===== verification/Function_Generator.thy ===== *)
theory Function_Generator
  imports Selector_Arms Dominators Call_Graph "HOL-Library.AList"
begin

text \<open>
  The function generator (\<open>crates/function-generator/src/lib.rs\<close>). A function whose control flow is
  built is filled block by block in depth first order (\<open>fill_block\<close>): the entry gets the parameters,
  two stack slots and a constant for every type, every block gets twenty calls of the selector, and a
  conditional branch gets a condition. Then blocks with several predecessors get parameters, the
  branches to them get arguments, and uses inside the block are replaced by parameters
  (\<open>join_block\<close>). Last, the block without successors gets the \<open>return\<close>.

  A \<open>HashMap\<close> from blocks is an association list, a \<open>HashSet\<close> of values a list without duplicates.
\<close>

subsection \<open>Constants\<close>

definition thread_gen_bool :: "('r, 'x) rand_scheme \<Rightarrow> 'r genv \<Rightarrow> bool \<times> 'r genv" where
  "thread_gen_bool R g = (let (b, r) = gen_bool R (rng_state g) in (b, g\<lparr>rng_state := r\<rparr>))"

definition thread_gen_range_int :: "('r, 'x) rand_scheme \<Rightarrow> int \<Rightarrow> int \<Rightarrow> 'r genv \<Rightarrow> int \<times> 'r genv" where
  "thread_gen_range_int R lo hi g = (let (i, r) = gen_range_int R lo hi (rng_state g) in (i, g\<lparr>rng_state := r\<rparr>))"

text \<open>An integer of \<open>w\<close> bits: the least or the greatest one, or one of the middle quarter.\<close>

definition edge_int :: "('r, 'x) rand_scheme \<Rightarrow> nat \<Rightarrow> 'r genv \<Rightarrow> int \<times> 'r genv" where
  "edge_int R w g =
     (let (pick_edge, g) = thread_gen_bool R g in
      if pick_edge then
        (let (least, g) = thread_gen_bool R g in (if least then - (2 ^ (w - 1)) else 2 ^ (w - 1) - 1, g))
      else thread_gen_range_int R (- (2 ^ (w - 3))) (2 ^ (w - 3) - 1) g)"

text \<open>The bits of the least and of the greatest finite float, or of a random one. A draw of a float
  is a draw of its bits.\<close>

definition edge_float :: "('r, 'x) rand_scheme \<Rightarrow> nat \<Rightarrow> nat \<Rightarrow> nat \<Rightarrow> 'r genv \<Rightarrow> nat \<times> 'r genv" where
  "edge_float R w least_bits greatest_bits g =
     (let (pick_edge, g) = thread_gen_bool R g in
      if pick_edge then
        (let (least, g) = thread_gen_bool R g in (if least then least_bits else greatest_bits, g))
      else thread_gen_bits R w g)"

definition edge_f16 :: "('r, 'x) rand_scheme \<Rightarrow> 'r genv \<Rightarrow> nat \<times> 'r genv" where
  "edge_f16 R = edge_float R 16 0xFBFF 0x7BFF"

definition edge_f32 :: "('r, 'x) rand_scheme \<Rightarrow> 'r genv \<Rightarrow> nat \<times> 'r genv" where
  "edge_f32 R = edge_float R 32 0xFF7FFFFF 0x7F7FFFFF"

definition edge_f64 :: "('r, 'x) rand_scheme \<Rightarrow> 'r genv \<Rightarrow> nat \<times> 'r genv" where
  "edge_f64 R = edge_float R 64 0xFFEFFFFFFFFFFFFF 0x7FEFFFFFFFFFFFFF"

definition gen_scalar_constant :: "('r, 'x) rand_scheme \<Rightarrow> clif_type \<Rightarrow> cursor \<Rightarrow> 'r genv \<Rightarrow> (val \<times> cursor \<times> 'r genv) option" where
  "gen_scalar_constant R t cur g =
     (if t \<in> set [I8, I16, I32, I64] then do {
        let (i, g) = edge_int R (type_bits t) g;
        (v, cur) \<leftarrow> ins_value ''iconst'' t [Imm64 i] [] cur;
        Some (v, cur, g)
      }
      else if t = I128 then do {
        let (i, g) = edge_int R 64 g;
        (v64, cur) \<leftarrow> ins_value ''iconst'' I64 [Imm64 i] [] cur;
        (v, cur) \<leftarrow> ins_value ''uextend'' I128 [] [v64] cur;
        Some (v, cur, g)
      }
      else if t = F16 then do {
        let (n, g) = edge_f16 R g;
        (v, cur) \<leftarrow> ins_value ''f16const'' F16 [FloatBits n] [] cur;
        Some (v, cur, g)
      }
      else if t = F32 then do {
        let (n, g) = edge_f32 R g;
        (v, cur) \<leftarrow> ins_value ''f32const'' F32 [FloatBits n] [] cur;
        Some (v, cur, g)
      }
      else if t = F64 then do {
        let (n, g) = edge_f64 R g;
        (v, cur) \<leftarrow> ins_value ''f64const'' F64 [FloatBits n] [] cur;
        Some (v, cur, g)
      }
      else None)"

text \<open>\<open>to_le_bytes\<close> of a signed integer of \<open>k\<close> bytes, and the bytes of a number of lanes.\<close>

definition int_bytes :: "nat \<Rightarrow> int \<Rightarrow> nat list" where
  "int_bytes k i = bytes_le k (nat (i mod 2 ^ (8 * k)))"

primrec draw_lanes :: "('r genv \<Rightarrow> nat list \<times> 'r genv) \<Rightarrow> nat \<Rightarrow> 'r genv \<Rightarrow> nat list \<times> 'r genv" where
  "draw_lanes lane 0 g = ([], g)"
| "draw_lanes lane (Suc n) g = (let (bs, g) = lane g; (rest, g) = draw_lanes lane n g in (bs @ rest, g))"

definition int_lane_bytes :: "('r, 'x) rand_scheme \<Rightarrow> nat \<Rightarrow> 'r genv \<Rightarrow> nat list \<times> 'r genv" where
  "int_lane_bytes R k g = (let (i, g) = edge_int R (8 * k) g in (int_bytes k i, g))"

definition float_lane_bytes :: "('r genv \<Rightarrow> nat \<times> 'r genv) \<Rightarrow> nat \<Rightarrow> 'r genv \<Rightarrow> nat list \<times> 'r genv" where
  "float_lane_bytes draw k g = (let (n, g) = draw g in (bytes_le k n, g))"

definition vector_bytes :: "('r, 'x) rand_scheme \<Rightarrow> clif_type \<Rightarrow> 'r genv \<Rightarrow> (nat list \<times> 'r genv) option" where
  "vector_bytes R t g =
     (if t = I8X16 then Some (draw_lanes (int_lane_bytes R 1) 16 g)
      else if t = I16X8 then Some (draw_lanes (int_lane_bytes R 2) 8 g)
      else if t = I32X4 then Some (draw_lanes (int_lane_bytes R 4) 4 g)
      else if t = I64X2 then Some (draw_lanes (int_lane_bytes R 8) 2 g)
      else if t = F16X8 then Some (draw_lanes (float_lane_bytes (edge_f16 R) 2) 8 g)
      else if t = F32X4 then Some (draw_lanes (float_lane_bytes (edge_f32 R) 4) 4 g)
      else if t = F64X2 then Some (draw_lanes (float_lane_bytes (edge_f64 R) 8) 2 g)
      else None)"

definition gen_constant :: "('r, 'x) rand_scheme \<Rightarrow> clif_type \<Rightarrow> cursor \<Rightarrow> 'r genv \<Rightarrow> (val \<times> cursor \<times> 'r genv) option" where
  "gen_constant R t cur g =
     (if t \<in> set [I8, I16, I32, I64, I128, F16, F32, F64] then gen_scalar_constant R t cur g
      else do {
        (bytes, g) \<leftarrow> vector_bytes R t g;
        (v, cur) \<leftarrow> ins_value ''vconst'' t [ConstBytes bytes] [] cur;
        Some (v, cur, g)
      })"

subsection \<open>Recorded values\<close>

type_synonym block_map = "(block \<times> typed_value list) list"

definition dom_list :: "dom_map \<Rightarrow> block \<Rightarrow> block list" where
  "dom_list doms b = (case map_of doms b of Some bs \<Rightarrow> sorted_list_of_set bs | None \<Rightarrow> [])"

definition env_at :: "dom_map \<Rightarrow> block_map \<Rightarrow> block \<Rightarrow> dom_env" where
  "env_at doms defs b = \<lparr>dominator_blocks = dom_list doms b, block_dominator_values = defs\<rparr>"

subsection \<open>The entry\<close>

text \<open>The parameters of the signature; their types need no constant.\<close>

definition entry_param :: "block \<Rightarrow> clif_type \<Rightarrow> cursor \<times> typed_value list \<times> operand_type list \<Rightarrow>
    (cursor \<times> typed_value list \<times> operand_type list) option" where
  "entry_param b t = (\<lambda>(cur, def_values, operand_types). do {
     (v, f) \<leftarrow> append_block_param b t (cur_func cur);
     Some (cur\<lparr>cur_func := f\<rparr>, List.insert (TypedValue v t) def_values,
           filter (\<lambda>ot. to_cranelift_type ot \<noteq> t) operand_types)
   })"

definition entry_constant :: "('r, 'x) rand_scheme \<Rightarrow> operand_type \<Rightarrow> cursor \<times> typed_value list \<times> 'r genv \<Rightarrow>
    (cursor \<times> typed_value list \<times> 'r genv) option" where
  "entry_constant R operand_type = (\<lambda>(cur, def_values, g). do {
     let t = to_cranelift_type operand_type;
     (v, cur, g) \<leftarrow> gen_constant R t cur g;
     Some (cur, List.insert (TypedValue v t) def_values, g)
   })"

text \<open>\<open>def_values.iter().find(..)\<close> returns some value of the type: the order of the set is unspecified,
  and the choice is a draw.\<close>

definition find_of_type :: "('r, 'x) rand_scheme \<Rightarrow> clif_type \<Rightarrow> typed_value list \<Rightarrow> 'r genv \<Rightarrow> (val \<times> 'r genv) option" where
  "find_of_type R t tvs g = do {
     (tv, g) \<leftarrow> thread_choose R (filter (\<lambda>tv. get_type tv = t) tvs) g;
     Some (get_value tv, g)
   }"

definition entry_stores :: "val \<Rightarrow> val \<Rightarrow> val \<Rightarrow> cursor \<Rightarrow> cursor option" where
  "entry_stores v ss0_addr ss1_addr cur = foldM (\<lambda>i cur. do {
      cur \<leftarrow> ins_plain ''store'' I64 [MemFlagsLE, Offset32 (int i * 8)] [v, ss0_addr] cur;
      ins_plain ''store'' I64 [MemFlagsLE, Offset32 (int i * 8)] [v, ss1_addr] cur
    }) [0..<4] cur"

definition entry_setup :: "('r, 'x) rand_scheme \<Rightarrow> arch_config \<Rightarrow> signature \<Rightarrow> block \<Rightarrow> cursor \<Rightarrow> 'r genv \<Rightarrow>
    (cursor \<times> typed_value list \<times> 'r genv) option" where
  "entry_setup R config sg b cur g = do {
     (cur, def_values, operand_types) \<leftarrow> foldM (entry_param b) (sig_params sg) (cur, [], cfg_operand_types config);
     let (ss0, f) = create_sized_stack_slot 32 (cur_func cur);
     let (ss1, f) = create_sized_stack_slot 32 f;
     (cur, def_values, g) \<leftarrow> foldM (entry_constant R) operand_types (cur\<lparr>cur_func := f\<rparr>, def_values, g);
     (ss0_addr, cur) \<leftarrow> ins_value ''stack_addr'' I64 [StackSlot ss0, Offset32 0] [] cur;
     (ss1_addr, cur) \<leftarrow> ins_value ''stack_addr'' I64 [StackSlot ss1, Offset32 0] [] cur;
     (i64_value, g) \<leftarrow> find_of_type R I64 def_values g;
     cur \<leftarrow> entry_stores i64_value ss0_addr ss1_addr cur;
     Some (cur, def_values, g)
   }"

subsection \<open>Filling a block\<close>

definition get_instr_snippet :: "inst_data list list" where
  "get_instr_snippet = map (\<lambda>i. map (\<lambda>j. Op ''iconst'' [Imm64 (int i + int j)] []) [0..<20]) [0..<5]"

definition record_result :: "sel_result \<Rightarrow> typed_value list \<times> typed_value list \<Rightarrow> typed_value list \<times> typed_value list" where
  "record_result res = (\<lambda>(def_values, ref_values). case res of
      None \<Rightarrow> (def_values, ref_values)
    | Some (new_val, ref_values_op) \<Rightarrow>
        (case new_val of None \<Rightarrow> def_values | Some tv \<Rightarrow> List.insert tv def_values,
         case ref_values_op of None \<Rightarrow> ref_values | Some tvs \<Rightarrow> fold List.insert tvs ref_values))"

definition populate_step :: "('r, 'x) rand_scheme \<Rightarrow> dom_env \<Rightarrow> arch_config \<Rightarrow> inst_data \<Rightarrow>
    cursor \<times> (typed_value list \<times> typed_value list) \<times> 'r genv \<Rightarrow>
    (cursor \<times> (typed_value list \<times> typed_value list) \<times> 'r genv) option" where
  "populate_step R D config instr = (\<lambda>(cur, vals, g). do {
     (res, cur, g) \<leftarrow> populate_block_instructions R D config cur g;
     Some (cur, record_result res vals, g)
   })"

definition set_inst :: "inst \<Rightarrow> inst_data \<Rightarrow> func \<Rightarrow> func" where
  "set_inst i d f = f\<lparr>dfg_insts := (dfg_insts f)[i := d]\<rparr>"

text \<open>The condition of a conditional branch, which replaces the parameter the construction used.\<close>

fun set_condition :: "val \<Rightarrow> inst_data \<Rightarrow> inst_data" where
  "set_condition v (Brif _ b1 b2) = Brif v b1 b2"
| "set_condition v (BranchTable _ t) = BranchTable v t"
| "set_condition v d = d"

fun is_conditional :: "inst_data \<Rightarrow> bool" where
  "is_conditional (Brif _ _ _) = True"
| "is_conditional (BranchTable _ _) = True"
| "is_conditional _ = False"

definition branch_condition :: "('r, 'x) rand_scheme \<Rightarrow> dom_env \<Rightarrow> block \<Rightarrow> cursor \<Rightarrow> 'r genv \<Rightarrow> (cursor \<times> 'r genv) option" where
  "branch_condition R D b cur g = do {
     cur \<leftarrow> goto_last_inst b cur;
     i \<leftarrow> current_inst cur;
     d \<leftarrow> nth_opt (dfg_insts (cur_func cur)) i;
     if is_conditional d then do {
       (v, g) \<leftarrow> get_random_cond_value R D g;
       let f = set_inst i (set_condition v d) (cur_func cur);
       block_params \<leftarrow> nth_opt (dfg_blocks f) b;
       f \<leftarrow> (if block_params \<noteq> [] then remove_block_param (block_params ! 0) f else Some f);
       Some (cur\<lparr>cur_func := f\<rparr>, g)
     }
     else Some (cur, g)
   }"

type_synonym 'r fill_state = "cursor \<times> block_map \<times> block_map \<times> 'r genv"

text \<open>An iteration of the first loop, up to the condition of the branch, and with it.\<close>

definition fill_body :: "('r, 'x) rand_scheme \<Rightarrow> arch_config \<Rightarrow> signature \<Rightarrow> dom_map \<Rightarrow> nat \<times> block \<Rightarrow> 'r fill_state \<Rightarrow>
    'r fill_state option" where
  "fill_body R config sg doms = (\<lambda>(i, b) (cur, defs, refs, g). do {
     cur \<leftarrow> goto_first_insertion_point b cur;
     (cur, def_values, defs, g) \<leftarrow>
       (if i = 0 then do {
          (cur, def_values, g) \<leftarrow> entry_setup R config sg b cur g;
          Some (cur, def_values, AList.update b def_values defs, g)
        }
        else Some (cur, [], defs, g));
     (k, g) \<leftarrow> gen_and_print_range R 0 5 False g;
     instr_snippet \<leftarrow> nth_opt get_instr_snippet k;
     (cur, (def_values, ref_values), g) \<leftarrow>
       foldM (populate_step R (env_at doms defs b) config) instr_snippet (cur, (def_values, []), g);
     let defs = AList.update b def_values defs;
     let refs = AList.update b ref_values refs;
     cur \<leftarrow> (if last_inst (cur_layout cur) b = None then ins_plain ''nop'' INVALID [] [] cur else Some cur);
     Some (cur, defs, refs, g)
   })"

definition fill_block :: "('r, 'x) rand_scheme \<Rightarrow> arch_config \<Rightarrow> signature \<Rightarrow> dom_map \<Rightarrow> nat \<times> block \<Rightarrow> 'r fill_state \<Rightarrow>
    'r fill_state option" where
  "fill_block R config sg doms = (\<lambda>(i, b) s. do {
     (cur, defs, refs, g) \<leftarrow> fill_body R config sg doms (i, b) s;
     (cur, g) \<leftarrow> branch_condition R (env_at doms defs b) b cur g;
     Some (cur, defs, refs, g)
   })"

subsection \<open>Joins\<close>

text \<open>The types of the values used in the first block that every other block of the list defines too.
  The caller passes the joining block alone: the closure that would append the predecessors is never
  run.\<close>

definition get_value_type_intersection :: "block list \<Rightarrow> block_map \<Rightarrow> block_map \<Rightarrow> clif_type list option" where
  "get_value_type_intersection blocks defs refs = do {
     b \<leftarrow> nth_opt blocks 0;
     ref_values \<leftarrow> map_of refs b;
     foldM (\<lambda>p types. do {
         def_values \<leftarrow> map_of defs p;
         Some (filter (\<lambda>t. t \<in> set (map get_type def_values)) types)
       }) (tl blocks) (remdups (map get_type ref_values))
   }"

definition join_param :: "block \<Rightarrow> clif_type \<Rightarrow> cursor \<times> block_map \<times> val list \<Rightarrow> (cursor \<times> block_map \<times> val list) option" where
  "join_param b t = (\<lambda>(cur, defs, params). do {
     (v, f) \<leftarrow> append_block_param b t (cur_func cur);
     node_defs \<leftarrow> map_of defs b;
     Some (cur\<lparr>cur_func := f\<rparr>, AList.update b (List.insert (TypedValue v t) node_defs) defs, params @ [v])
   })"

text \<open>One random value of each type.\<close>

fun pick_values :: "('r, 'x) rand_scheme \<Rightarrow> dom_env \<Rightarrow> clif_type list \<Rightarrow> 'r genv \<Rightarrow> (val list \<times> 'r genv) option" where
  "pick_values R D [] g = Some ([], g)"
| "pick_values R D (t # ts) g = do {
     (v, g) \<leftarrow> pick R (get_dominator_values_with_type D t) g;
     (vs, g) \<leftarrow> pick_values R D ts g;
     Some (v # vs, g)
   }"

text \<open>The calls of a jump table to \<open>b\<close>; the list of arguments is not emptied between two of them.\<close>

fun table_args :: "('r, 'x) rand_scheme \<Rightarrow> dom_env \<Rightarrow> block \<Rightarrow> clif_type list \<Rightarrow> val list \<Rightarrow> block_call list \<Rightarrow> 'r genv \<Rightarrow>
    (block_call list \<times> 'r genv) option" where
  "table_args R D b types block_args [] g = Some ([], g)"
| "table_args R D b types block_args (bc # bcs) g =
     (if bc_block bc = b then do {
        (vs, g) \<leftarrow> pick_values R D types g;
        (rest, g) \<leftarrow> table_args R D b types (block_args @ vs) bcs g;
        Some (BlockCall b (block_args @ vs) # rest, g)
      }
      else do {
        (rest, g) \<leftarrow> table_args R D b types block_args bcs g;
        Some (bc # rest, g)
      })"

definition pass_args :: "('r, 'x) rand_scheme \<Rightarrow> dom_map \<Rightarrow> block_map \<Rightarrow> block \<Rightarrow> clif_type list \<Rightarrow> block \<Rightarrow> cursor \<times> 'r genv \<Rightarrow>
    (cursor \<times> 'r genv) option" where
  "pass_args R doms defs b types p = (\<lambda>(cur, g). do {
     let D = env_at doms defs p;
     cur \<leftarrow> goto_last_inst p cur;
     i \<leftarrow> current_inst cur;
     d \<leftarrow> nth_opt (dfg_insts (cur_func cur)) i;
     case d of
       Jump bc \<Rightarrow> do {
         (vs, g) \<leftarrow> pick_values R D types g;
         Some (cur\<lparr>cur_func := set_inst i (Jump (BlockCall (bc_block bc) vs)) (cur_func cur)\<rparr>, g)
       }
     | Brif v b1 b2 \<Rightarrow> do {
         (vs, g) \<leftarrow> pick_values R D types g;
         let d = (if bc_block b2 = b then Brif v b1 (BlockCall (bc_block b2) vs)
                  else Brif v (BlockCall (bc_block b1) vs) b2);
         Some (cur\<lparr>cur_func := set_inst i d (cur_func cur)\<rparr>, g)
       }
     | BranchTable v t \<Rightarrow> do {
         jt \<leftarrow> nth_opt (jump_tables (cur_func cur)) t;
         (bcs, g) \<leftarrow> table_args R D b types [] (all_branches jt) g;
         let jt' = \<lparr>jt_default = hd bcs, jt_table = tl bcs\<rparr>;
         Some (cur\<lparr>cur_func := (cur_func cur)\<lparr>jump_tables := (jump_tables (cur_func cur))[t := jt']\<rparr>\<rparr>, g)
       }
     | _ \<Rightarrow> None
   })"

text \<open>Uses are replaced with odds of three in ten; operations on memory keep their operands.\<close>

definition memory_opcodes :: "opcode list" where
  "memory_opcodes = [''load'', ''store'', ''uload8'', ''sload8'', ''istore8'', ''uload16'', ''sload16'', ''istore16'',
     ''uload32'', ''sload32'', ''istore32'', ''uload8x8'', ''sload8x8'', ''uload16x4'', ''sload16x4'', ''uload32x2'',
     ''sload32x2'', ''stack_load'', ''stack_store'', ''dynamic_stack_load'', ''dynamic_stack_store'', ''atomic_load'',
     ''atomic_store'', ''atomic_rmw'', ''atomic_cas'']"

fun replace_arg :: "('r, 'x) rand_scheme \<Rightarrow> nat \<Rightarrow> clif_type \<Rightarrow> (clif_type \<times> val) list \<Rightarrow> val \<Rightarrow> 'r genv \<Rightarrow> (val \<times> 'r genv) option" where
  "replace_arg R odds t [] arg g = Some (arg, g)"
| "replace_arg R odds t ((p, v) # ps) arg g =
     (if p = t then do {
        (n, g) \<leftarrow> thread_gen_range R 0 10 g;
        replace_arg R odds t ps (if n < odds then v else arg) g
      }
      else replace_arg R odds t ps arg g)"

fun replace_args :: "('r, 'x) rand_scheme \<Rightarrow> nat \<Rightarrow> func \<Rightarrow> (clif_type \<times> val) list \<Rightarrow> val list \<Rightarrow> 'r genv \<Rightarrow> (val list \<times> 'r genv) option" where
  "replace_args R odds f ps [] g = Some ([], g)"
| "replace_args R odds f ps (arg # args) g = do {
     t \<leftarrow> value_type f arg;
     (arg, g) \<leftarrow> replace_arg R odds t ps arg g;
     (args, g) \<leftarrow> replace_args R odds f ps args g;
     Some (arg # args, g)
   }"

text \<open>Operands in the instruction itself; those of \<open>call\<close> and \<open>return\<close> are in the pool of value lists,
  of which the joins only change a copy.\<close>

fun set_inline_arguments :: "val list \<Rightarrow> inst_data \<Rightarrow> inst_data" where
  "set_inline_arguments vs (Brif _ b1 b2) = Brif (hd vs) b1 b2"
| "set_inline_arguments vs (BranchTable _ t) = BranchTable (hd vs) t"
| "set_inline_arguments vs (Op m imms _) = Op m imms vs"
| "set_inline_arguments vs d = d"

partial_function (option) replace_uses :: "('r, 'x) rand_scheme \<Rightarrow> (clif_type \<times> val) list \<Rightarrow> cursor \<Rightarrow> 'r genv \<Rightarrow> (cursor \<times> 'r genv) option" where
  [code]: "replace_uses R ps cur g = do {
     (next, cur) \<leftarrow> next_inst cur;
     case next of
       None \<Rightarrow> Some (cur, g)
     | Some i \<Rightarrow> do {
         d \<leftarrow> nth_opt (dfg_insts (cur_func cur)) i;
         if inst_opcode d \<in> set memory_opcodes then replace_uses R ps cur g
         else do {
           (args, g) \<leftarrow> replace_args R 3 (cur_func cur) ps (arguments d) g;
           replace_uses R ps (cur\<lparr>cur_func := set_inst i (set_inline_arguments args d) (cur_func cur)\<rparr>) g
         }
       }
   }"

definition join_block :: "('r, 'x) rand_scheme \<Rightarrow> dom_map \<Rightarrow> block_map \<Rightarrow> block \<Rightarrow> cursor \<times> block_map \<times> 'r genv \<Rightarrow>
    (cursor \<times> block_map \<times> 'r genv) option" where
  "join_block R doms refs b = (\<lambda>(cur, defs, g). do {
     cfg \<leftarrow> with_function (cur_func cur);
     let pre_blocks = map fst (pred_iter cfg b);
     if 2 \<le> length pre_blocks then do {
       types \<leftarrow> get_value_type_intersection [b] defs refs;
       let (types, g) = thread_choose_multiple R types (length types) g;
       (cur, defs, params) \<leftarrow> foldM (join_param b) types (cur, defs, []);
       (cur, g) \<leftarrow> foldM (pass_args R doms defs b types) pre_blocks (cur, g);
       cur \<leftarrow> goto_first_inst b cur;
       (cur, g) \<leftarrow> replace_uses R (zip types params) cur g;
       Some (cur, defs, g)
     }
     else Some (cur, defs, g)
   })"

subsection \<open>The generator\<close>

definition last_block_of :: "func \<Rightarrow> block list \<Rightarrow> block option" where
  "last_block_of f dfs_order = do {
     cfg \<leftarrow> with_function f;
     find (\<lambda>b. succ_iter cfg b = []) dfs_order
   }"

definition main_signature :: "('r, 'x) rand_scheme \<Rightarrow> 'r genv \<Rightarrow> (signature \<times> 'r genv) option" where
  "main_signature R g = do {
     (n, g) \<leftarrow> thread_gen_range R 8 10 g;
     Some (generate_random_signature R candidate_types n True g)
   }"

definition add_return :: "('r, 'x) rand_scheme \<Rightarrow> dom_map \<Rightarrow> block_map \<Rightarrow> signature \<Rightarrow> block list \<Rightarrow> cursor \<Rightarrow> 'r genv \<Rightarrow>
    (cursor \<times> 'r genv) option" where
  "add_return R doms defs sg dfs_order cur g = do {
     b \<leftarrow> last_block_of (cur_func cur) dfs_order;
     if sig_returns sg \<noteq> [] then do {
       (vs, g) \<leftarrow> pick_values R (env_at doms defs b) (sig_returns sg) g;
       cur \<leftarrow> goto_bottom b cur;
       cur \<leftarrow> ins_return vs cur;
       Some (cur, g)
     }
     else Some (cur, g)
   }"

text \<open>The first loop, with the traversal order and the dominators it starts from.\<close>

definition fill_blocks :: "('r, 'x) rand_scheme \<Rightarrow> arch_config \<Rightarrow> func \<Rightarrow> 'r genv \<Rightarrow>
    (block list \<times> dom_map \<times> 'r fill_state) option" where
  "fill_blocks R config f g = do {
     entry \<leftarrow> entry_block (fn_layout f);
     cfg \<leftarrow> with_function f;
     dfs_order \<leftarrow> dfs cfg entry;
     doms \<leftarrow> compute_dominators f;
     s \<leftarrow> foldM (fill_block R config (fn_sig f) doms) (enumerate 0 dfs_order) (cursor_new f, [], [], g);
     Some (dfs_order, doms, s)
   }"

definition function_generator :: "('r, 'x) rand_scheme \<Rightarrow> arch_config \<Rightarrow> bool \<Rightarrow> func \<Rightarrow> 'r genv \<Rightarrow>
    (func \<times> dom_map \<times> block_map \<times> 'r genv) option" where
  "function_generator R config is_root_func f g = do {
     (dfs_order, doms, cur, defs, refs, g) \<leftarrow> fill_blocks R config f g;
     (cur, defs, g) \<leftarrow> foldM (join_block R doms refs) dfs_order (cur, defs, g);
     (sg, cur, g) \<leftarrow>
       (if is_root_func then do {
          (sg, g) \<leftarrow> main_signature R g;
          Some (sg, cur\<lparr>cur_func := (cur_func cur)\<lparr>fn_sig := sg\<rparr>\<rparr>, g)
        }
        else Some (fn_sig f, cur, g));
     (cur, g) \<leftarrow> add_return R doms defs sg dfs_order cur g;
     Some (cur_func cur, doms, defs, g)
   }"

subsection \<open>Calls\<close>

type_synonym generated = "func \<times> dom_map \<times> block_map"

definition get_dominated_blocks :: "block \<Rightarrow> dom_map \<Rightarrow> block list" where
  "get_dominated_blocks b doms = map fst (filter (\<lambda>(k, bs). b \<in> bs) doms)"

fun set_arguments :: "val list \<Rightarrow> inst_data \<Rightarrow> inst_data" where
  "set_arguments vs (Brif _ b1 b2) = Brif (hd vs) b1 b2"
| "set_arguments vs (BranchTable _ t) = BranchTable (hd vs) t"
| "set_arguments vs (Call fr _) = Call fr vs"
| "set_arguments vs (Return _) = Return vs"
| "set_arguments vs (Op m imms _) = Op m imms vs"
| "set_arguments vs (Jump bc) = Jump bc"

definition import_function :: "signature \<Rightarrow> func_name \<Rightarrow> func \<Rightarrow> nat \<times> func" where
  "import_function sg nm f =
     (length (ext_funcs f),
      f\<lparr>signatures := signatures f @ [sg], ext_funcs := ext_funcs f @ [\<lparr>ef_name = nm, ef_sig = length (signatures f)\<rparr>]\<rparr>)"

text \<open>\<open>for next_instr in func_cursor.next_inst()\<close> runs over an \<open>Option\<close>: only the second instruction of
  the block is considered.\<close>

definition use_results :: "('r, 'x) rand_scheme \<Rightarrow> inst \<Rightarrow> block \<Rightarrow> cursor \<Rightarrow> 'r genv \<Rightarrow> (cursor \<times> 'r genv) option" where
  "use_results R call_inst b cur g = do {
     cur \<leftarrow> goto_first_inst b cur;
     (next, cur) \<leftarrow> next_inst cur;
     case next of
       None \<Rightarrow> Some (cur, g)
     | Some i \<Rightarrow> do {
         d \<leftarrow> nth_opt (dfg_insts (cur_func cur)) i;
         if inst_opcode d \<in> set memory_opcodes then Some (cur, g)
         else do {
           call_results \<leftarrow> nth_opt (dfg_results (cur_func cur)) call_inst;
           types \<leftarrow> those (map (value_type (cur_func cur)) call_results);
           (args, g) \<leftarrow> replace_args R 2 (cur_func cur) (zip types call_results) (arguments d) g;
           Some (cur\<lparr>cur_func := set_inst i (set_arguments args d) (cur_func cur)\<rparr>, g)
         }
       }
   }"

definition insert_call :: "('r, 'x) rand_scheme \<Rightarrow> signature \<Rightarrow> nat \<Rightarrow> generated \<Rightarrow> cursor \<times> 'r genv \<Rightarrow> (cursor \<times> 'r genv) option" where
  "insert_call R sg child_func_ref = (\<lambda>(function, doms, defs) (cur, g).
     if fn_name (cur_func cur) = fn_name function then do {
       let all_blocks = sort (map fst doms);
       (inserted_block, g) \<leftarrow> (if all_blocks = [] then None else thread_choose R (tl all_blocks) g);
       let dominated_blocks = removeAll inserted_block (get_dominated_blocks inserted_block doms);
       cur \<leftarrow> goto_last_inst inserted_block cur;
       (call_params, g) \<leftarrow> pick_values R (env_at doms defs inserted_block) (sig_params sg) g;
       (call_inst, cur) \<leftarrow> ins_call child_func_ref call_params cur;
       if dominated_blocks = [] then Some (cur, g)
       else do {
         (modified_block, g) \<leftarrow> thread_choose R dominated_blocks g;
         use_results R call_inst modified_block cur g
       }
     }
     else Some (cur, g))"

definition invoke_child :: "('r, 'x) rand_scheme \<Rightarrow> generated list \<Rightarrow> func \<Rightarrow> func \<times> 'r genv \<Rightarrow> (func \<times> 'r genv) option" where
  "invoke_child R entries child_func = (\<lambda>(f, g). do {
     let sg = fn_sig child_func;
     nm \<leftarrow> (case fn_name child_func of User ns i \<Rightarrow> Some (User ns i) | Testcase _ \<Rightarrow> None);
     let (child_func_ref, f) = import_function sg nm f;
     (cur, g) \<leftarrow> foldM (insert_call R sg child_func_ref) entries (cursor_new f, g);
     Some (cur_func cur, g)
   })"

fun insert_function_invocation :: "('r, 'x) rand_scheme \<Rightarrow> generated list \<Rightarrow> function_node \<Rightarrow> 'r genv \<Rightarrow> (function_node \<times> 'r genv) option" where
  "insert_function_invocation R entries (FunctionNode f sg nm cs) g = do {
     (f, g) \<leftarrow> foldM (invoke_child R entries) (get_child_funcs_clone (FunctionNode f sg nm cs)) (f, g);
     Some (FunctionNode f sg nm cs, g)
   }"

end
