(* ===== verification/Ir_Generator.thy ===== *)
theory Ir_Generator
  imports Cf_Constructor Function_Generator
begin

text \<open>
  The driver (\<open>src/bin/ir_generator.rs\<close>): one module is a call graph whose functions are built,
  filled and connected by calls in post order, and written behind each other; every module goes to
  three files, one for each optimisation level. The loop runs until the number of modules is reached,
  in the mode for one architecture and in the mode for several.

  Parameters stand for the writer of functions (\<open>write_function\<close> of the code generator), for reading
  and parsing configurations, for creating directories and for the database of documents, whose
  content the generator does not use. \<open>File::create\<close> and \<open>write_all\<close> are taken to succeed.
\<close>

subsection \<open>Modules\<close>

fun set_node_func :: "func \<Rightarrow> function_node \<Rightarrow> function_node" where
  "set_node_func f (FunctionNode _ s n cs) = FunctionNode f s n cs"

definition newline :: string where
  "newline = [CHR 0x0A]"

text \<open>A function other than the root: the iteration over \<open>rest\<close>.\<close>

definition generate_rest :: "(func \<Rightarrow> string) \<Rightarrow> ('r, 'x) rand_scheme \<Rightarrow> arch_config \<Rightarrow> function_node \<Rightarrow>
    string \<times> generated list \<times> 'r genv \<Rightarrow> (string \<times> generated list \<times> 'r genv) option" where
  "generate_rest write_function R config func_node = (\<lambda>(clif_output, entries, g). do {
     (func, g) \<leftarrow> cf_construct R (node_func func_node) None 0 g;
     (func, doms, defs, g) \<leftarrow> function_generator R config False func g;
     let entries = entries @ [(func, doms, defs)];
     (func_node, g) \<leftarrow> insert_function_invocation R entries (set_node_func func func_node) g;
     Some (clif_output @ write_function (node_func func_node), entries, g)
   })"

definition generate_module :: "(func \<Rightarrow> string) \<Rightarrow> ('r, 'x) rand_scheme \<Rightarrow> arch_config \<Rightarrow> 'r genv \<Rightarrow> (string \<times> 'r genv) option" where
  "generate_module write_function R config g = do {
     (root, g) \<leftarrow> generate_function_call_graph R g;
     (func, g) \<leftarrow> cf_construct R (node_func root) None 0 g;
     (func, doms, defs, g) \<leftarrow> function_generator R config True func g;
     let root = set_node_func func root;
     let order = cg_post_order_traversal root;
     (clif_output, g) \<leftarrow>
       (if order = [] then Some (newline, g)
        else do {
          (clif_output, entries, g) \<leftarrow>
            foldM (generate_rest write_function R config) (butlast order) (newline, [(func, doms, defs)], g);
          (root, g) \<leftarrow> insert_function_invocation R entries root g;
          Some (clif_output @ write_function (node_func root), g)
        });
     Some (clif_output @ newline @ newline @ ''; print: %main()'', g)
   }"

subsection \<open>Files\<close>

fun decimal :: "nat \<Rightarrow> string" where
  "decimal n = (if n < 10 then [char_of (48 + n)] else decimal (n div 10) @ [char_of (48 + n mod 10)])"

declare decimal.simps [simp del]

definition path_join :: "string \<Rightarrow> string \<Rightarrow> string" where
  "path_join p q = (if q \<noteq> [] \<and> hd q = CHR ''/'' then q else if p = [] \<or> last p = CHR ''/'' then p @ q else p @ ''/'' @ q)"

definition tests_str :: "arch_config \<Rightarrow> string" where
  "tests_str config = ''test '' @ concat (map (\<lambda>test. '' '' @ test) (cfg_tests config))"

definition config_sets_str :: "arch_config \<Rightarrow> string" where
  "config_sets_str config = concat (map (\<lambda>(key, v). newline @ ''set '' @ key @ ''='' @ v) (cfg_config_sets config))"

definition target_str :: "arch_config \<Rightarrow> string" where
  "target_str config = concat (map (\<lambda>target. newline @ ''target '' @ target) (cfg_target config))"

definition clif_header :: "arch_config \<Rightarrow> string \<Rightarrow> string" where
  "clif_header config level =
     tests_str config @ newline @ config_sets_str config @ newline @ ''set opt_level='' @ level @ newline @ target_str config"

definition clif_name :: "nat \<Rightarrow> string \<Rightarrow> string" where
  "clif_name fileid level = ''cranelift_ir_'' @ decimal fileid @ ''_'' @ level @ ''.clif''"

definition opt_levels :: "string list" where
  "opt_levels = [''none'', ''speed'', ''speed_and_size'']"

type_synonym clif_file = "string \<times> string"

definition write_levels :: "arch_config \<Rightarrow> string \<Rightarrow> nat \<Rightarrow> string \<Rightarrow> clif_file list" where
  "write_levels config path fileid clif_output =
     map (\<lambda>level. (path_join path (clif_name fileid level), clif_header config level @ clif_output)) opt_levels"

subsection \<open>The loops\<close>

function generate_loop :: "(nat \<Rightarrow> 'r genv \<Rightarrow> (clif_file list \<times> 'r genv) option) \<Rightarrow> nat \<Rightarrow> nat \<Rightarrow> 'r genv \<Rightarrow> (clif_file list \<times> 'r genv) option" where
  "generate_loop body num fileid g = do {
     (files, g) \<leftarrow> body fileid g;
     if num \<le> Suc fileid then Some (files, g)
     else do {
       (rest, g) \<leftarrow> generate_loop body num (Suc fileid) g;
       Some (files @ rest, g)
     }
   }"
  by pat_completeness auto
termination
  by (relation "measure (\<lambda>(body, num, fileid, g). num - fileid)") auto

declare generate_loop.simps [simp del]

text \<open>\<open>load_all_documents().unwrap()\<close> panics without the database.\<close>

definition generate_ir :: "('e + 'd) \<Rightarrow> (func \<Rightarrow> string) \<Rightarrow> ('r, 'x) rand_scheme \<Rightarrow> arch_config \<Rightarrow> string \<Rightarrow> nat \<Rightarrow> 'r genv \<Rightarrow>
    (clif_file list \<times> 'r genv) option" where
  "generate_ir documents write_function R config path num g =
     (case documents of
        Inl _ \<Rightarrow> None
      | Inr _ \<Rightarrow> generate_loop (\<lambda>fileid g. do {
            (clif_output, g) \<leftarrow> generate_module write_function R config g;
            Some (write_levels config path fileid clif_output, g)
          }) num 0 (initialize_rng g))"

definition generate_ir_intersection :: "('e + 'd) \<Rightarrow> (func \<Rightarrow> string) \<Rightarrow> ('r, 'x) rand_scheme \<Rightarrow> arch_config list \<Rightarrow> string \<Rightarrow> nat \<Rightarrow>
    'r genv \<Rightarrow> (clif_file list \<times> 'r genv) option" where
  "generate_ir_intersection documents write_function R configs path num g =
     (case documents of
        Inl _ \<Rightarrow> None
      | Inr _ \<Rightarrow> generate_loop (\<lambda>fileid g. do {
            config \<leftarrow> nth_opt configs 0;
            (clif_output, g) \<leftarrow> generate_module write_function R config g;
            Some (concat (map (\<lambda>config. write_levels config (path_join path (cfg_arch config)) fileid clif_output) configs), g)
          }) num 0 (initialize_rng g))"

subsection \<open>The program\<close>

record cli =
  cli_mode :: string
  cli_config_paths :: "string list"
  cli_num :: nat
  cli_output_path :: string

text \<open>The configurations of the compatible mode: the intersection under the architecture, tests, sets
  and targets of each file.\<close>

definition specialise :: "arch_config \<Rightarrow> arch_config \<Rightarrow> arch_config" where
  "specialise common config = build_instruction_map (common\<lparr>cfg_arch := cfg_arch config, cfg_tests := cfg_tests config,
     cfg_config_sets := cfg_config_sets config, cfg_target := cfg_target config\<rparr>)"

text \<open>A result \<open>Inl\<close> is the message \<open>main\<close> returns; \<open>None\<close> is a panic.\<close>

definition run_main :: "(string \<Rightarrow> string + arch_config) \<Rightarrow> (string \<Rightarrow> string option) \<Rightarrow> ('e + 'd) \<Rightarrow> (func \<Rightarrow> string) \<Rightarrow> ('r, 'x) rand_scheme \<Rightarrow>
    cli \<Rightarrow> 'r genv \<Rightarrow> (string + clif_file list) option" where
  "run_main read_config create_dir documents write_function R args g =
     (if cli_mode args = ''single'' then do {
        config_path \<leftarrow> nth_opt (cli_config_paths args) 0;
        config \<leftarrow> load_config read_config config_path;
        let config = build_instruction_map config;
        case create_dir (cli_output_path args) of
          Some e \<Rightarrow> Some (Inl (''Failed to create output dir: '' @ e))
        | None \<Rightarrow> do {
            (files, g) \<leftarrow> generate_ir documents write_function R config (cli_output_path args) (cli_num args) g;
            Some (Inr files)
          }
      }
      else if cli_mode args = ''compatible'' then do {
        common \<leftarrow> config_intersection read_config (cli_config_paths args);
        case common of
          Inl e \<Rightarrow> Some (Inl (''Failed to compute config intersection: '' @ e))
        | Inr common \<Rightarrow>
            (case create_dir (cli_output_path args) of
               Some e \<Rightarrow> Some (Inl (''Failed to create output dir: '' @ e))
             | None \<Rightarrow> do {
                 configs \<leftarrow> those (map (\<lambda>p. map_option (specialise common) (load_config read_config p)) (cli_config_paths args));
                 (files, g) \<leftarrow> generate_ir_intersection documents write_function R configs (cli_output_path args) (cli_num args) g;
                 Some (Inr files)
               })
      }
      else Some (Inl (''Unknown mode: '' @ cli_mode args)))"

end
