(* ===== verification/Heads.thy ===== *)
theory Heads
  imports Ir_Generator
begin

text \<open>
  The name, the signature and the imports of a function are its head. Building the control flow keeps
  the head, and inserting the calls to a list of functions imports exactly these, in their order, each
  with its own signature.
\<close>

definition head_of :: "func \<Rightarrow> func_name \<times> signature \<times> ext_func list \<times> signature list" where
  "head_of f = (fn_name f, fn_sig f, ext_funcs f, signatures f)"

abbreviation head :: "cursor \<Rightarrow> func_name \<times> signature \<times> ext_func list \<times> signature list" where
  "head c \<equiv> head_of (cur_func c)"

lemma head_of_updates [simp]:
  "head_of (fn_layout_update u f) = head_of f" "head_of (dfg_insts_update v f) = head_of f" "head_of (dfg_blocks_update w f) = head_of f"
  "head_of (dfg_results_update w f) = head_of f" "head_of (dfg_values_update x f) = head_of f" "head_of (jump_tables_update y f) = head_of f"
  by (simp_all add: head_of_def)

subsection \<open>The builder\<close>

lemma head_make_blocks: "head_of (snd (make_blocks n f)) = head_of f"
  by (induction n arbitrary: f) (auto simp: make_block_def Let_def split: prod.splits, metis head_of_updates(3) snd_conv)

lemma head_append_block_param: "append_block_param b t f = Some (v, f') \<Longrightarrow> head_of f' = head_of f"
  by (auto simp: append_block_param_def Let_def split: option.splits)

lemma head_insert_inst: "insert_inst i c = Some c' \<Longrightarrow> head c' = head c"
  by (auto simp: insert_inst_def set_layout_def split: cursor_position.splits)

lemma head_build_inst: "build_inst d tys c = Some (i, c') \<Longrightarrow> head c' = head c"
  by (auto simp: build_inst_def Let_def make_inst_def make_inst_results_def dest!: head_insert_inst)

lemma head_ins:
  "ins_jump b vs c = Some c' \<Longrightarrow> head c' = head c" "ins_brif v b1 b2 c = Some c' \<Longrightarrow> head c' = head c"
  "ins_br_table v t c = Some c' \<Longrightarrow> head c' = head c" "ins_call r vs c = Some (i, c') \<Longrightarrow> head c' = head c"
  by (auto simp: ins_jump_def ins_brif_def ins_br_table_def ins_call_def bind_eq_Some_conv dest!: head_build_inst)

lemma head_next_inst: "next_inst c = Some (i, c') \<Longrightarrow> head c' = head c"
  by (auto simp: next_inst_def Let_def bind_eq_Some_conv simp del: current_inst.simps split: option.splits)

lemma head_goto:
  "goto_bottom b c = Some c' \<Longrightarrow> head c' = head c" "goto_first_inst b c = Some c' \<Longrightarrow> head c' = head c"
  "goto_last_inst b c = Some c' \<Longrightarrow> head c' = head c" "cur_insert_block b c = Some c' \<Longrightarrow> head c' = head c"
  by (auto simp: goto_bottom_def goto_first_inst_def goto_last_inst_def goto_inst_def cur_insert_block_def set_layout_def
      bind_eq_Some_conv split: if_splits cursor_position.splits)

lemma head_remove_inst: "remove_inst c = Some c' \<Longrightarrow> head c' = head c"
  by (auto simp: remove_inst_def set_layout_def bind_eq_Some_conv dest!: head_next_inst)

lemmas head_steps = head_append_block_param head_ins head_goto head_next_inst head_remove_inst

lemma head_foldM: "foldM s xs c = Some c' \<Longrightarrow> (\<And>x c c'. s x c = Some c' \<Longrightarrow> head c' = head c) \<Longrightarrow> head c' = head c"
  by (induction xs arbitrary: c) (auto simp: bind_eq_Some_conv)

subsection \<open>The control flow\<close>

lemma head_sequential: "sequential n f = Some (s, f') \<Longrightarrow> head_of f' = head_of f"
  using head_make_blocks [of n f]
  by (auto simp: sequential_def bind_eq_Some_conv cursor_new_def split: if_splits prod.splits dest!: head_foldM head_steps)

lemma head_if_else: "if_else f = Some (s, f') \<Longrightarrow> head_of f' = head_of f"
  by (auto simp: if_else_def make_block_def bind_eq_Some_conv cursor_new_def dest!: head_steps)

lemma head_while_blocks: "while_blocks f = Some (s, f') \<Longrightarrow> head_of f' = head_of f"
  by (auto simp: while_blocks_def make_block_def bind_eq_Some_conv cursor_new_def dest!: head_steps)

lemma head_switch_blocks: "switch_blocks n f = Some (s, f') \<Longrightarrow> head_of f' = head_of f"
  by (auto simp: switch_blocks_def make_block_def create_jump_table_def bind_eq_Some_conv cursor_new_def split: prod.splits
      dest!: head_foldM head_steps)
    (metis head_make_blocks head_of_updates(3) snd_conv)+

lemma head_last_control: "get_block_last_control_instr b c = Some (d, c') \<Longrightarrow> head c' = head c"
  by (auto simp: get_block_last_control_instr_def bind_eq_Some_conv split: option.splits)

lemma head_update_predecessor_block: "update_predecessor_block b r p c = Some c' \<Longrightarrow> head c' = head c"
  by (auto simp: update_predecessor_block_def Let_def elim!: bindE split: inst_data.split_asm if_split_asm dest!: head_last_control head_steps)

lemma head_update_predecessor: "update_predecessor b r f = Some f' \<Longrightarrow> head_of f' = head_of f"
  by (auto simp: update_predecessor_def bind_eq_Some_conv cursor_new_def dest!: head_foldM head_update_predecessor_block)

lemma head_update_successor: "update_successor b r f = Some f' \<Longrightarrow> head_of f' = head_of f"
  by (auto simp: update_successor_def create_jump_table_def Let_def cursor_new_def elim!: bindE split: inst_data.split_asm if_split_asm option.split_asm
      dest!: head_last_control head_steps)

lemma head_cf_shape: "cf_shape R k f g = Some (s, f', g') \<Longrightarrow> head_of f' = head_of f"
  by (auto simp: cf_shape_def bind_eq_Some_conv split: if_splits dest!: head_sequential head_if_else head_while_blocks head_switch_blocks)

lemma head_cf_nested: "cf_nested R p f g = Some (s, f', g') \<Longrightarrow> head_of f' = head_of f"
  by (auto simp: cf_nested_def cf_replace_def Let_def bind_eq_Some_conv split: if_splits option.splits block_type.splits
      dest!: head_cf_shape head_update_predecessor head_update_successor)

lemma head_cf_root: "cf_root R f g = Some (s, f', g') \<Longrightarrow> head_of f' = head_of f"
  by (auto simp: cf_root_def make_block_def cursor_new_def bind_eq_Some_conv split: option.splits dest!: head_cf_shape head_steps)

lemma head_cf_level: "cf_level R p f g = Some (s, f', g') \<Longrightarrow> head_of f' = head_of f"
  by (auto simp: cf_level_def split: option.splits block_type.splits dest!: head_cf_root head_cf_nested)

theorem head_cf_construct: "cf_construct R f p d g = Some (f', g') \<Longrightarrow> head_of f' = head_of f"
proof (induction R f p d g rule: cf_construct.induct)
  case (1 R f p d g)
  from "1.prems" obtain s f1 g1 where l: "cf_level R p f g = Some (s, f1, g1)"
    "(if MAX_DEPTH \<le> d then Some (f1, g1) else case s of None \<Rightarrow> Some (f1, g1) | Some s \<Rightarrow> cf_construct R f1 (Some s) (Suc d) g1) = Some (f', g')"
    by (subst (asm) cf_construct.simps) (auto simp: bind_eq_Some_conv)
  have "head_of f' = head_of f1" using l "1.IH" by (auto split: if_splits option.splits)
  then show ?case using head_cf_level [OF l(1)] by simp
qed

subsection \<open>Calls\<close>

lemma head_use_results: "use_results R i b c g = Some (c', g') \<Longrightarrow> head c' = head c"
  by (auto simp: use_results_def set_inst_def bind_eq_Some_conv split: option.splits if_splits dest!: head_steps)

lemma head_insert_call: "insert_call R sg r e (c, g) = Some (c', g') \<Longrightarrow> head c' = head c"
  by (cases e) (auto simp: insert_call_def Let_def bind_eq_Some_conv split: if_splits dest!: head_use_results head_steps)

lemma head_insert_calls: "foldM (insert_call R sg r) es (c, g) = Some (c', g') \<Longrightarrow> head c' = head c"
  by (induction es arbitrary: c g) (auto simp: bind_eq_Some_conv dest!: head_insert_call)

definition imports_of :: "func list \<Rightarrow> nat \<Rightarrow> ext_func list" where
  "imports_of hs n = map (\<lambda>(k, h). \<lparr>ef_name = fn_name h, ef_sig = k\<rparr>) (enumerate n hs)"

lemma invoke_child_imports:
  assumes "invoke_child R es h (f, g) = Some (f', g')"
  shows "ext_funcs f' = ext_funcs f @ imports_of [h] (length (signatures f))" and "signatures f' = signatures f @ [fn_sig h]"
proof -
  obtain nm r f1 c' where "fn_name h = nm" "import_function (fn_sig h) nm f = (r, f1)"
    "foldM (insert_call R (fn_sig h) r) es (cursor_new f1, g) = Some (c', g')" "f' = cur_func c'"
    using assms by (auto simp: invoke_child_def Let_def elim!: bindE split: func_name.split_asm prod.split_asm)
  then show "ext_funcs f' = ext_funcs f @ imports_of [h] (length (signatures f))" "signatures f' = signatures f @ [fn_sig h]"
    by (auto simp: import_function_def cursor_new_def head_of_def imports_of_def dest!: head_insert_calls)
qed

lemma invoke_children_imports:
  "foldM (invoke_child R es) hs (f, g) = Some (f', g') \<Longrightarrow>
    ext_funcs f' = ext_funcs f @ imports_of hs (length (signatures f)) \<and> signatures f' = signatures f @ map fn_sig hs"
proof (induction hs arbitrary: f g)
  case (Cons h hs)
  then obtain f1 g1 where f1: "invoke_child R es h (f, g) = Some (f1, g1)" "foldM (invoke_child R es) hs (f1, g1) = Some (f', g')"
    by (auto simp: bind_eq_Some_conv)
  then show ?case using Cons.IH [OF f1(2)] invoke_child_imports [OF f1(1)] by (simp add: imports_of_def)
qed (simp add: imports_of_def)

end
