(* ===== verification/Cf_View.thy ===== *)
theory Cf_View
  imports Cf_Constructor
begin

text \<open>
  A functional view of functions during the construction of control flow. While shapes are built,
  every block holds at most its branch, so a function is described by the list of its blocks and the
  branch of each block. The three updates \<open>add_block\<close>, \<open>set_term\<close> and \<open>del_term\<close> are what the cursor
  operations of the constructor amount to on such functions.
\<close>

subsection \<open>Branches\<close>

definition term_of :: "func \<Rightarrow> block \<Rightarrow> inst_data option" where
  "term_of f b = (case last_inst (fn_layout f) b of None \<Rightarrow> None | Some i \<Rightarrow> nth_opt (dfg_insts f) i)"

fun data_calls :: "jump_table list \<Rightarrow> inst_data \<Rightarrow> block_call list" where
  "data_calls jts (Jump bc) = [bc]"
| "data_calls jts (Brif v b1 b2) = [b1, b2]"
| "data_calls jts (BranchTable v t) = (if t < length jts then all_branches (jts ! t) else [])"
| "data_calls jts _ = []"

definition calls_of :: "func \<Rightarrow> block \<Rightarrow> block_call list" where
  "calls_of f b = (case term_of f b of None \<Rightarrow> [] | Some d \<Rightarrow> data_calls (jump_tables f) d)"

lemma targets_calls: "targets f b = map bc_block (calls_of f b)"
  by (auto simp: targets_def visit_block_succs_def calls_of_def term_of_def bind_eq_Some_conv comp_def nth_opt_def
      split: option.splits inst_data.splits)

subsection \<open>Functions under construction\<close>

abbreviation blocks_of :: "func \<Rightarrow> block list" where
  "blocks_of f \<equiv> lo_blocks (fn_layout f)"

definition skel_ok :: "func \<Rightarrow> bool" where
  "skel_ok f \<longleftrightarrow> wf_layout (fn_layout f) \<and> set (blocks_of f) \<subseteq> {..<length (dfg_blocks f)} \<and>
     (\<forall>b. length (lo_insts (fn_layout f) b) \<le> 1) \<and>
     (\<forall>b. set (lo_insts (fn_layout f) b) \<subseteq> {..<length (dfg_insts f)}) \<and>
     length (dfg_results f) = length (dfg_insts f) \<and> set (dfg_results f) \<subseteq> {[]}"

definition add_block :: "block \<Rightarrow> func \<Rightarrow> func" where
  "add_block b f = f\<lparr>fn_layout := (fn_layout f)\<lparr>lo_blocks := blocks_of f @ [b]\<rparr>\<rparr>"

definition set_term :: "block \<Rightarrow> inst_data \<Rightarrow> func \<Rightarrow> func" where
  "set_term b d f = f\<lparr>dfg_insts := dfg_insts f @ [d], dfg_results := dfg_results f @ [[]],
     fn_layout := (fn_layout f)\<lparr>lo_insts := (lo_insts (fn_layout f))(b := [length (dfg_insts f)])\<rparr>\<rparr>"

definition del_term :: "block \<Rightarrow> func \<Rightarrow> func" where
  "del_term b f = f\<lparr>fn_layout := (fn_layout f)\<lparr>lo_insts := (lo_insts (fn_layout f))(b := [])\<rparr>\<rparr>"

lemma view_fields [simp]:
  "blocks_of (add_block b f) = blocks_of f @ [b]" "blocks_of (set_term b d f) = blocks_of f"
  "blocks_of (del_term b f) = blocks_of f"
  "dfg_blocks (add_block b f) = dfg_blocks f" "dfg_blocks (set_term b d f) = dfg_blocks f"
  "dfg_blocks (del_term b f) = dfg_blocks f"
  "dfg_values (add_block b f) = dfg_values f" "dfg_values (set_term b d f) = dfg_values f"
  "dfg_values (del_term b f) = dfg_values f"
  "jump_tables (add_block b f) = jump_tables f" "jump_tables (set_term b d f) = jump_tables f"
  "jump_tables (del_term b f) = jump_tables f"
  by (simp_all add: add_block_def set_term_def del_term_def)

lemma skel_insts_cases:
  assumes "skel_ok f"
  obtains "lo_insts (fn_layout f) b = []" | i where "lo_insts (fn_layout f) b = [i]" "i < length (dfg_insts f)"
proof (cases "lo_insts (fn_layout f) b")
  case (Cons i rest)
  have "length (lo_insts (fn_layout f) b) \<le> 1" "set (lo_insts (fn_layout f) b) \<subseteq> {..<length (dfg_insts f)}"
    using assms by (simp_all add: skel_ok_def)
  with Cons show ?thesis by (intro that(2) [of i]) auto
qed (rule that)

lemma skel_no_insts: "skel_ok f \<Longrightarrow> b \<notin> set (blocks_of f) \<Longrightarrow> lo_insts (fn_layout f) b = []"
  by (simp add: skel_ok_def wf_layout_def)

lemma term_of_None_iff: "skel_ok f \<Longrightarrow> term_of f b = None \<longleftrightarrow> lo_insts (fn_layout f) b = []"
  by (erule skel_insts_cases [of f b]) (auto simp: term_of_def last_inst_def)

lemma term_of_not_block: "skel_ok f \<Longrightarrow> b \<notin> set (blocks_of f) \<Longrightarrow> term_of f b = None"
  using skel_no_insts term_of_None_iff by metis

lemma skel_fresh_inst:
  assumes "skel_ok f"
  shows "inst_block (fn_layout f) (length (dfg_insts f)) = None"
proof -
  have "wf_layout (fn_layout f)" "set (lo_insts (fn_layout f) b) \<subseteq> {..<length (dfg_insts f)}" for b
    using assms by (auto simp: skel_ok_def)
  then show ?thesis by (fastforce simp: inst_block_None_iff)
qed

lemma skel_add_block:
  "skel_ok f \<Longrightarrow> b \<notin> set (blocks_of f) \<Longrightarrow> b < length (dfg_blocks f) \<Longrightarrow> skel_ok (add_block b f)"
  by (auto simp: skel_ok_def add_block_def wf_layout_def)

lemma skel_set_term:
  assumes "skel_ok f" and "b \<in> set (blocks_of f)"
  shows "skel_ok (set_term b d f)"
proof -
  have old: "i < length (dfg_insts f)" if "i \<in> set (lo_insts (fn_layout f) c)" for c i
    using assms(1) that by (auto simp: skel_ok_def)
  have "wf_layout (fn_layout (set_term b d f))"
    using assms old by (fastforce simp: skel_ok_def set_term_def wf_layout_def)
  then show ?thesis
    using assms old by (auto simp: skel_ok_def set_term_def less_Suc_eq subset_iff)
qed

lemma skel_del_term: "skel_ok f \<Longrightarrow> skel_ok (del_term b f)"
  by (auto simp: skel_ok_def del_term_def wf_layout_def)

lemma term_of_add_block [simp]: "term_of (add_block b f) = term_of f"
  by (rule ext) (simp add: term_of_def add_block_def last_inst_def)

lemma term_of_set_term [simp]: "skel_ok f \<Longrightarrow> term_of (set_term b d f) = (term_of f)(b \<mapsto> d)"
proof
  fix c assume "skel_ok f"
  then show "term_of (set_term b d f) c = ((term_of f)(b \<mapsto> d)) c"
    by (rule skel_insts_cases [of f c]) (auto simp: term_of_def set_term_def last_inst_def nth_append)
qed

lemma term_of_del_term [simp]: "term_of (del_term b f) = (term_of f)(b := None)"
  by (rule ext) (auto simp: term_of_def del_term_def last_inst_def)

subsection \<open>The cursor operations\<close>

text \<open>The cursor appends blocks: it is nowhere yet, or at the bottom of the last block.\<close>

definition at_end :: "cursor \<Rightarrow> bool" where
  "at_end c \<longleftrightarrow> cur_pos c = Nowhere \<or>
     (blocks_of (cur_func c) \<noteq> [] \<and> cur_pos c = After (last (blocks_of (cur_func c))))"

lemma at_end_new [simp]: "at_end (cursor_new f)"
  by (simp add: at_end_def cursor_new_def)

lemma cur_insert_block_view:
  assumes "skel_ok (cur_func c)" and "at_end c" and b: "b \<notin> set (blocks_of (cur_func c))"
  shows "cur_insert_block b c = Some \<lparr>cur_pos = After b, cur_func = add_block b (cur_func c)\<rparr>"
proof (cases "cur_pos c = Nowhere")
  case True
  then show ?thesis
    using b skel_no_insts [OF assms(1) b]
    by (cases c) (simp add: cur_insert_block_def append_block_def is_block_inserted_def set_layout_def add_block_def)
next
  case False
  then have ne: "blocks_of (cur_func c) \<noteq> []" and pos: "cur_pos c = After (last (blocks_of (cur_func c)))"
    using assms(2) by (auto simp: at_end_def)
  have "distinct (butlast (blocks_of (cur_func c)) @ [last (blocks_of (cur_func c))])"
    using assms(1) ne by (simp add: skel_ok_def wf_layout_def)
  from insert_after_last [OF this, of b] ne
  have "insert_after b (last (blocks_of (cur_func c))) (blocks_of (cur_func c)) = blocks_of (cur_func c) @ [b]"
    by (metis append.assoc append_Cons append_Nil append_butlast_last_id)
  then show ?thesis
    using b ne pos
    by (cases c) (simp add: cur_insert_block_def insert_block_after_def is_block_inserted_def set_layout_def add_block_def)
qed

lemma at_end_After [simp]: "at_end \<lparr>cur_pos = After b, cur_func = add_block b f\<rparr>"
  "at_end \<lparr>cur_pos = After b, cur_func = set_term c d (add_block b f)\<rparr>"
  by (simp_all add: at_end_def)

lemma build_inst_view:
  assumes "skel_ok f" and "b \<in> set (blocks_of f)" and "lo_insts (fn_layout f) b = []"
  shows "build_inst d [] \<lparr>cur_pos = After b, cur_func = f\<rparr> =
    Some (length (dfg_insts f), \<lparr>cur_pos = After b, cur_func = set_term b d f\<rparr>)"
proof -
  have "length (dfg_results f) = length (dfg_insts f)" using assms(1) by (simp add: skel_ok_def)
  then have "(dfg_results f @ [[]])[length (dfg_insts f) := []] = dfg_results f @ [[]]"
    by (metis list_update_length)
  then show ?thesis
    using assms(2,3) skel_fresh_inst [OF assms(1)]
    by (simp add: build_inst_def make_inst_def make_inst_results_def insert_inst_def append_inst_def
        is_block_inserted_def set_layout_def set_term_def)
qed

lemma ins_view:
  assumes "skel_ok f" and "b \<in> set (blocks_of f)" and "lo_insts (fn_layout f) b = []"
  shows "ins_jump t args \<lparr>cur_pos = After b, cur_func = f\<rparr> =
      Some \<lparr>cur_pos = After b, cur_func = set_term b (Jump (BlockCall t args)) f\<rparr>"
    and "ins_brif v t e \<lparr>cur_pos = After b, cur_func = f\<rparr> =
      Some \<lparr>cur_pos = After b, cur_func = set_term b (Brif v (BlockCall t []) (BlockCall e [])) f\<rparr>"
    and "ins_br_table v j \<lparr>cur_pos = After b, cur_func = f\<rparr> =
      Some \<lparr>cur_pos = After b, cur_func = set_term b (BranchTable v j) f\<rparr>"
  using build_inst_view [OF assms] by (simp_all add: ins_jump_def ins_brif_def ins_br_table_def)

text \<open>Removing the branch of a block leaves the cursor at the bottom of the block.\<close>

lemma get_last_instr_view:
  assumes "skel_ok (cur_func c)" and "term_of (cur_func c) b = Some d"
  obtains i where "lo_insts (cur_layout c) b = [i]"
    and "get_block_last_control_instr b c = Some (Some d, c\<lparr>cur_pos := At i\<rparr>)"
proof (rule skel_insts_cases [OF assms(1), of b])
  fix i assume i: "lo_insts (cur_layout c) b = [i]" "i < length (dfg_insts (cur_func c))"
  then have "d = dfg_insts (cur_func c) ! i"
    using assms(2) by (auto simp: term_of_def last_inst_def)
  with i show thesis
    by (intro that [of i]) (auto simp: get_block_last_control_instr_def last_inst_def)
qed (use assms in \<open>auto simp: term_of_None_iff [symmetric]\<close>)

lemma remove_inst_view:
  assumes "skel_ok (cur_func c)" and "lo_insts (cur_layout c) b = [i]"
  shows "remove_inst (c\<lparr>cur_pos := At i\<rparr>) = Some \<lparr>cur_pos = After b, cur_func = del_term b (cur_func c)\<rparr>"
proof -
  have "inst_block (cur_layout c) i = Some b"
    using assms by (subst inst_block_iff) (auto simp: skel_ok_def)
  then show ?thesis
    using assms(2)
    by (cases c) (simp add: remove_inst_def next_inst_def next_inst_position_def layout_next_inst_def
        layout_remove_inst_def set_layout_def del_term_def)
qed

lemma set_del_term: "set_term b d (del_term b f) = set_term b d f"
  by (simp add: set_term_def del_term_def)

subsection \<open>Shapes in the view\<close>

text \<open>Growing the tables of a function, and appending a list of blocks with their branches.\<close>

definition grow :: "val list list \<Rightarrow> value_data list \<Rightarrow> jump_table list \<Rightarrow> func \<Rightarrow> func" where
  "grow bs vs jts f = f\<lparr>dfg_blocks := dfg_blocks f @ bs, dfg_values := dfg_values f @ vs,
     jump_tables := jump_tables f @ jts\<rparr>"

definition emit :: "block \<times> inst_data option \<Rightarrow> func \<Rightarrow> func" where
  "emit = (\<lambda>(b, t) f. case t of None \<Rightarrow> add_block b f | Some d \<Rightarrow> set_term b d (add_block b f))"

lemma grow_fields [simp]:
  "dfg_blocks (grow bs vs jts f) = dfg_blocks f @ bs" "dfg_values (grow bs vs jts f) = dfg_values f @ vs"
  "jump_tables (grow bs vs jts f) = jump_tables f @ jts" "fn_layout (grow bs vs jts f) = fn_layout f"
  "dfg_insts (grow bs vs jts f) = dfg_insts f"
  by (simp_all add: grow_def)

lemma skel_grow: "skel_ok f \<Longrightarrow> skel_ok (grow bs vs jts f)"
  by (auto simp: skel_ok_def grow_def)

lemma term_of_grow [simp]: "term_of (grow bs vs jts f) = term_of f"
  by (rule ext) (simp add: term_of_def split: option.splits)

lemma emit_fields [simp]:
  "dfg_blocks (emit x f) = dfg_blocks f" "dfg_values (emit x f) = dfg_values f"
  "jump_tables (emit x f) = jump_tables f" "blocks_of (emit x f) = blocks_of f @ [fst x]"
  by (simp_all add: emit_def split: prod.splits option.splits)

lemma skel_emit:
  "skel_ok f \<Longrightarrow> fst x \<notin> set (blocks_of f) \<Longrightarrow> fst x < length (dfg_blocks f) \<Longrightarrow> skel_ok (emit x f)"
  by (auto simp: emit_def skel_add_block skel_set_term split: prod.splits option.splits)

lemma term_of_emit:
  "skel_ok f \<Longrightarrow> fst x \<notin> set (blocks_of f) \<Longrightarrow> fst x < length (dfg_blocks f) \<Longrightarrow>
     term_of (emit x f) = (term_of f)(fst x := snd x)"
  by (auto simp: emit_def skel_add_block term_of_not_block fun_upd_idem split: prod.splits option.splits)

definition fresh_blocks :: "block list \<Rightarrow> func \<Rightarrow> bool" where
  "fresh_blocks bs f \<longleftrightarrow> distinct bs \<and> set bs \<inter> set (blocks_of f) = {} \<and> set bs \<subseteq> {..<length (dfg_blocks f)}"

lemma emit_all_conj:
  assumes "skel_ok f" and "fresh_blocks (map fst xs) f"
  shows "skel_ok (fold emit xs f) \<and> blocks_of (fold emit xs f) = blocks_of f @ map fst xs \<and>
    (\<forall>b. term_of (fold emit xs f) b = (case map_of xs b of Some t \<Rightarrow> t | None \<Rightarrow> term_of f b)) \<and>
    dfg_blocks (fold emit xs f) = dfg_blocks f \<and> dfg_values (fold emit xs f) = dfg_values f \<and>
    jump_tables (fold emit xs f) = jump_tables f"
  using assms
proof (induction xs arbitrary: f)
  case (Cons x xs)
  have x: "fst x \<notin> set (blocks_of f)" "fst x < length (dfg_blocks f)"
    using Cons.prems by (auto simp: fresh_blocks_def)
  have ok: "skel_ok (emit x f)" "fresh_blocks (map fst xs) (emit x f)"
    using Cons.prems x skel_emit by (auto simp: fresh_blocks_def)
  have "map_of xs (fst x) = None"
    using Cons.prems(2) by (auto simp: fresh_blocks_def map_of_eq_None_iff)
  then show ?case
    using Cons.IH [OF ok] term_of_emit [OF Cons.prems(1) x] by (cases x) (auto split: option.splits)
qed simp

lemmas emit_all = emit_all_conj [THEN conjunct1]
  emit_all_conj [THEN conjunct2, THEN conjunct1]
  emit_all_conj [THEN conjunct2, THEN conjunct2, THEN conjunct1, rule_format]
  emit_all_conj [THEN conjunct2, THEN conjunct2, THEN conjunct2, THEN conjunct1]
  emit_all_conj [THEN conjunct2, THEN conjunct2, THEN conjunct2, THEN conjunct2, THEN conjunct1]
  emit_all_conj [THEN conjunct2, THEN conjunct2, THEN conjunct2, THEN conjunct2, THEN conjunct2]

text \<open>Appending a block with its branch through the cursor.\<close>

lemma insert_block_emit:
  assumes "skel_ok (cur_func c)" and "at_end c" and "b \<notin> set (blocks_of (cur_func c))"
  shows "cur_insert_block b c = Some \<lparr>cur_pos = After b, cur_func = emit (b, None) (cur_func c)\<rparr>"
  using cur_insert_block_view [OF assms] by (simp add: emit_def)

lemma ins_emit:
  assumes "skel_ok f" and "b \<notin> set (blocks_of f)" and "b < length (dfg_blocks f)"
  shows "ins_jump t args \<lparr>cur_pos = After b, cur_func = emit (b, None) f\<rparr> =
      Some \<lparr>cur_pos = After b, cur_func = emit (b, Some (Jump (BlockCall t args))) f\<rparr>"
    and "ins_brif v t e \<lparr>cur_pos = After b, cur_func = emit (b, None) f\<rparr> =
      Some \<lparr>cur_pos = After b, cur_func = emit (b, Some (Brif v (BlockCall t []) (BlockCall e []))) f\<rparr>"
    and "ins_br_table v j \<lparr>cur_pos = After b, cur_func = emit (b, None) f\<rparr> =
      Some \<lparr>cur_pos = After b, cur_func = emit (b, Some (BranchTable v j)) f\<rparr>"
proof -
  have "skel_ok (add_block b f)" "b \<in> set (blocks_of (add_block b f))" "lo_insts (fn_layout (add_block b f)) b = []"
    using skel_add_block [OF assms] skel_no_insts [OF assms(1,2)] by (auto simp: add_block_def)
  note ins_view [OF this]
  then show "ins_jump t args \<lparr>cur_pos = After b, cur_func = emit (b, None) f\<rparr> =
      Some \<lparr>cur_pos = After b, cur_func = emit (b, Some (Jump (BlockCall t args))) f\<rparr>"
    and "ins_brif v t e \<lparr>cur_pos = After b, cur_func = emit (b, None) f\<rparr> =
      Some \<lparr>cur_pos = After b, cur_func = emit (b, Some (Brif v (BlockCall t []) (BlockCall e []))) f\<rparr>"
    and "ins_br_table v j \<lparr>cur_pos = After b, cur_func = emit (b, None) f\<rparr> =
      Some \<lparr>cur_pos = After b, cur_func = emit (b, Some (BranchTable v j)) f\<rparr>"
    by (simp_all add: emit_def)
qed

lemma at_end_emit [simp]: "at_end \<lparr>cur_pos = After b, cur_func = emit (b, t) f\<rparr>"
  by (simp add: at_end_def)

lemmas emit_steps = insert_block_emit ins_emit skel_emit

definition jump_to :: "block \<times> block \<Rightarrow> block \<times> inst_data option" where
  "jump_to = (\<lambda>(b, t). (b, Some (Jump (BlockCall t []))))"

lemma foldM_jumps:
  assumes "skel_ok (cur_func c)" and "at_end c" and "fresh_blocks (map fst xs) (cur_func c)"
  shows "\<exists>c'. foldM (\<lambda>(b, t) cur. do { cur \<leftarrow> cur_insert_block b cur; ins_jump t [] cur }) xs c = Some c' \<and>
    at_end c' \<and> cur_func c' = fold emit (map jump_to xs) (cur_func c)"
  using assms
proof (induction xs arbitrary: c)
  case (Cons x xs)
  obtain b t where x: "x = (b, t)" by (cases x)
  have b: "b \<notin> set (blocks_of (cur_func c))" "b < length (dfg_blocks (cur_func c))"
    using Cons.prems(3) x by (auto simp: fresh_blocks_def)
  let ?c = "\<lparr>cur_pos = After b, cur_func = emit (jump_to x) (cur_func c)\<rparr>"
  have "skel_ok (cur_func ?c)" "at_end ?c" "fresh_blocks (map fst xs) (cur_func ?c)"
    using Cons.prems b x skel_emit [of "cur_func c" "jump_to x"]
    by (auto simp: fresh_blocks_def jump_to_def)
  from Cons.IH [OF this] show ?case
    using insert_block_emit [OF Cons.prems(1,2) b(1)] ins_emit(1) [OF Cons.prems(1) b, of t "[]"] x
    by (simp add: jump_to_def)
qed simp

end
