(* ===== verification/Cf_Shapes.thy ===== *)
theory Cf_Shapes
  imports Cf_View
begin

text \<open>
  The four shapes meet one contract: a shape adds fresh blocks at the end of the layout, leaves every
  other block alone, has one entrance and one exit without a branch, and its blocks lie between the
  two. The contract is the locale \<open>shape_builder\<close>, interpreted on the four builders.
\<close>

subsection \<open>Well-formed branches\<close>

text \<open>A branch of the construction passes no arguments, has distinct targets, and a table has at
  least three of them.\<close>

fun term_ok :: "jump_table list \<Rightarrow> inst_data \<Rightarrow> bool" where
  "term_ok jts (Jump bc) \<longleftrightarrow> bc_args bc = []"
| "term_ok jts (Brif v b1 b2) \<longleftrightarrow> bc_args b1 = [] \<and> bc_args b2 = [] \<and> bc_block b1 \<noteq> bc_block b2"
| "term_ok jts (BranchTable v t) \<longleftrightarrow>
     t < length jts \<and> list_all (\<lambda>bc. bc_args bc = []) (all_branches (jts ! t)) \<and>
     distinct (map bc_block (all_branches (jts ! t))) \<and> 3 \<le> length (all_branches (jts ! t))"
| "term_ok jts _ \<longleftrightarrow> False"

text \<open>A block parameter is the condition of the branch of its block.\<close>

definition params_ok :: "func \<Rightarrow> block \<Rightarrow> bool" where
  "params_ok f b \<longleftrightarrow> dfg_blocks f ! b = [] \<or>
     (\<exists>v. dfg_blocks f ! b = [v] \<and> v < length (dfg_values f) \<and> dfg_values f ! v = ValParam I32 0 b \<and>
        (\<exists>d. term_of f b = Some d \<and> inst_opcode d \<noteq> ''jump''))"

fun shape_cands :: "block_type \<Rightarrow> block set" where
  "shape_cands (BSequential bs) = {b. BBlock b \<in> set bs}"
| "shape_cands (BIfElse c t e l) = {b. BBlock b \<in> {t, e}}"
| "shape_cands (BWhile w b e) = {x. BBlock x \<in> {w, b, e}}"
| "shape_cands (BSwitch s d cs l) = {b. BBlock b \<in> insert s (insert d (set cs))}"
| "shape_cands (BBlock b) = {}"

text \<open>A shape of plain blocks, as the builders return it.\<close>

fun flat_shape :: "block_type \<Rightarrow> bool" where
  "flat_shape (BSequential bs) \<longleftrightarrow> bs \<noteq> [] \<and> list_all (\<lambda>t. as_block t \<noteq> None) bs"
| "flat_shape (BIfElse c t e l) \<longleftrightarrow> list_all (\<lambda>t. as_block t \<noteq> None) [c, t, e, l]"
| "flat_shape (BWhile w b e) \<longleftrightarrow> list_all (\<lambda>t. as_block t \<noteq> None) [w, b, e]"
| "flat_shape (BSwitch s d cs l) \<longleftrightarrow> cs \<noteq> [] \<and> list_all (\<lambda>t. as_block t \<noteq> None) (s # d # l # cs)"
| "flat_shape (BBlock b) \<longleftrightarrow> False"

text \<open>\<open>shape_added f f' s bs F L\<close>: \<open>f'\<close> is \<open>f\<close> with the shape \<open>s\<close> of the new blocks \<open>bs\<close>, entered at
  \<open>F\<close> and left at \<open>L\<close>.\<close>

definition shape_added :: "func \<Rightarrow> func \<Rightarrow> block_type \<Rightarrow> block list \<Rightarrow> block \<Rightarrow> block \<Rightarrow> bool" where
  "shape_added f f' s bs F L \<longleftrightarrow>
     skel_ok f' \<and> blocks_of f' = blocks_of f @ bs \<and>
     (\<exists>ps vs jts. dfg_blocks f' = dfg_blocks f @ ps \<and> dfg_values f' = dfg_values f @ vs \<and>
        jump_tables f' = jump_tables f @ jts \<and> (\<forall>b v t. b \<in> set bs \<longrightarrow> term_of f' b = Some (BranchTable v t) \<longrightarrow>
          length (jump_tables f) \<le> t)) \<and>
     distinct bs \<and> set bs \<inter> {..<length (dfg_blocks f)} = {} \<and>
     (\<forall>b. b \<notin> set bs \<longrightarrow> term_of f' b = term_of f b) \<and>
     get_first_block s = Some F \<and> get_last_block s = Some L \<and> F \<in> set bs \<and> L \<in> set bs \<and> F \<noteq> L \<and>
     flat_shape s \<and> shape_cands s \<subseteq> set bs \<and>
     term_of f' L = None \<and>
     (\<forall>b \<in> set bs. b \<noteq> L \<longrightarrow> (\<exists>d. term_of f' b = Some d \<and> term_ok (jump_tables f') d) \<and>
        set (targets f' b) \<subseteq> set bs - {b}) \<and>
     (\<forall>b c v w t. b \<in> set bs \<longrightarrow> c \<in> set bs \<longrightarrow> term_of f' b = Some (BranchTable v t) \<longrightarrow>
        term_of f' c = Some (BranchTable w t) \<longrightarrow> b = c) \<and>
     (\<forall>b \<in> set bs. params_ok f' b) \<and>
     (\<forall>b \<in> set bs. (F, b) \<in> {(x, y). x \<in> set bs \<and> y \<in> set (targets f' x)}\<^sup>* \<and>
        (b, L) \<in> {(x, y). x \<in> set bs \<and> y \<in> set (targets f' x)}\<^sup>*)"

lemma make_blocks_eq:
  "make_blocks n f = ([length (dfg_blocks f)..<length (dfg_blocks f) + n],
     f\<lparr>dfg_blocks := dfg_blocks f @ replicate n []\<rparr>)"
proof (induction n arbitrary: f)
  case (Suc n)
  have "dfg_blocks f @ [] # replicate n [] = dfg_blocks f @ replicate n [] @ [[]]"
    by (simp flip: replicate_append_same)
  then show ?case
    using Suc [of "f\<lparr>dfg_blocks := dfg_blocks f @ [[]]\<rparr>"] by (simp add: make_block_def upt_rec)
qed simp

lemma skel_block_bound: "skel_ok f \<Longrightarrow> b \<in> set (blocks_of f) \<Longrightarrow> b < length (dfg_blocks f)"
  by (auto simp: skel_ok_def)

subsection \<open>Closed forms\<close>

lemma cur_func_new [simp]: "cur_func (cursor_new f) = f"
  by (simp add: cursor_new_def)

abbreviation num_blocks :: "func \<Rightarrow> nat" where
  "num_blocks f \<equiv> length (dfg_blocks f)"

definition seq_spec :: "nat \<Rightarrow> nat \<Rightarrow> (block \<times> inst_data option) list" where
  "seq_spec k n = map (\<lambda>i. jump_to (k + i, k + Suc i)) [0..<n - 1] @ [(k + (n - 1), None)]"

lemma sequential_view:
  assumes "skel_ok f" and "0 < n"
  shows "sequential n f = Some (BSequential (map BBlock [num_blocks f..<num_blocks f + n]),
    fold emit (seq_spec (num_blocks f) n) (grow (replicate n []) [] [] f))"
proof -
  let ?k = "num_blocks f" and ?f = "grow (replicate n []) [] [] f"
  let ?xs = "map (\<lambda>i. (?k + i, ?k + Suc i)) [0..<n - 1]"
  have f1: "f\<lparr>dfg_blocks := dfg_blocks f @ replicate n []\<rparr> = ?f" by (simp add: grow_def)
  have ok: "skel_ok (cur_func (cursor_new ?f))" using skel_grow [OF assms(1)] by (simp add: cursor_new_def)
  have fresh: "fresh_blocks (map fst ?xs) (cur_func (cursor_new ?f))"
    using skel_block_bound [OF assms(1)]
    by (fastforce simp: fresh_blocks_def cursor_new_def comp_def distinct_map inj_on_def)
  obtain c where c: "foldM (\<lambda>(b, t) cur. do { cur \<leftarrow> cur_insert_block b cur; ins_jump t [] cur }) ?xs (cursor_new ?f) = Some c"
    "at_end c" "cur_func c = fold emit (map jump_to ?xs) ?f"
    using foldM_jumps [OF ok at_end_new fresh] by (auto simp: cursor_new_def)
  have loop: "foldM (\<lambda>i cur. do { cur \<leftarrow> cur_insert_block ([?k..<?k + n] ! i) cur; ins_jump ([?k..<?k + n] ! Suc i) [] cur })
      [0..<n - 1] (cursor_new ?f) = Some c"
    unfolding c(1) [symmetric] foldM_map by (rule foldM_cong) auto
  note props = emit_all [OF skel_grow [OF assms(1)], of "map jump_to ?xs" "replicate n []" "[]" "[]"]
  have fresh': "fresh_blocks (map fst (map jump_to ?xs)) ?f"
    using fresh by (simp add: cursor_new_def jump_to_def comp_def)
  have "cur_insert_block (?k + (n - 1)) c = Some \<lparr>cur_pos = After (?k + (n - 1)), cur_func = emit (?k + (n - 1), None) (cur_func c)\<rparr>"
    by (rule insert_block_emit [OF _ c(2)])
      (use c(3) props(1,2) [OF fresh'] skel_block_bound [OF assms(1)] in \<open>fastforce simp: jump_to_def\<close>)+
  then show ?thesis
    using assms(2) loop c(3) unfolding sequential_def make_blocks_eq f1
    by (simp add: seq_spec_def comp_def)
qed

lemma grow_param:
  assumes "0 < n"
  shows "append_block_param (num_blocks f) I32 (f\<lparr>dfg_blocks := dfg_blocks f @ replicate n []\<rparr>) =
    Some (length (dfg_values f),
      grow ([length (dfg_values f)] # replicate (n - 1) []) [ValParam I32 0 (num_blocks f)] [] f)"
proof -
  obtain m where "n = Suc m" using assms by (cases n) auto
  then show ?thesis
    by (simp add: append_block_param_def grow_def nth_append Let_def)
qed

lemma fresh_grow:
  assumes "skel_ok f" and "distinct bs" and "set bs \<subseteq> {num_blocks f..<num_blocks f + length ps}"
  shows "fresh_blocks bs (grow ps vs jts f)"
  using assms skel_block_bound [OF assms(1)] by (fastforce simp: fresh_blocks_def)

definition if_else_spec :: "nat \<Rightarrow> val \<Rightarrow> (block \<times> inst_data option) list" where
  "if_else_spec k v = [(k, Some (Brif v (BlockCall (k + 1) []) (BlockCall (k + 2) []))),
     jump_to (k + 1, k + 3), jump_to (k + 2, k + 3), (k + 3, None)]"

lemma if_else_view:
  assumes "skel_ok f"
  shows "if_else f = Some (BIfElse (BBlock (num_blocks f)) (BBlock (num_blocks f + 1)) (BBlock (num_blocks f + 2))
      (BBlock (num_blocks f + 3)),
    fold emit (if_else_spec (num_blocks f) (length (dfg_values f)))
      (grow ([length (dfg_values f)] # replicate 3 []) [ValParam I32 0 (num_blocks f)] [] f))"
proof -
  have k: "b \<notin> set (blocks_of f)" if "num_blocks f \<le> b" for b
    using skel_block_bound [OF assms, of b] that by auto
  have four: "f\<lparr>dfg_blocks := dfg_blocks f @ [[], [], [], []]\<rparr> = f\<lparr>dfg_blocks := dfg_blocks f @ replicate 4 []\<rparr>"
    by (simp add: numeral_eq_Suc)
  have param: "append_block_param (num_blocks f) I32 (f\<lparr>dfg_blocks := dfg_blocks f @ [[], [], [], []]\<rparr>) =
      Some (length (dfg_values f), grow ([length (dfg_values f)] # replicate 3 []) [ValParam I32 0 (num_blocks f)] [] f)"
    unfolding four using grow_param [of 4 f] by simp
  show ?thesis
    using skel_grow [OF assms] k
    by (simp add: if_else_def make_block_def param cursor_new_def at_end_def emit_steps if_else_spec_def jump_to_def
        numeral_3_eq_3)
qed

definition while_spec :: "nat \<Rightarrow> val \<Rightarrow> (block \<times> inst_data option) list" where
  "while_spec k v = [(k, Some (Brif v (BlockCall (k + 1) []) (BlockCall (k + 2) []))),
     jump_to (k + 1, k), (k + 2, None)]"

lemma while_blocks_view:
  assumes "skel_ok f"
  shows "while_blocks f = Some (BWhile (BBlock (num_blocks f)) (BBlock (num_blocks f + 1)) (BBlock (num_blocks f + 2)),
    fold emit (while_spec (num_blocks f) (length (dfg_values f)))
      (grow ([length (dfg_values f)] # replicate 2 []) [ValParam I32 0 (num_blocks f)] [] f))"
proof -
  have k: "b \<notin> set (blocks_of f)" if "num_blocks f \<le> b" for b
    using skel_block_bound [OF assms, of b] that by auto
  have three: "f\<lparr>dfg_blocks := dfg_blocks f @ [[], [], []]\<rparr> = f\<lparr>dfg_blocks := dfg_blocks f @ replicate 3 []\<rparr>"
    by (simp add: numeral_eq_Suc)
  have param: "append_block_param (num_blocks f) I32 (f\<lparr>dfg_blocks := dfg_blocks f @ [[], [], []]\<rparr>) =
      Some (length (dfg_values f), grow ([length (dfg_values f)] # replicate 2 []) [ValParam I32 0 (num_blocks f)] [] f)"
    unfolding three using grow_param [of 3 f] by simp
  show ?thesis
    using skel_grow [OF assms] k
    by (simp add: while_blocks_def make_block_def param cursor_new_def at_end_def emit_steps while_spec_def jump_to_def)
qed

definition switch_table :: "nat \<Rightarrow> nat \<Rightarrow> jump_table" where
  "switch_table k n = \<lparr>jt_default = BlockCall (k + 1) [], jt_table = map (\<lambda>b. BlockCall b []) [k + 3..<k + 3 + n]\<rparr>"

definition switch_spec :: "nat \<Rightarrow> nat \<Rightarrow> val \<Rightarrow> nat \<Rightarrow> (block \<times> inst_data option) list" where
  "switch_spec k n v t = (k, Some (BranchTable v t)) #
     map (\<lambda>b. jump_to (b, k + 2)) [k + 3..<k + 3 + n] @ [jump_to (k + 1, k + 2), (k + 2, None)]"

lemma switch_blocks_view:
  assumes "skel_ok f"
  shows "switch_blocks n f = Some (BSwitch (BBlock (num_blocks f)) (BBlock (num_blocks f + 1))
      (map BBlock [num_blocks f + 3..<num_blocks f + 3 + n]) (BBlock (num_blocks f + 2)),
    fold emit (switch_spec (num_blocks f) n (length (dfg_values f)) (length (jump_tables f)))
      (grow ([length (dfg_values f)] # replicate (n + 2) []) [ValParam I32 0 (num_blocks f)]
        [switch_table (num_blocks f) n] f))"
proof -
  define k where "k = num_blocks f"
  define v where "v = length (dfg_values f)"
  define t where "t = length (jump_tables f)"
  define cs where "cs = [k + 3..<k + 3 + n]"
  define f0 where "f0 = grow ([v] # replicate (n + 2) []) [ValParam I32 0 k] [] f"
  define f1 where "f1 = grow ([v] # replicate (n + 2) []) [ValParam I32 0 k] [switch_table k n] f"
  have k: "b \<notin> set (blocks_of f1)" if "k \<le> b" for b
    using skel_block_bound [OF assms, of b] that by (auto simp: f1_def k_def)
  have ok: "skel_ok f1" unfolding f1_def by (rule skel_grow [OF assms])
  have nb: "num_blocks f1 = k + (n + 3)" by (simp add: f1_def k_def)
  have blocks: "make_blocks n (f\<lparr>dfg_blocks := dfg_blocks f @ [[], [], []]\<rparr>) =
      (cs, f\<lparr>dfg_blocks := dfg_blocks f @ replicate (n + 3) []\<rparr>)"
    by (simp add: make_blocks_eq cs_def k_def numeral_eq_Suc)
  have param: "append_block_param k I32 (f\<lparr>dfg_blocks := dfg_blocks f @ replicate (n + 3) []\<rparr>) =
      Some (v, f0)"
    using grow_param [of "n + 3" f] by (simp add: k_def v_def f0_def)
  have table: "create_jump_table \<lparr>jt_default = BlockCall (Suc k) [], jt_table = map (\<lambda>b. BlockCall b []) cs\<rparr>
      f0 = (t, f1)"
    by (simp add: create_jump_table_def grow_def f0_def f1_def switch_table_def cs_def t_def)
  let ?c = "\<lparr>cur_pos = After k, cur_func = emit (k, Some (BranchTable v t)) f1\<rparr>"
  let ?xs = "map (\<lambda>b. (b, k + 2)) cs"
  have okc: "skel_ok (cur_func ?c)" using skel_emit [OF ok] k nb by simp
  have fresh: "fresh_blocks (map fst ?xs) (cur_func ?c)"
    using k nb by (auto simp: fresh_blocks_def comp_def cs_def)
  obtain c where c: "foldM (\<lambda>(b, t) cur. do { cur \<leftarrow> cur_insert_block b cur; ins_jump t [] cur }) ?xs ?c = Some c"
    "at_end c" "cur_func c = fold emit (map jump_to ?xs) (cur_func ?c)"
    using foldM_jumps [OF okc _ fresh] by auto
  have loop: "foldM (\<lambda>b cur. do { cur \<leftarrow> cur_insert_block b cur; ins_jump (Suc (Suc k)) [] cur }) cs ?c = Some c"
    unfolding c(1) [symmetric] foldM_map by (rule foldM_cong) auto
  have fresh': "fresh_blocks (map fst (map jump_to ?xs)) (cur_func ?c)"
    using fresh by (simp add: jump_to_def comp_def)
  note props = emit_all [OF okc fresh']
  have c': "skel_ok (cur_func c)" "Suc k \<notin> set (blocks_of (cur_func c))" "Suc (Suc k) \<notin> set (blocks_of (cur_func c))"
    "num_blocks (cur_func c) = k + (n + 3)"
    using props(1,2,4) k nb unfolding c(3) by (auto simp: jump_to_def cs_def)
  have "switch_blocks n f = Some (BSwitch (BBlock k) (BBlock (Suc k)) (map BBlock cs) (BBlock (Suc (Suc k))),
      emit (Suc (Suc k), None) (emit (jump_to (Suc k, Suc (Suc k))) (cur_func c)))"
    using ok k c' c(2) nb loop
    by (simp add: switch_blocks_def make_block_def blocks param table emit_steps k_def [symmetric] jump_to_def)
  then show ?thesis
    unfolding k_def [symmetric] v_def [symmetric] t_def [symmetric] f1_def [symmetric]
    by (simp add: switch_spec_def c(3) cs_def [symmetric] comp_def)
qed

subsection \<open>The contract\<close>

lemma emit_grow:
  assumes "skel_ok f" and "distinct (map fst xs)" and "set (map fst xs) \<subseteq> {num_blocks f..<num_blocks f + length ps}"
    and f': "f' = fold emit xs (grow ps vs jts f)"
  shows "skel_ok f'" and "blocks_of f' = blocks_of f @ map fst xs"
    and "dfg_blocks f' = dfg_blocks f @ ps" and "dfg_values f' = dfg_values f @ vs"
    and "jump_tables f' = jump_tables f @ jts"
    and "b \<notin> set (map fst xs) \<Longrightarrow> term_of f' b = term_of f b"
    and "(b, t) \<in> set xs \<Longrightarrow> term_of f' b = t"
    and "(b, Some d) \<in> set xs \<Longrightarrow> targets f' b = map bc_block (data_calls (jump_tables f @ jts) d)"
    and "(b, None) \<in> set xs \<Longrightarrow> targets f' b = []"
    and "set (map fst xs) \<inter> {..<num_blocks f} = {}"
proof -
  have fresh: "fresh_blocks (map fst xs) (grow ps vs jts f)"
    by (rule fresh_grow [OF assms(1,2,3)])
  note props = emit_all [OF skel_grow [OF assms(1)] fresh]
  show "skel_ok f'" "blocks_of f' = blocks_of f @ map fst xs" "dfg_blocks f' = dfg_blocks f @ ps"
    "dfg_values f' = dfg_values f @ vs" and jt: "jump_tables f' = jump_tables f @ jts"
    using props unfolding f' by simp_all
  have old: "term_of f' b = term_of f b" if "b \<notin> set (map fst xs)" for b
  proof -
    have "map_of xs b = None" using that by (simp add: map_of_eq_None_iff)
    then show ?thesis using props(3) [of b] unfolding f' by simp
  qed
  have new: "term_of f' b = t" if "(b, t) \<in> set xs" for b t
    using props(3) [of b] map_of_is_SomeI [OF assms(2) that] unfolding f' by simp
  show "b \<notin> set (map fst xs) \<Longrightarrow> term_of f' b = term_of f b" by (rule old)
  show "(b, t) \<in> set xs \<Longrightarrow> term_of f' b = t" by (rule new)
  show "(b, Some d) \<in> set xs \<Longrightarrow> targets f' b = map bc_block (data_calls (jump_tables f @ jts) d)"
    "(b, None) \<in> set xs \<Longrightarrow> targets f' b = []"
    using new jt by (auto simp: targets_calls calls_of_def)
  show "set (map fst xs) \<inter> {..<num_blocks f} = {}" using assms(3) by auto
qed

definition shape_edges :: "func \<Rightarrow> block list \<Rightarrow> (block \<times> block) set" where
  "shape_edges f bs = {(x, y). x \<in> set bs \<and> y \<in> set (targets f x)}"

lemma sequential_added:
  assumes "skel_ok f" and "2 \<le> n"
  shows "\<exists>s f' bs F L. sequential n f = Some (s, f') \<and> shape_added f f' s bs F L"
proof -
  define k where "k = num_blocks f"
  define xs where "xs = seq_spec k n"
  define f' where "f' = fold emit xs (grow (replicate n []) [] [] f)"
  define bs where "bs = [k..<k + n]"
  define L where "L = k + (n - 1)"
  have keys: "map fst xs = bs"
    unfolding xs_def bs_def seq_spec_def jump_to_def
    by (rule nth_equalityI) (use assms(2) in \<open>auto simp: nth_append\<close>)
  have built: "sequential n f = Some (BSequential (map BBlock bs), f')"
    using sequential_view [OF assms(1)] assms(2) by (simp add: f'_def xs_def bs_def k_def)
  note e = emit_grow [OF assms(1) _ _ f'_def, unfolded keys]
  have e0: "distinct bs" "set bs \<subseteq> {num_blocks f..<num_blocks f + length (replicate n [])}"
    by (auto simp: bs_def k_def)
  have step: "(k + i, Some (Jump (BlockCall (Suc (k + i)) []))) \<in> set xs" if "Suc i < n" for i
    using that unfolding xs_def seq_spec_def jump_to_def by force
  have last: "(L, None) \<in> set xs" by (simp add: xs_def seq_spec_def L_def)
  have tgt: "targets f' (k + i) = [Suc (k + i)]" if "Suc i < n" for i
    using e(8) [OF e0 step [OF that]] by simp
  have idx: "\<exists>i. b = k + i \<and> Suc i < n" if "b \<in> set bs" "b \<noteq> L" for b
    using that by (intro exI [of _ "b - k"]) (auto simp: bs_def L_def)
  have edge: "(k + i, k + Suc i) \<in> shape_edges f' bs" if "Suc i < n" for i
    using tgt [OF that] that by (auto simp: shape_edges_def bs_def)
  have up: "(k + i, k + (i + j)) \<in> (shape_edges f' bs)\<^sup>*" if "i + j < n" for i j
    using that
  proof (induction j)
    case (Suc j)
    then have "(k + i, k + (i + j)) \<in> (shape_edges f' bs)\<^sup>*" "(k + (i + j), k + Suc (i + j)) \<in> shape_edges f' bs"
      using edge [of "i + j"] by auto
    then show ?case by (simp add: rtrancl_into_rtrancl)
  qed simp
  have reach: "(k, b) \<in> (shape_edges f' bs)\<^sup>* \<and> (b, L) \<in> (shape_edges f' bs)\<^sup>*" if "b \<in> set bs" for b
    using up [of 0 "b - k"] up [of "b - k" "n - 1 - (b - k)"] that by (auto simp: bs_def L_def)
  have "shape_added f f' (BSequential (map BBlock bs)) bs k L"
    unfolding shape_added_def shape_edges_def [symmetric]
  proof (intro conjI ballI allI impI)
    show "\<exists>ps vs jts. dfg_blocks f' = dfg_blocks f @ ps \<and> dfg_values f' = dfg_values f @ vs \<and>
        jump_tables f' = jump_tables f @ jts \<and> (\<forall>b v t. b \<in> set bs \<longrightarrow> term_of f' b = Some (BranchTable v t) \<longrightarrow>
          length (jump_tables f) \<le> t)"
      using e(3,4,5) [OF e0] idx e(7) [OF e0 step] e(7) [OF e0 last] by (metis inst_data.distinct(3) option.distinct(1) option.inject)
    show "\<exists>d. term_of f' b = Some d \<and> term_ok (jump_tables f') d" if "b \<in> set bs" "b \<noteq> L" for b
      using idx [OF that] e(7) [OF e0 step] by force
    show "set (targets f' b) \<subseteq> set bs - {b}" if "b \<in> set bs" "b \<noteq> L" for b
      using idx [OF that] tgt by (auto simp: bs_def)
    show "b = c" if "b \<in> set bs" "term_of f' b = Some (BranchTable v t)" for b c v t
      using idx [OF that(1)] that(2) e(7) [OF e0 step] e(7) [OF e0 last] by (cases "b = L") auto
    show "params_ok f' b" if "b \<in> set bs" for b
      using that e(3) [OF e0] by (auto simp: params_ok_def bs_def k_def nth_append)
  qed (use e(1,2,6,7,10) [OF e0] e0(1) last reach assms(2) in \<open>auto simp: bs_def L_def list_all_iff\<close>)
  with built show ?thesis by blast
qed

text \<open>The three branching shapes: a condition block \<open>k\<close> with targets \<open>T\<close>, each of which jumps to the
  exit or back to \<open>k\<close>.\<close>

lemma branch_shape_added:
  assumes ok: "skel_ok f" and k: "k = num_blocks f" and v: "v = length (dfg_values f)"
    and xs: "xs = (k, Some d) # map jump_to js @ [(L, None)]"
    and keys: "distinct (map fst xs)" "set (map fst xs) \<subseteq> {k..<k + Suc m}"
    and f': "f' = fold emit xs (grow ([v] # replicate m []) [ValParam I32 0 k] jts f)"
    and d: "term_ok (jump_tables f @ jts) d" "inst_opcode d \<noteq> ''jump''"
      "\<And>w t. d = BranchTable w t \<Longrightarrow> length (jump_tables f) \<le> t"
    and T: "map bc_block (data_calls (jump_tables f @ jts) d) = T" "set T \<subseteq> set (map fst xs) - {k}"
    and js: "fst ` set js \<subseteq> set T" "\<And>b t. (b, t) \<in> set js \<Longrightarrow> t = L \<or> t = k"
      "L \<in> set T \<or> (\<exists>b \<in> set T. (b, L) \<in> set js)"
    and s: "get_first_block s = Some k" "get_last_block s = Some L" "flat_shape s" "shape_cands s \<subseteq> set (map fst xs)"
  shows "shape_added f f' s (map fst xs) k L"
proof -
  define bs where "bs = map fst xs"
  have e0: "distinct (map fst xs)" "set (map fst xs) \<subseteq> {num_blocks f..<num_blocks f + length ([v] # replicate m [])}"
    using keys k by auto
  note e = emit_grow [OF ok e0 f', folded bs_def]
  have bs: "set bs = insert k (insert L (fst ` set js))" by (force simp: bs_def xs jump_to_def)
  have ends: "L \<noteq> k" using keys(1) by (auto simp: xs)
  have tk: "term_of f' k = Some d" "targets f' k = T" using e(7,8) T(1) by (auto simp: xs)
  have tL: "term_of f' L = None" using e(7) by (auto simp: xs)
  have tj: "term_of f' b = Some (Jump (BlockCall t []))" "targets f' b = [t]" "b \<noteq> t" if "(b, t) \<in> set js" for b t
  proof -
    have m: "(b, Some (Jump (BlockCall t []))) \<in> set xs" using that by (force simp: xs jump_to_def)
    then show "term_of f' b = Some (Jump (BlockCall t []))" "targets f' b = [t]" using e(7,8) by auto
    have "b \<in> fst ` set js" using that by force
    then show "b \<noteq> t" using js(2) [OF that] e0(1) by (auto simp: xs jump_to_def comp_def case_prod_beta)
  qed
  have case_b: "b = k \<or> (\<exists>t. (b, t) \<in> set js)" if "b \<in> set bs" "b \<noteq> L" for b
    using that bs by auto
  have tb: "\<exists>w. b = k \<and> d = BranchTable w t" if "b \<in> set bs" "term_of f' b = Some (BranchTable w t)" for b w t
    using that case_b [OF that(1)] tk(1) tL tj(1) by (cases "b = L") auto
  have ek: "(k, b) \<in> shape_edges f' bs" if "b \<in> set T" for b using tk(2) that bs by (simp add: shape_edges_def)
  have ej: "(b, t) \<in> shape_edges f' bs" if "(b, t) \<in> set js" for b t
    using tj(2) [OF that] that bs by (force simp: shape_edges_def)
  have kL: "(k, L) \<in> (shape_edges f' bs)\<^sup>*" using js(3) ek ej by (meson converse_rtrancl_into_rtrancl r_into_rtrancl)
  have reach: "(k, b) \<in> (shape_edges f' bs)\<^sup>* \<and> (b, L) \<in> (shape_edges f' bs)\<^sup>*" if b: "b \<in> set bs" for b
  proof (cases "b = k \<or> b = L")
    case False
    then obtain t where t: "(b, t) \<in> set js" using case_b [OF b] by auto
    have "(k, b) \<in> shape_edges f' bs" using js(1) t ek by force
    moreover have "(b, L) \<in> (shape_edges f' bs)\<^sup>*"
      using js(2) [OF t] ej [OF t] kL by (auto intro: converse_rtrancl_into_rtrancl)
    ultimately show ?thesis by blast
  qed (use kL in auto)
  show ?thesis
    unfolding shape_added_def shape_edges_def [symmetric] bs_def [symmetric]
  proof (intro conjI ballI allI impI)
    show "\<exists>ps vs jts. dfg_blocks f' = dfg_blocks f @ ps \<and> dfg_values f' = dfg_values f @ vs \<and>
        jump_tables f' = jump_tables f @ jts \<and> (\<forall>b v t. b \<in> set bs \<longrightarrow> term_of f' b = Some (BranchTable v t) \<longrightarrow>
          length (jump_tables f) \<le> t)"
      using e(3,4,5) tb d(3) by blast
    show "\<exists>d. term_of f' b = Some d \<and> term_ok (jump_tables f') d" if "b \<in> set bs" "b \<noteq> L" for b
      using case_b [OF that] tk(1) d(1) tj(1) e(5) by fastforce
    show "set (targets f' b) \<subseteq> set bs - {b}" if "b \<in> set bs" "b \<noteq> L" for b
      using case_b [OF that] tk(2) T(2) tj(2,3) js(2) bs by (fastforce simp: bs_def)
    show "b = c" if "b \<in> set bs" "c \<in> set bs" "term_of f' b = Some (BranchTable x t)"
      "term_of f' c = Some (BranchTable w t)" for b c x w t
      using tb that by blast
    show "params_ok f' b" if "b \<in> set bs" for b
      using that keys(2) e(3,4) tk(1) d(2) k v by (auto simp: params_ok_def nth_append nth_Cons' bs_def)
  qed (use e(1,2,6,10) s e0(1) tL reach bs ends in \<open>auto simp: bs_def\<close>)
qed

lemma if_else_added:
  assumes "skel_ok f"
  shows "\<exists>s f' bs F L. if_else f = Some (s, f') \<and> shape_added f f' s bs F L"
proof -
  define k where "k = num_blocks f"
  define v where "v = length (dfg_values f)"
  have "shape_added f (fold emit (if_else_spec k v) (grow ([v] # replicate 3 []) [ValParam I32 0 k] [] f))
      (BIfElse (BBlock k) (BBlock (k + 1)) (BBlock (k + 2)) (BBlock (k + 3))) (map fst (if_else_spec k v)) k (k + 3)"
    by (rule branch_shape_added [OF assms k_def v_def, where js = "[(k + 1, k + 3), (k + 2, k + 3)]"
          and T = "[k + 1, k + 2]"]) (auto simp: if_else_spec_def jump_to_def)
  then show ?thesis using if_else_view [OF assms] unfolding k_def v_def by blast
qed

lemma while_added:
  assumes "skel_ok f"
  shows "\<exists>s f' bs F L. while_blocks f = Some (s, f') \<and> shape_added f f' s bs F L"
proof -
  define k where "k = num_blocks f"
  define v where "v = length (dfg_values f)"
  have "shape_added f (fold emit (while_spec k v) (grow ([v] # replicate 2 []) [ValParam I32 0 k] [] f))
      (BWhile (BBlock k) (BBlock (k + 1)) (BBlock (k + 2))) (map fst (while_spec k v)) k (k + 2)"
    by (rule branch_shape_added [OF assms k_def v_def, where js = "[(k + 1, k)]" and T = "[k + 1, k + 2]"])
      (auto simp: while_spec_def jump_to_def)
  then show ?thesis using while_blocks_view [OF assms] unfolding k_def v_def by blast
qed

lemma switch_added:
  assumes "skel_ok f" and "2 \<le> n"
  shows "\<exists>s f' bs F L. switch_blocks n f = Some (s, f') \<and> shape_added f f' s bs F L"
proof -
  define k where "k = num_blocks f"
  define v where "v = length (dfg_values f)"
  define t where "t = length (jump_tables f)"
  let ?js = "map (\<lambda>b. (b, k + 2)) [k + 3..<k + 3 + n] @ [(k + 1, k + 2)]"
  have spec: "switch_spec k n v t = (k, Some (BranchTable v t)) # map jump_to ?js @ [(k + 2, None)]"
    by (simp add: switch_spec_def comp_def)
  have keys: "map fst (switch_spec k n v t) = k # [k + 3..<k + 3 + n] @ [k + 1, k + 2]"
    by (simp add: switch_spec_def jump_to_def comp_def)
  have table: "(jump_tables f @ [x]) ! t = x" "length (jump_tables f) \<le> t" "t < Suc (length (jump_tables f))" for x
    by (simp_all add: t_def)
  have "shape_added f (fold emit (switch_spec k n v t) (grow ([v] # replicate (n + 2) []) [ValParam I32 0 k] [switch_table k n] f))
      (BSwitch (BBlock k) (BBlock (k + 1)) (map BBlock [k + 3..<k + 3 + n]) (BBlock (k + 2)))
      (map fst (switch_spec k n v t)) k (k + 2)"
    by (rule branch_shape_added [OF assms(1) k_def v_def spec _ _ refl, where T = "(k + 1) # [k + 3..<k + 3 + n]"],
      unfold keys) (use assms(2) in \<open>auto simp: table switch_table_def list_all_iff all_branches_def image_iff comp_def\<close>)
  then show ?thesis using switch_blocks_view [OF assms(1)] unfolding k_def v_def t_def by blast
qed

subsection \<open>The interface\<close>

locale shape_builder =
  fixes valid :: "nat \<Rightarrow> bool" and build :: "nat \<Rightarrow> func \<Rightarrow> (block_type \<times> func) option"
  assumes build_added: "valid n \<Longrightarrow> skel_ok f \<Longrightarrow>
    \<exists>s f' bs F L. build n f = Some (s, f') \<and> shape_added f f' s bs F L"
begin

lemma build_SomeD:
  "build n f = Some (s, f') \<Longrightarrow> valid n \<Longrightarrow> skel_ok f \<Longrightarrow> \<exists>bs F L. shape_added f f' s bs F L"
  using build_added [of n f] by auto

text \<open>With a number drawn from the valid ones, the builder is a step of the construction that cannot
  panic.\<close>

lemma build_drawn:
  assumes "rand_ok R" and "rng_ready g" and "skel_ok f" and "a < b" and "\<And>n. a \<le> n \<Longrightarrow> n < b \<Longrightarrow> valid n"
  shows "\<exists>s f' g' bs F L. do { (n, g) \<leftarrow> gen_and_print_range R a b False g; (s, f) \<leftarrow> build n f; Some (Some s, f, g) } =
      Some (Some s, f', g') \<and> rng_ready g' \<and> shape_added f f' s bs F L"
proof -
  obtain n g' where n: "gen_and_print_range R a b False g = Some (n, g')" "valid n" "rng_ready g'"
    using gen_and_print_range_ex [OF assms(1,2,4)] assms(5) by blast
  then show ?thesis using build_added [OF n(2) assms(3)] by fastforce
qed

end

interpretation seq: shape_builder "\<lambda>n. 2 \<le> n" sequential
  by unfold_locales (rule sequential_added)

interpretation ifs: shape_builder "\<lambda>_. True" "\<lambda>_. if_else"
  by unfold_locales (rule if_else_added)

interpretation whiles: shape_builder "\<lambda>_. True" "\<lambda>_. while_blocks"
  by unfold_locales (rule while_added)

interpretation switches: shape_builder "\<lambda>n. 2 \<le> n" switch_blocks
  by unfold_locales (rule switch_added)

lemma cf_shape_added:
  assumes "rand_ok R" and "rng_ready g" and "skel_ok f" and "choice \<le> 3"
  shows "\<exists>s f' g' bs F L. cf_shape R choice f g = Some (Some s, f', g') \<and> rng_ready g' \<and> shape_added f f' s bs F L"
proof -
  consider "choice = 0" | "choice = 1" | "choice = 2" | "choice = 3" using assms(4) by linarith
  then show ?thesis
  proof cases
    case 1
    then show ?thesis using seq.build_drawn [OF assms(1,2,3), of 2 5] by (simp add: cf_shape_def)
  next
    case 2
    then show ?thesis using ifs.build_added [OF TrueI assms(3)] assms(2) by (fastforce simp: cf_shape_def)
  next
    case 3
    then show ?thesis using whiles.build_added [OF TrueI assms(3)] assms(2) by (fastforce simp: cf_shape_def)
  next
    case 4
    then show ?thesis using switches.build_drawn [OF assms(1,2,3), of 6 9] by (simp add: cf_shape_def)
  qed
qed

lemma cf_choice_ex:
  assumes "rand_ok R" and "rng_ready g"
  shows "\<exists>c g'. cf_choice R odds g = Some (c, g') \<and> c \<le> 3 \<and> rng_ready g'"
proof -
  obtain n g1 where n: "gen_and_print_range R 0 5 False g = Some (n, g1)" "rng_ready g1"
    using gen_and_print_range_ex [OF assms, of 0 5] by auto
  show ?thesis
    using n gen_and_print_range_ex [OF assms(1) n(2), of 0 3] by (auto simp: cf_choice_def intro: less_imp_le)
qed

lemma get_random_block_ex:
  assumes "rand_ok R" and "rng_ready g" and "flat_shape s"
  shows "\<exists>b g'. get_random_block R s g = Some (b, g') \<and> b \<in> shape_cands s \<and> rng_ready g'"
proof (cases s)
  case (BSequential bs)
  then obtain i g1 where i: "gen_and_print_range R 0 (length bs) False g = Some (i, g1)" "i < length bs" "rng_ready g1"
    using gen_and_print_range_ex [OF assms(1,2), of 0 "length bs"] assms(3) by auto
  then obtain b where b: "bs ! i = BBlock b"
    using BSequential assms(3) by (auto simp: list_all_length elim: as_block.elims)
  then show ?thesis using i BSequential nth_mem [OF i(2)] by (simp add: nth_opt_def)
next
  case (BIfElse c t e l)
  obtain i g1 where i: "gen_and_print_range R 0 2 False g = Some (i, g1)" "rng_ready g1"
    using gen_and_print_range_ex [OF assms(1,2), of 0 2] by auto
  then show ?thesis using BIfElse assms(3) by (auto elim!: as_block.elims)
next
  case (BWhile w b e)
  obtain i g1 where i: "gen_and_print_range R 0 3 False g = Some (i, g1)" "rng_ready g1"
    using gen_and_print_range_ex [OF assms(1,2), of 0 3] by auto
  then show ?thesis using BWhile assms(3) by (auto elim!: as_block.elims)
next
  case (BSwitch c d cs l)
  obtain i g1 where i: "gen_and_print_range R 0 3 False g = Some (i, g1)" "rng_ready g1"
    using gen_and_print_range_ex [OF assms(1,2), of 0 3] by auto
  then obtain j g2 where j: "gen_and_print_range R 0 (length cs) False g1 = Some (j, g2)" "j < length cs" "rng_ready g2"
    using gen_and_print_range_ex [OF assms(1) i(2), of 0 "length cs"] assms(3) BSwitch by auto
  have "list_all (\<lambda>t. as_block t \<noteq> None) cs" using BSwitch assms(3) by simp
  then obtain b where b: "cs ! j = BBlock b"
    using j(2) by (auto simp: list_all_length elim: as_block.elims)
  then show ?thesis using i j BSwitch nth_mem [OF j(2)] assms(3) by (auto simp: nth_opt_def elim!: as_block.elims)
qed (use assms(3) in simp)

end
