(* ===== verification/Cf_Correct.thy ===== *)
theory Cf_Correct
  imports Cf_Shapes
begin

text \<open>
  Correctness of the construction of control flow: replacing a block by a shape redirects the branches
  into the block and moves its branch, and \<open>cf_construct\<close> keeps an invariant (one entry without
  predecessors, one block without a branch, every block between the two) and never panics.
\<close>

subsection \<open>Redirecting branches\<close>

text \<open>The part of a branch that redirecting keeps.\<close>

fun head_of :: "inst_data \<Rightarrow> inst_data" where
  "head_of (Jump bc) = Jump (BlockCall 0 [])"
| "head_of (Brif v b1 b2) = Brif v (BlockCall 0 []) (BlockCall 0 [])"
| "head_of d = d"

lemma head_of_opcode: "head_of d = head_of d' \<Longrightarrow> inst_opcode d = inst_opcode d'"
  by (cases d; cases d') auto

lemma head_of_table: "head_of d = BranchTable v t \<longleftrightarrow> d = BranchTable v t"
  by (cases d) auto

lemma term_ok_calls:
  assumes "term_ok jts d" and "head_of d' = head_of d" and "length jts' = length jts"
    and "length (data_calls jts' d') = length (data_calls jts d)"
    and "\<And>bc. bc \<in> set (data_calls jts' d') \<Longrightarrow> bc_args bc = []"
    and "distinct (map bc_block (data_calls jts' d'))"
  shows "term_ok jts' d'"
  using assms by (cases d; cases d') (auto simp: list_all_iff split: if_splits)

definition retarget :: "func \<Rightarrow> block \<Rightarrow> block \<Rightarrow> block set \<Rightarrow> func \<Rightarrow> bool" where
  "retarget f R F D f' \<longleftrightarrow> skel_ok f' \<and> blocks_of f' = blocks_of f \<and> dfg_blocks f' = dfg_blocks f \<and>
     dfg_values f' = dfg_values f \<and> length (jump_tables f') = length (jump_tables f) \<and>
     (\<forall>b. calls_of f' b = (if b \<in> D then map (set_block R F) (calls_of f b) else calls_of f b)) \<and>
     (\<forall>b. map_option head_of (term_of f' b) = map_option head_of (term_of f b))"

lemma retarget_refl: "skel_ok f \<Longrightarrow> retarget f R F {} f"
  by (simp add: retarget_def)

lemma retarget_insert:
  "retarget f R F {p} f1 \<Longrightarrow> retarget f1 R F D f2 \<Longrightarrow> p \<notin> D \<Longrightarrow> retarget f R F (insert p D) f2"
  unfolding retarget_def by (auto simp del: not_None_eq)

text \<open>What the redirection relies on: the branch of the predecessor is one of the construction's, and
  no other block shares its table.\<close>

definition branch_ok :: "func \<Rightarrow> block \<Rightarrow> bool" where
  "branch_ok f p \<longleftrightarrow> (\<exists>d. term_of f p = Some d \<and> term_ok (jump_tables f) d \<and>
     (\<forall>v t b w. d = BranchTable v t \<longrightarrow> term_of f b = Some (BranchTable w t) \<longrightarrow> b = p))"

lemma branch_okE:
  assumes "branch_ok f p"
  obtains d where "term_of f p = Some d" and "term_ok (jump_tables f) d"
  using assms by (auto simp: branch_ok_def)

lemma retarget_set_term:
  assumes "skel_ok f" and "p \<in> set (blocks_of f)" and "term_of f p = Some d" and "head_of d' = head_of d"
    and "data_calls (jump_tables f) d' = map (set_block R F) (data_calls (jump_tables f) d)"
  shows "retarget f R F {p} (set_term p d' f)"
  using assms skel_set_term [OF assms(1,2)] by (auto simp: retarget_def calls_of_def split: option.splits)

lemma term_of_tables [simp]: "term_of (f\<lparr>jump_tables := x\<rparr>) = term_of f"
  by (simp add: term_of_def fun_eq_iff split: option.splits)

lemma retarget_table:
  assumes "skel_ok f" and "branch_ok f p" and "term_of f p = Some (BranchTable v t)"
    and j: "j = jump_tables f ! t"
  shows "retarget f R F {p} (f\<lparr>jump_tables := (jump_tables f)[t := \<lparr>jt_default = set_block R F (jt_default j),
    jt_table = map (set_block R F) (jt_table j)\<rparr>]\<rparr>)"
proof -
  let ?f = "f\<lparr>jump_tables := (jump_tables f)[t := \<lparr>jt_default = set_block R F (jt_default j),
    jt_table = map (set_block R F) (jt_table j)\<rparr>]\<rparr>"
  have t: "t < length (jump_tables f)" and only: "term_of f b = Some (BranchTable w t) \<Longrightarrow> b = p" for b w
    using assms(2,3) by (auto simp: branch_ok_def)
  have "calls_of ?f b = (if b \<in> {p} then map (set_block R F) (calls_of f b) else calls_of f b)" for b
  proof (cases "b = p")
    case True
    then show ?thesis using t assms(3) j by (simp add: calls_of_def all_branches_def)
  next
    case False
    have "data_calls (jump_tables ?f) d = data_calls (jump_tables f) d" if "term_of f b = Some d" for d
      using that only False t by (cases d) (auto simp: nth_list_update)
    then show ?thesis using False by (simp add: calls_of_def split: option.splits)
  qed
  then show ?thesis using assms(1) by (simp add: retarget_def skel_ok_def)
qed

lemma update_predecessor_block_retarget:
  assumes "skel_ok (cur_func c)" and ok: "branch_ok (cur_func c) p" and R: "R \<in> set (targets (cur_func c) p)"
    and p: "p \<in> set (blocks_of (cur_func c))"
  shows "\<exists>c'. update_predecessor_block F R p c = Some c' \<and> retarget (cur_func c) R F {p} (cur_func c')"
proof -
  obtain d where d: "term_of (cur_func c) p = Some d" "term_ok (jump_tables (cur_func c)) d"
    using ok by (rule branch_okE)
  obtain i where i: "lo_insts (cur_layout c) p = [i]"
    "get_block_last_control_instr p c = Some (Some d, c\<lparr>cur_pos := At i\<rparr>)"
    by (rule get_last_instr_view [OF assms(1) d(1)])
  have step: "update_predecessor_block F R p c = Some \<lparr>cur_pos = After p, cur_func = set_term p d' (cur_func c)\<rparr>"
    if "d = Brif v b1 b2 \<and> (if bc_block b1 = R then d' = Brif v (BlockCall F []) (BlockCall (bc_block b2) [])
          else bc_block b2 = R \<and> d' = Brif v (BlockCall (bc_block b1) []) (BlockCall F [])) \<or>
        d = Jump bc \<and> d' = Jump (BlockCall F [])" for v b1 b2 bc d'
  proof -
    have "skel_ok (del_term p (cur_func c))" "p \<in> set (blocks_of (del_term p (cur_func c)))"
      "lo_insts (fn_layout (del_term p (cur_func c))) p = []"
      using skel_del_term [OF assms(1)] p by (simp_all add: del_term_def)
    note ins = ins_view [OF this]
    show ?thesis using that
      by (auto simp: update_predecessor_block_def i(2) remove_inst_view [OF assms(1) i(1)] ins set_del_term
          split: if_splits)
  qed
  note re = retarget_set_term [OF assms(1) p d(1), of _ R F]
  have calls: "targets (cur_func c) p = map bc_block (data_calls (jump_tables (cur_func c)) d)"
    using d(1) by (simp add: targets_calls calls_of_def)
  show ?thesis
  proof (cases d)
    case (Jump bc)
    then have "bc = BlockCall R []" using R d(2) calls by (cases bc) auto
    then show ?thesis using step [where bc = bc] re [of "Jump (BlockCall F [])"] Jump by (simp add: set_block_def)
  next
    case (Brif v b1 b2)
    then obtain x y where xy: "b1 = BlockCall x []" "b2 = BlockCall y []" "x \<noteq> y" "R = x \<or> R = y"
      using R d(2) calls by (cases b1; cases b2) auto
    then show ?thesis
      using step [where v = v and ?b1.0 = b1 and ?b2.0 = b2] re [of "Brif v (set_block R F b1) (set_block R F b2)"] Brif
      by (auto simp: set_block_def)
  next
    case (BranchTable v t)
    then have t: "t < length (jump_tables (cur_func c))" using d(2) by simp
    show ?thesis
      using retarget_table [OF assms(1) ok d(1) [unfolded BranchTable] refl, of R F] t
      by (simp add: update_predecessor_block_def i(2) BranchTable nth_opt_def)
  qed (use d(2) in simp_all)
qed

lemma branch_ok_retarget:
  assumes "retarget f R F D f'" and "distinct (targets f' p)" and "branch_ok f p"
  shows "branch_ok f' p"
proof -
  obtain d where d: "term_of f p = Some d" "term_ok (jump_tables f) d"
    "\<And>v t b w. d = BranchTable v t \<Longrightarrow> term_of f b = Some (BranchTable w t) \<Longrightarrow> b = p"
    using assms(3) by (auto simp: branch_ok_def)
  have heads: "map_option head_of (term_of f' b) = map_option head_of (term_of f b)" for b
    using assms(1) by (simp add: retarget_def)
  obtain d' where d': "term_of f' p = Some d'" "head_of d' = head_of d"
    using heads [of p] d(1) by auto
  have table: "term_of f b = Some (BranchTable w t)" if "term_of f' b = Some (BranchTable w t)" for b w t
    using heads [of b, symmetric] that by (auto simp: head_of_table)
  have calls: "data_calls (jump_tables f') d' = (if p \<in> D then map (set_block R F) (data_calls (jump_tables f) d)
      else data_calls (jump_tables f) d)" and len: "length (jump_tables f') = length (jump_tables f)"
    using assms(1) d(1) d'(1) by (auto simp: retarget_def calls_of_def dest!: spec [of _ p])
  have args: "bc_args bc = []" if "bc \<in> set (data_calls (jump_tables f) d)" for bc
    using d(2) that by (cases d) (auto simp: list_all_iff)
  have "term_ok (jump_tables f') d'"
  proof (rule term_ok_calls [OF d(2) d'(2) len])
    show "length (data_calls (jump_tables f') d') = length (data_calls (jump_tables f) d)" by (simp add: calls)
    show "bc_args bc = []" if "bc \<in> set (data_calls (jump_tables f') d')" for bc
      using that args by (auto simp: calls set_block_def split: if_splits)
    show "distinct (map bc_block (data_calls (jump_tables f') d'))"
      using assms(2) d'(1) by (simp add: targets_calls calls_of_def)
  qed
  moreover have "d = BranchTable v t" if "d' = BranchTable v t" for v t
    using d'(2) that by (metis head_of_table)
  ultimately show ?thesis using d'(1) d(3) table by (fastforce simp: branch_ok_def)
qed

lemma branch_ok_distinct: "branch_ok f p \<Longrightarrow> distinct (targets f p)"
proof (elim branch_okE)
  fix d assume "term_of f p = Some d" "term_ok (jump_tables f) d"
  then show ?thesis by (cases d) (auto simp: targets_calls calls_of_def)
qed

lemma foldM_retarget:
  assumes "skel_ok (cur_func c)" and "distinct ps"
    and "\<And>p. p \<in> set ps \<Longrightarrow> branch_ok (cur_func c) p \<and> R \<in> set (targets (cur_func c) p) \<and> p \<in> set (blocks_of (cur_func c))"
  shows "\<exists>c'. foldM (update_predecessor_block F R) ps c = Some c' \<and> retarget (cur_func c) R F (set ps) (cur_func c')"
  using assms
proof (induction ps arbitrary: c)
  case Nil
  then show ?case by (simp add: retarget_refl)
next
  case (Cons p ps)
  obtain c1 where c1: "update_predecessor_block F R p c = Some c1" "retarget (cur_func c) R F {p} (cur_func c1)"
    using update_predecessor_block_retarget [OF Cons.prems(1), of p R F] Cons.prems(3) [of p] by auto
  have "skel_ok (cur_func c1)" "distinct ps" using c1(2) Cons.prems(2) by (auto simp: retarget_def)
  moreover have "branch_ok (cur_func c1) q \<and> R \<in> set (targets (cur_func c1) q) \<and> q \<in> set (blocks_of (cur_func c1))"
    if "q \<in> set ps" for q
  proof -
    have "q \<noteq> p" using that Cons.prems(2) by auto
    then have same: "targets (cur_func c1) q = targets (cur_func c) q"
      using c1(2) by (simp add: retarget_def targets_calls)
    show ?thesis
      using branch_ok_retarget [OF c1(2), of q] branch_ok_distinct same c1(2) Cons.prems(3) [of q] that
      by (auto simp: retarget_def)
  qed
  ultimately obtain c2 where c2: "foldM (update_predecessor_block F R) ps c1 = Some c2"
    "retarget (cur_func c1) R F (set ps) (cur_func c2)"
    using Cons.IH [of c1] by blast
  then show ?case
    using c1 retarget_insert [OF c1(2) c2(2)] Cons.prems(2) by auto
qed

lemma flow_ok_skel:
  assumes "skel_ok f" and "\<And>b d. term_of f b = Some d \<Longrightarrow> term_ok (jump_tables f) d"
  shows "flow_ok f"
proof -
  have "visit_block_succs f b \<noteq> None" for b
  proof (rule skel_insts_cases [OF assms(1), of b])
    fix i assume i: "lo_insts (fn_layout f) b = [i]" "i < length (dfg_insts f)"
    then have "term_of f b = Some (dfg_insts f ! i)" by (simp add: term_of_def last_inst_def)
    from assms(2) [OF this] i show ?thesis
      by (cases "dfg_insts f ! i") (auto simp: visit_block_succs_def last_inst_def)
  qed (simp add: visit_block_succs_def last_inst_def)
  then show ?thesis using assms(1) by (simp add: flow_ok_def skel_ok_def list_all_iff)
qed

lemma retarget_UNIV:
  assumes "retarget f R F D f'" and "\<And>b. R \<in> set (targets f b) \<Longrightarrow> b \<in> D"
  shows "retarget f R F UNIV f'"
proof -
  have "map (set_block R F) (calls_of f b) = calls_of f b" if "b \<notin> D" for b
    using that assms(2) [of b] by (intro map_idI) (auto simp: set_block_def targets_calls)
  then show ?thesis using assms(1) by (auto simp: retarget_def)
qed

lemma update_predecessor_retarget:
  assumes ok: "skel_ok f" and flow: "flow_ok f"
    and pre: "\<And>p. R \<in> set (targets f p) \<Longrightarrow> branch_ok f p"
  shows "\<exists>f'. update_predecessor F R f = Some f' \<and> retarget f R F UNIV f'"
proof -
  obtain g where g: "with_function f = Some g" "cfg_of f (set (blocks_of f)) g"
    using with_function_correct [OF flow] by auto
  let ?ps = "map fst (pred_iter g R)"
  have in_blocks: "p \<in> set (blocks_of f)" if "R \<in> set (targets f p)" for p
    using term_of_not_block [OF ok] branch_okE [OF pre [OF that]] by (metis option.distinct(1))
  have ps: "p \<in> set ?ps \<longleftrightarrow> R \<in> set (targets f p)" for p
    using succ_pred_iter [OF g(2), of p R] succ_iter_iff [OF g(2), of R p] in_blocks by auto
  have "wf_layout (fn_layout f)" using ok by (simp add: skel_ok_def)
  then have "distinct ?ps" by (rule pred_iter_distinct [OF g(2)])
  then obtain c where c: "foldM (update_predecessor_block F R) ?ps (cursor_new f) = Some c"
    "retarget f R F (set ?ps) (cur_func c)"
    using foldM_retarget [of "cursor_new f" ?ps R F] ok pre ps in_blocks by auto
  then show ?thesis
    using retarget_UNIV [OF c(2)] ps g(1) by (auto simp: update_predecessor_def)
qed

subsection \<open>Moving a branch\<close>

definition moved :: "func \<Rightarrow> block \<Rightarrow> block \<Rightarrow> func \<Rightarrow> bool" where
  "moved f R L f' \<longleftrightarrow> skel_ok f' \<and> blocks_of f' = removeAll R (blocks_of f) \<and> dfg_blocks f' = dfg_blocks f \<and>
     dfg_values f' = dfg_values f \<and> (\<exists>jts d'. jump_tables f' = jump_tables f @ jts \<and>
       term_of f' = (term_of f)(R := None, L \<mapsto> d') \<and> term_ok (jump_tables f') d' \<and>
       (\<forall>v t. d' = BranchTable v t \<longrightarrow> length (jump_tables f) \<le> t) \<and> set (targets f' L) = set (targets f R))"

lemma moved_set_term:
  assumes ok: "skel_ok f" and "R \<in> set (blocks_of f)" and "L \<in> set (blocks_of f)" and "R \<noteq> L"
    and f1: "f1 = f\<lparr>jump_tables := jump_tables f @ jts\<rparr>"
    and d': "term_ok (jump_tables f1) d'" "\<forall>v t. d' = BranchTable v t \<longrightarrow> length (jump_tables f) \<le> t"
    "set (map bc_block (data_calls (jump_tables f1) d')) = set (targets f R)"
    and f2: "f2 = set_term L d' (del_term R f1)"
  shows "\<exists>l. remove_block R (fn_layout f2) = Some l \<and> moved f R L (f2\<lparr>fn_layout := l\<rparr>)"
proof -
  have ok1: "skel_ok (del_term R f1)" using ok unfolding f1 by (intro skel_del_term) (simp add: skel_ok_def)
  have ok2: "skel_ok f2" unfolding f2 using assms(3) by (intro skel_set_term [OF ok1]) (simp add: f1)
  have empty: "lo_insts (fn_layout f2) R = []" using assms(4) by (simp add: f2 set_term_def del_term_def)
  let ?l = "(fn_layout f2)\<lparr>lo_blocks := removeAll R (blocks_of f2)\<rparr>"
  let ?f = "f2\<lparr>fn_layout := ?l\<rparr>"
  have l: "remove_block R (fn_layout f2) = Some ?l"
    using assms(2) empty by (simp add: remove_block_def is_block_inserted_def f2 f1)
  have "wf_layout ?l" using wf_remove_block [OF _ l] ok2 by (simp add: skel_ok_def)
  then have ok3: "skel_ok ?f" using ok2 by (auto simp: skel_ok_def)
  have "term_of ?f = term_of f2" by (simp add: term_of_def last_inst_def fun_eq_iff split: option.splits)
  also have "\<dots> = (term_of f)(R := None, L \<mapsto> d')" using ok1 by (simp add: f2 f1)
  finally have terms: "term_of ?f = (term_of f)(R := None, L \<mapsto> d')" .
  have "calls_of ?f L = data_calls (jump_tables f1) d'" unfolding calls_of_def terms by (simp add: f2)
  then have "set (targets ?f L) = set (targets f R)"
    using d'(3) by (simp add: targets_calls)
  then show ?thesis
    using l ok3 terms d'(1,2) by (auto simp: moved_def f2 f1)
qed

lemma update_successor_moved:
  assumes ok: "skel_ok f" and flow: "flow_ok f" and R: "R \<in> set (blocks_of f)" and L: "L \<in> set (blocks_of f)" "R \<noteq> L"
    and d: "term_of f R = Some d" "term_ok (jump_tables f) d" and noL: "term_of f L = None"
  shows "\<exists>f'. update_successor L R f = Some f' \<and> moved f R L f'"
proof -
  obtain g where g: "with_function f = Some g" "cfg_of f (set (blocks_of f)) g"
    using with_function_correct [OF flow] by auto
  define ss where "ss = succ_iter g R"
  have tg: "targets f R = map bc_block (data_calls (jump_tables f) d)"
    using d(1) by (simp add: targets_calls calls_of_def)
  have dist: "distinct (targets f R)" using d(2) unfolding tg by (cases d) auto
  have ss: "set ss = set (targets f R)" "distinct ss"
    using succ_iter_eq [OF g(2) R] by (auto simp: ss_def)
  then have len: "length ss = length (data_calls (jump_tables f) d)"
    using dist tg by (metis distinct_card length_map)
  have step: "\<exists>f'. do {
      (d, cur) \<leftarrow> get_block_last_control_instr R (cursor_new f1);
      d \<leftarrow> d;
      cur \<leftarrow> remove_inst cur;
      cur \<leftarrow> goto_bottom L cur;
      cur \<leftarrow> ins d cur;
      l \<leftarrow> remove_block R (cur_layout cur);
      Some ((cur_func cur)\<lparr>fn_layout := l\<rparr>) } = Some f' \<and> moved f R L f'"
    if f1: "f1 = f\<lparr>jump_tables := jump_tables f @ jts\<rparr>"
      and ins: "\<And>h. skel_ok h \<Longrightarrow> L \<in> set (blocks_of h) \<Longrightarrow> lo_insts (fn_layout h) L = [] \<Longrightarrow>
        ins d \<lparr>cur_pos = After L, cur_func = h\<rparr> = Some \<lparr>cur_pos = After L, cur_func = set_term L d' h\<rparr>"
      and d': "term_ok (jump_tables f1) d'" "\<forall>v t. d' = BranchTable v t \<longrightarrow> length (jump_tables f) \<le> t"
        "set (map bc_block (data_calls (jump_tables f1) d')) = set ss" for f1 jts ins d'
  proof -
    have ok1: "skel_ok f1" using ok by (simp add: f1 skel_ok_def)
    obtain i where i: "lo_insts (fn_layout f1) R = [i]"
      "get_block_last_control_instr R (cursor_new f1) = Some (Some d, (cursor_new f1)\<lparr>cur_pos := At i\<rparr>)"
      using get_last_instr_view [of "cursor_new f1" R d] ok1 d(1) f1 by auto
    have rem: "remove_inst ((cursor_new f1)\<lparr>cur_pos := At i\<rparr>) = Some \<lparr>cur_pos = After R, cur_func = del_term R f1\<rparr>"
      using remove_inst_view [of "cursor_new f1" R i] ok1 i(1) by simp
    have h: "skel_ok (del_term R f1)" "L \<in> set (blocks_of (del_term R f1))" "lo_insts (fn_layout (del_term R f1)) L = []"
      using skel_del_term [OF ok1] L noL ok by (auto simp: f1 del_term_def term_of_None_iff)
    obtain l where l: "remove_block R (fn_layout (set_term L d' (del_term R f1))) = Some l"
      "moved f R L ((set_term L d' (del_term R f1))\<lparr>fn_layout := l\<rparr>)"
      using moved_set_term [OF ok R L f1 d'(1,2) _ refl] d'(3) ss(1) by auto
    show ?thesis
      using h l by (simp add: i(2) rem goto_bottom_def is_block_inserted_def ins [OF h])
  qed
  obtain i where i: "get_block_last_control_instr R (cursor_new f) = Some (Some d, (cursor_new f)\<lparr>cur_pos := At i\<rparr>)"
    using get_last_instr_view [of "cursor_new f" R d] ok d(1) by auto
  consider (j) bc where "d = Jump bc" "length ss = 1" | (b) v b1 b2 where "d = Brif v b1 b2" "length ss = 2"
    | (t) v t where "d = BranchTable v t" "3 \<le> length ss"
    using d(2) len by (cases d) auto
  then show ?thesis
  proof cases
    case j
    then obtain x where x: "ss = [x]" by (auto simp: length_Suc_conv)
    show ?thesis
      using step [of f "[]" "\<lambda>_. ins_jump x []" "Jump (BlockCall x [])"] x ins_view(1)
      by (simp add: update_successor_def g(1) ss_def [symmetric] i)
  next
    case b
    then obtain x y where x: "ss = [x, y]" by (auto simp: length_Suc_conv numeral_2_eq_2)
    then have "x \<noteq> y" using ss(2) by simp
    then show ?thesis
      using step [of f "[]" "\<lambda>_. ins_brif v x y" "Brif v (BlockCall x []) (BlockCall y [])"] x ins_view(2)
      by (simp add: update_successor_def g(1) ss_def [symmetric] b(1) i Let_def)
  next
    case t
    then obtain x xs where x: "ss = x # xs" by (cases ss) auto
    have xs: "xs \<noteq> []" using t(2) x by auto
    let ?jt = "\<lparr>jt_default = BlockCall x [], jt_table = map (\<lambda>b. BlockCall b []) xs\<rparr>"
    let ?f = "f\<lparr>jump_tables := jump_tables f @ [?jt]\<rparr>"
    have "skel_ok ?f" using ok by (simp add: skel_ok_def)
    then obtain k where k: "get_block_last_control_instr R ((cursor_new f)\<lparr>cur_func := ?f\<rparr>) =
        Some (Some d, (cursor_new f)\<lparr>cur_pos := At k, cur_func := ?f\<rparr>)" "cursor_new ?f = (cursor_new f)\<lparr>cur_func := ?f\<rparr>"
      using get_last_instr_view [of "(cursor_new f)\<lparr>cur_func := ?f\<rparr>" R d] d(1) by (auto simp: cursor_new_def)
    show ?thesis
      using step [of "f\<lparr>jump_tables := jump_tables f @ [?jt]\<rparr>" "[?jt]" "\<lambda>_. ins_br_table v (length (jump_tables f))"
          "BranchTable v (length (jump_tables f))"] x ins_view(3) t ss(2) xs
      by (simp add: update_successor_def g(1) ss_def [symmetric] k create_jump_table_def Let_def list_all_iff
          all_branches_def comp_def)
  qed
qed

subsection \<open>Replacing a block by a shape\<close>

lemma targets_None: "term_of f b = None \<Longrightarrow> targets f b = []"
  by (simp add: targets_calls calls_of_def)

lemma data_calls_append:
  "term_ok jts d \<Longrightarrow> data_calls (jts @ jts') d = data_calls jts d \<and> term_ok (jts @ jts') d"
  by (cases d) (auto simp: nth_append)

lemma branch_ok_ext:
  assumes ok: "branch_ok f p" and tm: "term_of f' p = term_of f p" and tables: "jump_tables f' = jump_tables f @ jts"
    and old: "\<And>b v t. term_of f' b = Some (BranchTable v t) \<Longrightarrow> term_of f b = Some (BranchTable v t) \<or> length (jump_tables f) \<le> t"
  shows "branch_ok f' p \<and> calls_of f' p = calls_of f p"
proof -
  obtain d where d: "term_of f p = Some d" "term_ok (jump_tables f) d"
    "\<And>v t b w. d = BranchTable v t \<Longrightarrow> term_of f b = Some (BranchTable w t) \<Longrightarrow> b = p"
    using ok by (auto simp: branch_ok_def)
  have "b = p" if "d = BranchTable v t" "term_of f' b = Some (BranchTable w t)" for v t b w
    using d(3) [OF that(1), of b w] old [OF that(2)] d(2) that(1) by auto
  then show ?thesis
    using data_calls_append [OF d(2), of jts] d(1) tm tables by (auto simp: branch_ok_def calls_of_def)
qed

lemma shape_added_branches:
  assumes added: "shape_added f f' s bs F L" and ok: "skel_ok f" and all: "\<forall>b. term_of f b \<noteq> None \<longrightarrow> branch_ok f b"
  shows "b \<notin> set bs \<Longrightarrow> targets f' b = targets f b" and "\<forall>b. term_of f' b \<noteq> None \<longrightarrow> branch_ok f' b" and "flow_ok f'"
proof -
  note old = all [rule_format]
  obtain jts where tables: "jump_tables f' = jump_tables f @ jts"
    "\<And>b v t. b \<in> set bs \<Longrightarrow> term_of f' b = Some (BranchTable v t) \<Longrightarrow> length (jump_tables f) \<le> t"
    using added by (auto simp: shape_added_def)
  have same: "term_of f' b = term_of f b" if "b \<notin> set bs" for b using added that by (simp add: shape_added_def)
  have new: "term_of f b = Some (BranchTable v t) \<or> length (jump_tables f) \<le> t"
    if "term_of f' b = Some (BranchTable v t)" for b v t
    using same [of b] tables(2) [of b v t] that by (cases "b \<in> set bs") auto
  have ext: "branch_ok f' b \<and> calls_of f' b = calls_of f b" if "b \<notin> set bs" "term_of f b \<noteq> None" for b
    by (rule branch_ok_ext [OF old [OF that(2)] same [OF that(1)] tables(1) new])
  show t: "targets f' b = targets f b" if "b \<notin> set bs" for b
    using ext [OF that] same [OF that] by (cases "term_of f b") (simp_all add: targets_calls calls_of_def)
  have br: "branch_ok f' b" if "term_of f' b \<noteq> None" for b
  proof (cases "b \<in> set bs")
    case True
    then have "b \<noteq> L" using added that by (auto simp: shape_added_def)
    then obtain d where d: "term_of f' b = Some d" "term_ok (jump_tables f') d"
      using added True unfolding shape_added_def by blast
    have "c = b" if "d = BranchTable v t" "term_of f' c = Some (BranchTable w t)" for v t w c
    proof (cases "c \<in> set bs")
      case True
      then show ?thesis using added d(1) that \<open>b \<in> set bs\<close> unfolding shape_added_def by blast
    next
      case False
      then have "term_of f c = Some (BranchTable w t)" using same that by simp
      then have "t < length (jump_tables f)" using old [of c] by (auto simp: branch_ok_def)
      then show ?thesis using tables(2) [OF \<open>b \<in> set bs\<close>, of v t] d(1) that by simp
    qed
    then show ?thesis using d by (auto simp: branch_ok_def)
  qed (use ext same that in auto)
  then show "\<forall>b. term_of f' b \<noteq> None \<longrightarrow> branch_ok f' b" by blast
  have "term_ok (jump_tables f') d" if "term_of f' b = Some d" for b d
    using br [of b] that by (auto simp: branch_ok_def)
  then show "flow_ok f'" using added by (intro flow_ok_skel) (simp_all add: shape_added_def)
qed

text \<open>The effect of \<open>cf_replace\<close> on branches: every branch to \<open>R\<close> goes to \<open>F\<close>, \<open>L\<close> has the branch of \<open>R\<close>,
  and \<open>R\<close> is gone.\<close>

definition redirect :: "block \<Rightarrow> block \<Rightarrow> block \<Rightarrow> block" where
  "redirect R F b = (if b = R then F else b)"

definition replaced :: "func \<Rightarrow> block \<Rightarrow> block \<Rightarrow> block \<Rightarrow> func \<Rightarrow> bool" where
  "replaced f R F L f' \<longleftrightarrow> skel_ok f' \<and> blocks_of f' = removeAll R (blocks_of f) \<and> dfg_blocks f' = dfg_blocks f \<and>
     dfg_values f' = dfg_values f \<and> (\<forall>b. term_of f' b \<noteq> None \<longrightarrow> branch_ok f' b) \<and>
     (\<forall>b. b \<notin> {R, L} \<longrightarrow> targets f' b = map (redirect R F) (targets f b) \<and>
        map_option inst_opcode (term_of f' b) = map_option inst_opcode (term_of f b)) \<and>
     term_of f' R = None \<and> term_of f' L \<noteq> None \<and> set (targets f' L) = redirect R F ` set (targets f R)"

lemma targets_retarget: "retarget f R F UNIV f' \<Longrightarrow> targets f' b = map (redirect R F) (targets f b)"
  by (simp add: targets_calls retarget_def redirect_def set_block_def)

lemma moved_branches:
  assumes "moved f R L f'" and all: "\<forall>b. term_of f b \<noteq> None \<longrightarrow> branch_ok f b"
  shows "\<forall>b. term_of f' b \<noteq> None \<longrightarrow> branch_ok f' b"
    and "b \<notin> {R, L} \<Longrightarrow> targets f' b = targets f b \<and> term_of f' b = term_of f b"
proof -
  obtain jts d' where m: "jump_tables f' = jump_tables f @ jts" "term_of f' = (term_of f)(R := None, L \<mapsto> d')"
    "term_ok (jump_tables f') d'" "\<And>v t. d' = BranchTable v t \<Longrightarrow> length (jump_tables f) \<le> t"
    using assms(1) by (auto simp: moved_def)
  have new: "term_of f b = Some (BranchTable v t) \<or> length (jump_tables f) \<le> t"
    if "term_of f' b = Some (BranchTable v t)" for b v t
    using that m(2,4) by (auto split: if_splits)
  have same: "term_of f' b = term_of f b" if "b \<notin> {R, L}" for b using m(2) that by simp
  have ext: "branch_ok f' b \<and> calls_of f' b = calls_of f b" if "b \<notin> {R, L}" "term_of f b \<noteq> None" for b
    by (rule branch_ok_ext [OF all [rule_format, OF that(2)] same [OF that(1)] m(1) new])
  show "targets f' b = targets f b \<and> term_of f' b = term_of f b" if "b \<notin> {R, L}" for b
    using ext [OF that] same [OF that] by (cases "term_of f b") (simp_all add: targets_calls calls_of_def)
  have bound: "t < length (jump_tables f)" if "term_of f c = Some (BranchTable w t)" for c w t
    using all [rule_format, of c] that by (auto simp: branch_ok_def)
  have "branch_ok f' L"
    using m bound by (fastforce simp: branch_ok_def split: if_splits)
  then have "branch_ok f' b" if "term_of f' b \<noteq> None" for b
    using ext [of b] same [of b] that m(2) by (cases "b \<in> {R, L}") (auto split: if_splits)
  then show "\<forall>b. term_of f' b \<noteq> None \<longrightarrow> branch_ok f' b" by blast
qed

lemma cf_replace_replaced:
  assumes ok: "skel_ok f" and flow: "flow_ok f" and br: "\<forall>b. term_of f b \<noteq> None \<longrightarrow> branch_ok f b"
    and s: "get_first_block s = Some F" "get_last_block s = Some L"
    and R: "R \<in> set (blocks_of f)" "L \<in> set (blocks_of f)" "R \<noteq> L" "term_of f R \<noteq> None" "term_of f L = None"
    and F: "\<forall>b. R \<in> set (targets f b) \<longrightarrow> F \<notin> set (targets f b)"
  shows "\<exists>f'. cf_replace s R f = Some f' \<and> replaced f R F L f'"
proof -
  have "branch_ok f p" if "R \<in> set (targets f p)" for p
    using br [rule_format, of p] targets_None [of f p] that by (cases "term_of f p") auto
  then obtain f1 where f1: "update_predecessor F R f = Some f1" "retarget f R F UNIV f1"
    using update_predecessor_retarget [OF ok flow] by blast
  have heads: "map_option head_of (term_of f1 b) = map_option head_of (term_of f b)" for b
    using f1(2) by (simp add: retarget_def)
  then have none: "term_of f1 b = None \<longleftrightarrow> term_of f b = None" for b by (metis map_option_is_None)
  have br1: "branch_ok f1 b" if "term_of f1 b \<noteq> None" for b
  proof (rule branch_ok_retarget [OF f1(2)])
    show *: "branch_ok f b" using br [rule_format, of b] none [of b] that by simp
    show "distinct (targets f1 b)"
      using branch_ok_distinct [OF *] F [rule_format, of b]
      by (auto simp: targets_retarget [OF f1(2)] distinct_map inj_on_def redirect_def)
  qed
  then have "term_ok (jump_tables f1) d" if "term_of f1 b = Some d" for b d
    using that by (fastforce simp: branch_ok_def)
  then have flow1: "flow_ok f1" using f1(2) by (intro flow_ok_skel) (simp_all add: retarget_def)
  obtain d where d: "term_of f1 R = Some d" "term_ok (jump_tables f1) d"
    using br1 [of R] none R(4) by (auto elim: branch_okE)
  obtain f2 where f2: "update_successor L R f1 = Some f2" "moved f1 R L f2"
    using update_successor_moved [of f1 R L d] f1(2) flow1 R d none by (auto simp: retarget_def)
  have "\<forall>b. term_of f1 b \<noteq> None \<longrightarrow> branch_ok f1 b" using br1 by blast
  note b2 = moved_branches [OF f2(2) this]
  have op: "map_option inst_opcode (term_of f1 b) = map_option inst_opcode (term_of f b)" for b
    using heads [of b] by (cases "term_of f1 b"; cases "term_of f b") (auto dest: head_of_opcode)
  have tR: "set (targets f2 L) = redirect R F ` set (targets f R)"
    using f2(2) targets_retarget [OF f1(2)] by (auto simp: moved_def)
  have "replaced f R F L f2"
    using f2(2) f1(2) b2 op tR targets_retarget [OF f1(2)] R(3) by (auto simp: replaced_def retarget_def moved_def)
  then show ?thesis using f1(1) f2(1) s by (simp add: cf_replace_def)
qed

subsection \<open>The invariant\<close>

definition cf_edges :: "func \<Rightarrow> (block \<times> block) set" where
  "cf_edges f = {(x, y). y \<in> set (targets f x)}"

definition cf_inv :: "func \<Rightarrow> block \<Rightarrow> block \<Rightarrow> bool" where
  "cf_inv f en ex \<longleftrightarrow> skel_ok f \<and> blocks_of f \<noteq> [] \<and> hd (blocks_of f) = en \<and>
     ex \<in> set (blocks_of f) \<and> en \<noteq> ex \<and> map_option inst_opcode (term_of f en) = Some ''jump'' \<and>
     (\<forall>b. term_of f b \<noteq> None \<longrightarrow> branch_ok f b) \<and>
     (\<forall>b \<in> set (blocks_of f). term_of f b = None \<longleftrightarrow> b = ex) \<and>
     (\<forall>b. set (targets f b) \<subseteq> set (blocks_of f) - {en, b}) \<and>
     (\<forall>b \<in> set (blocks_of f). params_ok f b \<and> (en, b) \<in> (cf_edges f)\<^sup>* \<and> (b, ex) \<in> (cf_edges f)\<^sup>*)"

lemma cf_invI:
  assumes "skel_ok f" and "blocks_of f = en # bs" and "ex \<in> set (blocks_of f)" and "en \<noteq> ex"
    and "map_option inst_opcode (term_of f en) = Some ''jump''"
    and "\<And>b. term_of f b \<noteq> None \<Longrightarrow> branch_ok f b"
    and "\<And>b. b \<in> set (blocks_of f) \<Longrightarrow> term_of f b = None \<longleftrightarrow> b = ex"
    and "\<And>b. set (targets f b) \<subseteq> set (blocks_of f) - {en, b}"
    and "\<And>b. b \<in> set (blocks_of f) \<Longrightarrow> params_ok f b"
    and "\<And>b. b \<in> set (blocks_of f) \<Longrightarrow> (en, b) \<in> (cf_edges f)\<^sup>* \<and> (b, ex) \<in> (cf_edges f)\<^sup>*"
  shows "cf_inv f en ex"
  unfolding cf_inv_def
proof (intro conjI allI impI ballI)
  show "blocks_of f \<noteq> []" "hd (blocks_of f) = en" using assms(2) by simp_all
qed (use assms(1,3-) in simp_all)

text \<open>Paths survive the surgery: the block \<open>R\<close> is traded for the path from \<open>F\<close> to \<open>L\<close>.\<close>

lemma reach_surgery:
  assumes old: "\<And>a b. (a, b) \<in> E \<Longrightarrow> a \<noteq> R \<Longrightarrow> (a, redirect R F b) \<in> E'"
    and R: "\<And>b. (R, b) \<in> E \<Longrightarrow> (L, redirect R F b) \<in> E'" and shape: "(F, L) \<in> E'\<^sup>*"
    and path: "(a, b) \<in> E\<^sup>*"
  shows "(redirect R F a, redirect R F b) \<in> E'\<^sup>*"
  using path
proof (induction rule: rtrancl_induct)
  case (step b c)
  have "(redirect R F b, redirect R F c) \<in> E'\<^sup>*"
  proof (cases "b = R")
    case True
    then show ?thesis using R [of c] shape step.hyps(2) by (auto simp: redirect_def intro: rtrancl_into_rtrancl)
  next
    case False
    then show ?thesis using old [OF step.hyps(2)] by (auto simp: redirect_def)
  qed
  then show ?case using step.IH by (rule rtrancl_trans [rotated])
qed simp

lemma params_ok_opcode:
  assumes "params_ok f b" and "dfg_blocks f' = dfg_blocks f" and "dfg_values f' = dfg_values f"
    and "map_option inst_opcode (term_of f' b) = map_option inst_opcode (term_of f b)"
  shows "params_ok f' b"
  using assms by (cases "term_of f' b"; cases "term_of f b") (auto simp: params_ok_def)

lemma replace_reach:
  assumes inv: "cf_inv f en ex" and added: "shape_added f f' s bs F L" and rep: "replaced f' R F L f''"
    and R: "R \<in> set (blocks_of f) - {en, ex}"
    and b: "b \<in> set (removeAll R (blocks_of f) @ bs)"
  shows "(en, b) \<in> (cf_edges f'')\<^sup>* \<and> (b, ex) \<in> (cf_edges f'')\<^sup>*"
proof -
  have br: "\<forall>b. term_of f b \<noteq> None \<longrightarrow> branch_ok f b" and ok: "skel_ok f" using inv by (auto simp: cf_inv_def)
  have tgt: "targets f' b = targets f b" if "b \<notin> set bs" for b
    by (rule shape_added_branches(1) [OF added ok br that])
  have fresh: "set bs \<inter> set (blocks_of f) = {}"
    using added skel_block_bound [OF ok] by (auto simp: shape_added_def)
  then have Rb: "R \<notin> set bs" using R by auto
  have out: "targets f b = []" if "b \<notin> set (blocks_of f)" for b
    using term_of_not_block [OF ok that] by (rule targets_None)
  have edge: "(a, redirect R F c) \<in> cf_edges f''" if "c \<in> set (targets f' a)" "a \<noteq> R" "a \<noteq> L" for a c
    using rep that by (auto simp: cf_edges_def replaced_def)
  have child: "shape_edges f' bs \<subseteq> cf_edges f''"
  proof (clarsimp simp: shape_edges_def)
    fix x y assume x: "x \<in> set bs" "y \<in> set (targets f' x)"
    then have "x \<noteq> L" using added targets_None [of f' L] by (auto simp: shape_added_def)
    moreover have "x \<noteq> R" using x(1) Rb by auto
    moreover have "y \<in> set bs" using added x \<open>x \<noteq> L\<close> unfolding shape_added_def by blast
    moreover from this have "y \<noteq> R" using Rb by auto
    ultimately show "(x, y) \<in> cf_edges f''" using edge [OF x(2)] by (auto simp: redirect_def)
  qed
  have within: "(F, c) \<in> (cf_edges f'')\<^sup>* \<and> (c, L) \<in> (cf_edges f'')\<^sup>*" if "c \<in> set bs" for c
    using added that rtrancl_mono [OF child] unfolding shape_added_def shape_edges_def by blast
  have FL: "F \<in> set bs" "L \<in> set bs" using added by (auto simp: shape_added_def)
  have LR: "(L, redirect R F c) \<in> cf_edges f''" if "(R, c) \<in> cf_edges f" for c
    using rep that tgt [OF Rb] by (simp add: cf_edges_def replaced_def)
  have old: "(a, redirect R F c) \<in> cf_edges f''" if "(a, c) \<in> cf_edges f" "a \<noteq> R" for a c
  proof -
    have "a \<in> set (blocks_of f)" using out that(1) by (fastforce simp: cf_edges_def)
    then have "a \<notin> set bs" using fresh by auto
    then show ?thesis using edge [of c a] tgt [of a] that FL(2) by (auto simp: cf_edges_def)
  qed
  have path: "(redirect R F a, redirect R F c) \<in> (cf_edges f'')\<^sup>*" if "(a, c) \<in> (cf_edges f)\<^sup>*" for a c
    by (rule reach_surgery [OF _ _ _ that, of R F _ L]) (use old LR within FL in auto)
  have ends: "redirect R F en = en" "redirect R F ex = ex" using R by (auto simp: redirect_def)
  have reach: "(en, c) \<in> (cf_edges f)\<^sup>*" "(c, ex) \<in> (cf_edges f)\<^sup>*" if "c \<in> set (blocks_of f)" for c
    using inv that by (auto simp: cf_inv_def)
  have F_ends: "(en, F) \<in> (cf_edges f'')\<^sup>*" "(F, ex) \<in> (cf_edges f'')\<^sup>*"
    using path [OF reach(1) [of R]] path [OF reach(2) [of R]] R ends by (auto simp: redirect_def)
  have L_ex: "(L, ex) \<in> (cf_edges f'')\<^sup>*"
  proof -
    have "(R, ex) \<in> (cf_edges f)\<^sup>*" "R \<noteq> ex" using reach(2) R by auto
    then obtain c where c: "(R, c) \<in> cf_edges f" "(c, ex) \<in> (cf_edges f)\<^sup>*" by (meson converse_rtranclE)
    then show ?thesis
      using LR path [OF c(2)] ends by (metis converse_rtrancl_into_rtrancl)
  qed
  show ?thesis
  proof (cases "b \<in> set bs")
    case True
    then show ?thesis using within F_ends(1) L_ex by (meson rtrancl_trans)
  next
    case False
    then have "b \<in> set (blocks_of f)" "redirect R F b = b" using b by (auto simp: redirect_def)
    then show ?thesis using path [OF reach(1)] path [OF reach(2)] ends by metis
  qed
qed

lemma params_ok_added:
  assumes "shape_added f f' s bs F L" and "skel_ok f" and "b \<in> set (blocks_of f)" and "b \<notin> set bs" and "params_ok f b"
  shows "params_ok f' b"
proof -
  obtain ps vs where "dfg_blocks f' = dfg_blocks f @ ps" "dfg_values f' = dfg_values f @ vs" "term_of f' b = term_of f b"
    using assms(1,4) by (auto simp: shape_added_def)
  then show ?thesis
    using assms(5) skel_block_bound [OF assms(2,3)] by (auto simp: params_ok_def nth_append)
qed

lemma cf_replace_inv:
  assumes inv: "cf_inv f en ex" and added: "shape_added f f' s bs F L" and R: "R \<in> set (blocks_of f) - {en, ex}"
  shows "\<exists>f''. cf_replace s R f' = Some f'' \<and> cf_inv f'' en ex \<and> blocks_of f'' = removeAll R (blocks_of f) @ bs"
proof -
  have br: "\<forall>b. term_of f b \<noteq> None \<longrightarrow> branch_ok f b" and ok: "skel_ok f" using inv by (auto simp: cf_inv_def)
  note view = shape_added_branches [OF added ok br]
  have fresh: "b \<notin> set (blocks_of f)" if "b \<in> set bs" for b
    using added skel_block_bound [OF ok, of b] that by (auto simp: shape_added_def)
  then have Rb: "R \<notin> set bs" using R by auto
  have blocks: "blocks_of f' = blocks_of f @ bs" and FL: "F \<in> set bs" "L \<in> set bs" "term_of f' L = None"
    and same: "\<And>b. b \<notin> set bs \<Longrightarrow> term_of f' b = term_of f b" and ok': "skel_ok f'"
    and s: "get_first_block s = Some F" "get_last_block s = Some L"
    using added by (auto simp: shape_added_def)
  have sub: "set (targets f b) \<subseteq> set (blocks_of f) - {en, b}" for b using inv by (simp add: cf_inv_def)
  have child: "set (targets f' b) \<subseteq> set bs - {b}" if "b \<in> set bs" for b
    using added that targets_None [OF FL(3)] unfolding shape_added_def by (cases "b = L") simp_all
  have "F \<notin> set (targets f' b)" if "R \<in> set (targets f' b)" for b
  proof (cases "b \<in> set bs")
    case True
    then show ?thesis using child [OF True] that Rb by auto
  next
    case False
    then show ?thesis using view(1) [OF False] sub [of b] fresh [OF FL(1)] by auto
  qed
  then have F: "\<forall>b. R \<in> set (targets f' b) \<longrightarrow> F \<notin> set (targets f' b)" by blast
  have "term_of f' R \<noteq> None" using same [OF Rb] inv R by (simp add: cf_inv_def)
  then obtain f'' where f'': "cf_replace s R f' = Some f''" "replaced f' R F L f''"
    using cf_replace_replaced [OF ok' view(3) view(2) s _ _ _ _ FL(3) F] blocks FL(2) Rb R by fastforce
  have blocks'': "blocks_of f'' = removeAll R (blocks_of f) @ bs"
    using f''(2) blocks Rb by (simp add: replaced_def)
  have tL: "set (targets f'' L) = redirect R F ` set (targets f' R)" "term_of f'' L \<noteq> None"
    and tO: "\<And>b. b \<notin> {R, L} \<Longrightarrow> targets f'' b = map (redirect R F) (targets f' b)"
    and tR: "targets f'' R = []"
    and op: "\<And>b. b \<notin> {R, L} \<Longrightarrow> map_option inst_opcode (term_of f'' b) = map_option inst_opcode (term_of f' b)"
    using f''(2) by (auto simp: replaced_def targets_None)
  have tgt: "set (targets f'' b) \<subseteq> set (blocks_of f'') - {en, b}" for b
  proof -
    consider "b = R" | "b = L" | "b \<in> set bs" "b \<noteq> L" "b \<noteq> R" | "b \<notin> set bs" "b \<noteq> R" "b \<noteq> L" by blast
    then show ?thesis
    proof cases
      case 1
      then show ?thesis using tR by simp
    next
      case 2
      then show ?thesis
        using tL view(1) [OF Rb] sub [of R] fresh [OF FL(2)] blocks'' by (auto simp: redirect_def)
    next
      case 3
      have "en \<notin> set bs" using inv fresh [of en] by (auto simp: cf_inv_def)
      then show ?thesis
        using 3 tO child [OF 3(1)] Rb blocks'' by (auto simp: redirect_def)
    next
      case 4
      have "en \<noteq> F" using inv fresh [OF FL(1)] by (auto simp: cf_inv_def)
      then show ?thesis
        using 4 tO view(1) [OF 4(1)] sub [of b] FL(1) blocks'' by (auto simp: redirect_def)
    qed
  qed
  have none: "term_of f'' b = None \<longleftrightarrow> b = ex" if b: "b \<in> set (blocks_of f'')" for b
  proof (cases "b = L")
    case True
    then show ?thesis using tL(2) inv fresh [OF FL(2)] by (auto simp: cf_inv_def)
  next
    case False
    have "b \<noteq> R" using b blocks'' Rb by auto
    with False have "map_option inst_opcode (term_of f'' b) = map_option inst_opcode (term_of f' b)" using op by simp
    then have "term_of f'' b = None \<longleftrightarrow> term_of f' b = None" by (metis map_option_is_None)
    moreover have "term_of f' b \<noteq> None \<and> b \<noteq> ex" if "b \<in> set bs"
    proof -
      have "\<forall>b \<in> set bs. b \<noteq> L \<longrightarrow> term_of f' b \<noteq> None" using added by (auto simp: shape_added_def)
      moreover have "ex \<in> set (blocks_of f)" using inv by (simp add: cf_inv_def)
      ultimately show ?thesis using that False fresh [OF that] by auto
    qed
    moreover have "term_of f' b = None \<longleftrightarrow> b = ex" if "b \<notin> set bs"
      using same [OF that] inv b blocks'' that by (auto simp: cf_inv_def)
    ultimately show ?thesis by (cases "b \<in> set bs") simp_all
  qed
  have params: "params_ok f'' b" if b: "b \<in> set (blocks_of f'')" for b
  proof -
    have "params_ok f' b"
      using added params_ok_added [OF added ok] inv b blocks'' by (cases "b \<in> set bs") (auto simp: shape_added_def cf_inv_def)
    moreover have "dfg_blocks f'' = dfg_blocks f'" "dfg_values f'' = dfg_values f'"
      using f''(2) by (auto simp: replaced_def)
    moreover have "b \<noteq> R" using b blocks'' Rb by auto
    ultimately show ?thesis
      using params_ok_opcode [of f' b f''] op [of b] FL(3) by (cases "b = L") (auto simp: params_ok_def)
  qed
  obtain rest where rest: "blocks_of f = en # rest" using inv by (cases "blocks_of f") (auto simp: cf_inv_def)
  have ex: "ex \<in> set (blocks_of f)" "en \<noteq> ex" using inv by (simp_all add: cf_inv_def)
  have "cf_inv f'' en ex"
  proof (rule cf_invI)
    show "skel_ok f''" using f''(2) by (simp add: replaced_def)
    show "branch_ok f'' b" if "term_of f'' b \<noteq> None" for b
      using f''(2) that by (simp add: replaced_def)
    show "blocks_of f'' = en # (removeAll R rest @ bs)" using blocks'' rest R by auto
    show "(en, b) \<in> (cf_edges f'')\<^sup>* \<and> (b, ex) \<in> (cf_edges f'')\<^sup>*" if "b \<in> set (blocks_of f'')" for b
      by (rule replace_reach [OF inv added f''(2) R]) (use that blocks'' in simp)
    have "en \<in> set (blocks_of f)" "map_option inst_opcode (term_of f en) = Some ''jump''"
      using inv rest by (simp_all add: cf_inv_def)
    moreover from this have "en \<notin> set bs" using fresh by blast
    moreover from this have "en \<noteq> L" "en \<noteq> R" using FL(2) R by auto
    ultimately show "map_option inst_opcode (term_of f'' en) = Some ''jump''"
      using op [of en] same [of en] by simp
  qed (use none params ex R blocks'' tgt in auto)
  then show ?thesis using f''(1) blocks'' by blast
qed

subsection \<open>The recursion\<close>

text \<open>Where the next level may put its shape.\<close>

definition parent_ok :: "func \<Rightarrow> block \<Rightarrow> block \<Rightarrow> block_type \<Rightarrow> bool" where
  "parent_ok f en ex s \<longleftrightarrow> flat_shape s \<and> shape_cands s \<subseteq> set (blocks_of f) - {en, ex}"

lemma cf_nested_inv:
  assumes "rand_ok R" and "rng_ready g" and inv: "cf_inv f en ex" and s: "parent_ok f en ex s"
  shows "\<exists>t f' g'. cf_nested R s f g = Some (Some t, f', g') \<and> rng_ready g' \<and> cf_inv f' en ex \<and> parent_ok f' en ex t"
proof -
  define odds :: nat where "odds = (if case s of BSequential _ \<Rightarrow> True | _ \<Rightarrow> False then 3 else 2)"
  obtain c g1 where c: "cf_choice R odds g = Some (c, g1)" "c \<le> 3" "rng_ready g1"
    using cf_choice_ex [OF assms(1,2)] by blast
  obtain b g2 where b: "get_random_block R s g1 = Some (b, g2)" "b \<in> shape_cands s" "rng_ready g2"
    using get_random_block_ex [OF assms(1) c(3)] s unfolding parent_ok_def by blast
  have ok: "skel_ok f" using inv by (simp add: cf_inv_def)
  obtain t f' g3 bs F L where t: "cf_shape R c f g2 = Some (Some t, f', g3)" "rng_ready g3" "shape_added f f' t bs F L"
    using cf_shape_added [OF assms(1) b(3) ok c(2)] by blast
  have "b \<in> set (blocks_of f) - {en, ex}" using b(2) s by (auto simp: parent_ok_def)
  from cf_replace_inv [OF inv t(3) this] obtain f'' where f'': "cf_replace t b f' = Some f''" "cf_inv f'' en ex"
    "blocks_of f'' = removeAll b (blocks_of f) @ bs"
    by blast
  have "bs \<noteq> []" "flat_shape t" "shape_cands t \<subseteq> set bs" and new: "set bs \<inter> {..<num_blocks f} = {}"
    using t(3) by (auto simp: shape_added_def)
  moreover have "en < num_blocks f" "ex < num_blocks f"
    using inv skel_block_bound [of f] by (auto simp: cf_inv_def)
  ultimately have "parent_ok f'' en ex t" using f''(3) by (auto simp: parent_ok_def)
  then show ?thesis
    using c b t f'' unfolding cf_nested_def odds_def by (auto simp: Let_def)
qed

lemma cf_level_inv:
  assumes "rand_ok R" and "rng_ready g" and "cf_inv f en ex" and s: "parent_ok f en ex s"
  shows "\<exists>t f' g'. cf_level R (Some s) f g = Some (Some t, f', g') \<and> rng_ready g' \<and> cf_inv f' en ex \<and> parent_ok f' en ex t"
proof -
  have "cf_level R (Some s) f g = cf_nested R s f g"
    using s by (cases s) (simp_all add: cf_level_def parent_ok_def)
  then show ?thesis using cf_nested_inv [OF assms] by simp
qed

lemma cf_construct_nested:
  assumes "rand_ok R" and "rng_ready g" and "cf_inv f en ex" and "parent_ok f en ex s"
  shows "\<exists>f' g'. cf_construct R f (Some s) depth g = Some (f', g') \<and> rng_ready g' \<and> cf_inv f' en ex"
  using assms(2,3,4)
proof (induction "MAX_DEPTH - depth" arbitrary: depth f g s)
  case 0
  obtain t f' g' where t: "cf_level R (Some s) f g = Some (Some t, f', g')" "rng_ready g'" "cf_inv f' en ex"
    using cf_level_inv [OF assms(1) "0.prems"] by blast
  with "0.hyps" show ?case by (simp add: cf_construct.simps [of R f "Some s"])
next
  case (Suc n)
  obtain t f' g' where t: "cf_level R (Some s) f g = Some (Some t, f', g')" "rng_ready g'" "cf_inv f' en ex"
      "parent_ok f' en ex t"
    using cf_level_inv [OF assms(1) Suc.prems] by blast
  have "n = MAX_DEPTH - Suc depth" "\<not> MAX_DEPTH \<le> depth" using Suc.hyps(2) by auto
  then show ?case
    using t(1) Suc.hyps(1) [OF _ t(2,3,4), of "Suc depth"] by (simp add: cf_construct.simps [of R f "Some s"])
qed

text \<open>The first level joins the entry, the first shape and the end block.\<close>

lemma cf_joined:
  assumes added: "shape_added f f' s bs F L" and ok: "skel_ok f" and none: "\<And>b. term_of f b = None"
    and blocks: "blocks_of f = [en, ex]" "en \<noteq> ex" and empty: "dfg_blocks f ! en = []" "dfg_blocks f ! ex = []"
    and f'': "f'' = set_term L (Jump (BlockCall ex [])) (set_term en (Jump (BlockCall F [])) f')"
  shows "cf_inv f'' en ex \<and> parent_ok f'' en ex s"
proof -
  note view = shape_added_branches [OF added ok]
  have ok': "skel_ok f'" and blocks': "blocks_of f' = [en, ex] @ bs" and FL: "F \<in> set bs" "L \<in> set bs" "term_of f' L = None"
    and flat: "flat_shape s" "shape_cands s \<subseteq> set bs"
    using added blocks by (auto simp: shape_added_def)
  have fresh: "en \<notin> set bs" "ex \<notin> set bs"
    using ok' blocks' by (auto simp: skel_ok_def wf_layout_def)
  have oke: "skel_ok (set_term en (Jump (BlockCall F [])) f')" using blocks' by (intro skel_set_term [OF ok']) simp
  have ok'': "skel_ok f''" unfolding f'' using blocks' FL(2) by (intro skel_set_term [OF oke]) simp
  have terms: "term_of f'' = (term_of f')(en \<mapsto> Jump (BlockCall F []), L \<mapsto> Jump (BlockCall ex []))"
    by (simp add: f'' ok' oke)
  have tables: "jump_tables f'' = jump_tables f' @ []" and same: "blocks_of f'' = [en, ex] @ bs"
    "dfg_blocks f'' = dfg_blocks f'" "dfg_values f'' = dfg_values f'"
    using blocks' by (simp_all add: f'')
  have child: "branch_ok f'' b \<and> targets f'' b = targets f' b \<and> set (targets f' b) \<subseteq> set bs - {b} \<and> term_of f' b \<noteq> None"
    if b: "b \<in> set bs" "b \<noteq> L" for b
  proof -
    have t: "term_of f' b \<noteq> None" "set (targets f' b) \<subseteq> set bs - {b}" using added b by (auto simp: shape_added_def)
    then have "branch_ok f' b" using view(2) none by simp
    then have "branch_ok f'' b \<and> calls_of f'' b = calls_of f' b"
      by (rule branch_ok_ext [OF _ _ tables]) (use b fresh in \<open>auto simp: terms split: if_splits\<close>)
    then show ?thesis using t by (simp add: targets_calls)
  qed
  have ends: "targets f'' en = [F]" "targets f'' L = [ex]" "branch_ok f'' en" "branch_ok f'' L"
    using fresh FL by (auto simp: targets_calls calls_of_def terms branch_ok_def)
  have old: "term_of f' b = None" if "b \<notin> set bs" for b using added none that by (auto simp: shape_added_def)
  have no: "targets f'' b = []" if "b \<notin> insert en (set bs)" for b
    by (rule targets_None) (use that old [of b] FL in \<open>auto simp: terms\<close>)
  have part: "b = en \<or> b = L \<or> (b \<in> set bs \<and> b \<noteq> L) \<or> b \<notin> insert en (set bs)" for b by auto
  have sub: "set (targets f'' b) \<subseteq> set (blocks_of f'') - {en, b}" for b
    using part [of b] ends(1,2) child [of b] no [of b] fresh FL same(1) blocks(2) by auto
  have br: "branch_ok f'' b" if "term_of f'' b \<noteq> None" for b
    using part [of b]
  proof (elim disjE)
    assume "b \<notin> insert en (set bs)"
    then have "b \<noteq> en" "b \<noteq> L" "term_of f' b = None" using old [of b] FL(2) by auto
    then show ?thesis using that by (simp add: terms)
  qed (use ends(3,4) child [of b] in auto)
  obtain ps where ps: "dfg_blocks f' = dfg_blocks f @ ps" using added by (auto simp: shape_added_def)
  have params: "params_ok f'' b" if "b \<in> set (blocks_of f'')" for b
  proof (cases "b \<in> set bs")
    case True
    then have p: "params_ok f' b" using added by (auto simp: shape_added_def)
    then show ?thesis
      using True fresh FL(3) same by (cases "b = L") (auto simp: params_ok_def terms)
  next
    case False
    then have "b = en \<or> b = ex" "b < num_blocks f"
      using that same(1) skel_block_bound [OF ok, of b] blocks by auto
    then show ?thesis using empty by (auto simp: params_ok_def same(2) ps nth_append)
  qed
  have "shape_edges f' bs \<subseteq> cf_edges f''"
    using child targets_None [OF FL(3)] by (fastforce simp: shape_edges_def cf_edges_def)
  from rtrancl_mono [OF this] have within: "(F, b) \<in> (cf_edges f'')\<^sup>* \<and> (b, L) \<in> (cf_edges f'')\<^sup>*" if "b \<in> set bs" for b
    using added that unfolding shape_added_def shape_edges_def by blast
  have "(en, F) \<in> cf_edges f''" "(L, ex) \<in> cf_edges f''" using ends by (auto simp: cf_edges_def)
  then have en: "(en, b) \<in> (cf_edges f'')\<^sup>*" and ex: "(b, ex) \<in> (cf_edges f'')\<^sup>*" if "b \<in> set bs" for b
    using within [OF that] by (auto intro: converse_rtrancl_into_rtrancl rtrancl_into_rtrancl)
  have en_ex: "(en, ex) \<in> (cf_edges f'')\<^sup>*" using en [OF FL(1)] ex [OF FL(1)] by (rule rtrancl_trans)
  have "cf_inv f'' en ex"
  proof (rule cf_invI [where bs = "ex # bs"])
    show "map_option inst_opcode (term_of f'' en) = Some ''jump''" using fresh FL(2) by (auto simp: terms)
    show "branch_ok f'' b" if "term_of f'' b \<noteq> None" for b by (rule br [OF that])
    show "set (targets f'' b) \<subseteq> set (blocks_of f'') - {en, b}" for b by (rule sub)
    show "params_ok f'' b" if "b \<in> set (blocks_of f'')" for b by (rule params [OF that])
    show "(en, b) \<in> (cf_edges f'')\<^sup>* \<and> (b, ex) \<in> (cf_edges f'')\<^sup>*" if "b \<in> set (blocks_of f'')" for b
      using that same(1) en en_ex ex by auto
    show "term_of f'' b = None \<longleftrightarrow> b = ex" if "b \<in> set (blocks_of f'')" for b
    proof (cases "b \<in> set bs - {L}")
      case True
      then show ?thesis using child [of b] fresh by (auto simp: terms)
    next
      case False
      moreover have "b \<in> {en, ex} \<union> set bs" using that by (simp add: same(1))
      ultimately consider "b = en" | "b = ex" | "b = L" by blast
      then show ?thesis using old [OF fresh(2)] fresh FL(2) blocks(2) by cases (auto simp: terms)
    qed
  qed (use ok'' same(1) blocks(2) in simp_all)
  then show ?thesis using flat fresh same(1) by (auto simp: parent_ok_def)
qed

lemma cf_root_inv:
  assumes "rand_ok R" and "rng_ready g" and ok: "skel_ok f" and blocks: "blocks_of f = []"
  shows "\<exists>s f' g' en ex. cf_root R f g = Some (Some s, f', g') \<and> rng_ready g' \<and> cf_inv f' en ex \<and> parent_ok f' en ex s"
proof -
  define k where "k = num_blocks f"
  define f2 where "f2 = fold emit [(k, None), (Suc k, None)] (grow [[], []] [] [] f)"
  have g: "skel_ok (grow [[], []] [] [] f)" "k \<notin> set (blocks_of (grow [[], []] [] [] f))"
    using skel_grow [OF ok] blocks by auto
  have e1: "skel_ok (emit (k, None) (grow [[], []] [] [] f))" by (rule skel_emit [OF g(1)]) (simp_all add: blocks k_def)
  have ins: "cur_insert_block k (cursor_new (grow [[], []] [] [] f)) =
      Some \<lparr>cur_pos = After k, cur_func = emit (k, None) (grow [[], []] [] [] f)\<rparr>"
    using insert_block_emit [of "cursor_new (grow [[], []] [] [] f)" k] g by simp
  have ins2: "cur_insert_block (Suc k) \<lparr>cur_pos = After k, cur_func = emit (k, None) (grow [[], []] [] [] f)\<rparr> =
      Some \<lparr>cur_pos = After (Suc k), cur_func = f2\<rparr>"
    using insert_block_emit [of "\<lparr>cur_pos = After k, cur_func = emit (k, None) (grow [[], []] [] [] f)\<rparr>" "Suc k"] e1 blocks
    by (simp add: f2_def)
  obtain c g1 where c: "cf_choice R 2 g = Some (c, g1)" "c \<le> 3" "rng_ready g1"
    using cf_choice_ex [OF assms(1,2)] by blast
  have "distinct (map fst [(k, None), (Suc k, None)])"
    "set (map fst [(k, None), (Suc k, None)]) \<subseteq> {num_blocks f..<num_blocks f + length [[], []]}"
    by (auto simp: k_def)
  note e = emit_grow [OF ok this f2_def]
  have none: "term_of f2 b = None" for b
    using e(6) [of b] e(7) [of b None] term_of_not_block [OF ok, of b] blocks by (cases "b = k \<or> b = Suc k") auto
  obtain s f3 g3 bs F L where s: "cf_shape R c f2 g1 = Some (Some s, f3, g3)" "rng_ready g3" "shape_added f2 f3 s bs F L"
    using cf_shape_added [OF assms(1) c(3) e(1) c(2)] by blast
  have f3: "skel_ok f3" "blocks_of f3 = [k, Suc k] @ bs" "L \<in> set bs" "term_of f3 L = None"
    "get_first_block s = Some F" "get_last_block s = Some L" "k \<notin> set bs \<Longrightarrow> term_of f3 k = None"
    using s(3) e(2) blocks none by (auto simp: shape_added_def)
  then have k: "term_of f3 k = None" "k \<noteq> L" by (auto simp: skel_ok_def wf_layout_def)
  define f4 where "f4 = set_term L (Jump (BlockCall (Suc k) [])) (set_term k (Jump (BlockCall F [])) f3)"
  have ok4: "skel_ok (set_term k (Jump (BlockCall F [])) f3)" using f3(2) by (intro skel_set_term [OF f3(1)]) simp
  have j1: "ins_jump F [] \<lparr>cur_pos = After k, cur_func = f3\<rparr> =
      Some \<lparr>cur_pos = After k, cur_func = set_term k (Jump (BlockCall F [])) f3\<rparr>"
    by (rule ins_view(1)) (use f3 k in \<open>auto simp: term_of_None_iff\<close>)
  have j2: "ins_jump (Suc k) [] \<lparr>cur_pos = After L, cur_func = set_term k (Jump (BlockCall F [])) f3\<rparr> =
      Some \<lparr>cur_pos = After L, cur_func = f4\<rparr>"
    unfolding f4_def
    by (rule ins_view(1) [OF ok4]) (use f3 k in \<open>auto simp: term_of_None_iff [OF ok4, symmetric]\<close>)
  have mk: "make_block f = (k, f\<lparr>dfg_blocks := dfg_blocks f @ [[]]\<rparr>)"
    "make_block (f\<lparr>dfg_blocks := dfg_blocks f @ [[]]\<rparr>) = (Suc k, grow [[], []] [] [] f)"
    by (simp_all add: make_block_def k_def grow_def)
  have b1: "goto_bottom k (cursor_new f3) = Some \<lparr>cur_pos = After k, cur_func = f3\<rparr>"
    using f3(2) by (simp add: goto_bottom_def is_block_inserted_def cursor_new_def)
  have b2: "goto_bottom L \<lparr>cur_pos = After k, cur_func = set_term k (Jump (BlockCall F [])) f3\<rparr> =
      Some \<lparr>cur_pos = After L, cur_func = set_term k (Jump (BlockCall F [])) f3\<rparr>"
    using f3(2,3) by (simp add: goto_bottom_def is_block_inserted_def)
  have "cf_root R f g = Some (Some s, f4, g3)"
    by (simp add: cf_root_def mk ins ins2 c(1) s(1) f3(5,6) b1 b2 j1 j2)
  moreover have "cf_inv f4 k (Suc k) \<and> parent_ok f4 k (Suc k) s"
    by (rule cf_joined [OF s(3) e(1) none _ _ _ _ f4_def]) (simp_all add: e(2,3) blocks k_def nth_append)
  ultimately show ?thesis using s(2) by blast
qed

text \<open>The construction of a function without blocks: it does not panic, and the result keeps the
  invariant.\<close>

lemma cf_construct_inv:
  assumes "rand_ok R" and "rng_ready g" and "skel_ok f" and "blocks_of f = []"
  shows "\<exists>f' g' en ex. cf_construct R f None depth g = Some (f', g') \<and> rng_ready g' \<and> cf_inv f' en ex"
proof -
  obtain s f1 g1 en ex where s: "cf_root R f g = Some (Some s, f1, g1)" "rng_ready g1" "cf_inv f1 en ex" "parent_ok f1 en ex s"
    using cf_root_inv [OF assms] by blast
  then show ?thesis
    using cf_construct_nested [OF assms(1) s(2,3,4), of "Suc depth"]
    by (auto simp: cf_construct.simps [of R f None] cf_level_def)
qed

lemma cf_inv_flow:
  assumes "cf_inv f en ex"
  shows "wf_flow f" and "flow_entry f = en" and "flow_edges f = cf_edges f"
proof -
  have ok: "skel_ok f" and br: "\<forall>b. term_of f b \<noteq> None \<longrightarrow> branch_ok f b"
    and sub: "\<forall>b. set (targets f b) \<subseteq> set (blocks_of f) - {en, b}"
    using assms by (auto simp: cf_inv_def)
  have "term_ok (jump_tables f) d" if "term_of f b = Some d" for b d
    using br [rule_format, of b] that by (simp add: branch_ok_def)
  with ok have "flow_ok f" by (rule flow_ok_skel)
  then show "wf_flow f" "flow_entry f = en"
    using assms sub by (auto simp: wf_flow_def flow_nodes_def flow_entry_def list_all_iff cf_inv_def)
  have "targets f b = []" if "b \<notin> set (blocks_of f)" for b
    by (rule targets_None) (rule term_of_not_block [OF ok that])
  then show "flow_edges f = cf_edges f" by (fastforce simp: flow_edges_def cf_edges_def)
qed

lemma cf_inv_exit:
  assumes "cf_inv f en ex" and "b \<in> set (blocks_of f)"
  shows "targets f b = [] \<longleftrightarrow> b = ex"
proof (cases "b = ex")
  case True
  then have "term_of f b = None" using assms by (simp add: cf_inv_def)
  with True show ?thesis using targets_None by simp
next
  case False
  then have "term_of f b \<noteq> None" using assms by (simp add: cf_inv_def)
  then have "branch_ok f b" using assms(1) unfolding cf_inv_def by blast
  then obtain d where "term_of f b = Some d" "term_ok (jump_tables f) d" by (rule branch_okE)
  then have "targets f b \<noteq> []" by (cases d) (auto simp: targets_calls calls_of_def)
  with False show ?thesis by simp
qed

text \<open>Started on an empty function.\<close>

lemma cf_construct_new_ex:
  assumes "rand_ok R" and "rng_ready g"
  shows "\<exists>f g' en ex. cf_construct R (func_new nm sg) None 0 g = Some (f, g') \<and> rng_ready g' \<and> cf_inv f en ex"
proof -
  have "skel_ok (func_new nm sg)" "blocks_of (func_new nm sg) = []"
    by (simp_all add: skel_ok_def func_new_def layout_new_def wf_layout_def)
  then show ?thesis using cf_construct_inv [OF assms, of "func_new nm sg" 0] by blast
qed

lemma cf_construct_new:
  assumes "rand_ok R" and "rng_ready g" and "cf_construct R (func_new nm sg) None 0 g = Some (f, g')"
  shows "\<exists>en ex. cf_inv f en ex"
  using cf_construct_new_ex [OF assms(1,2), of nm sg] assms(3) by auto

end
