(* ===== verification/Selector_Sound.thy ===== *)
theory Selector_Sound
  imports Selector_Arms
begin

text \<open>
  What the selector emits. The relation \<open>emits\<close> describes a run of emissions whose operands have
  types the opcode accepts and are candidates of the dominating blocks or results of the same run.
  Every arm is such a run when the modes of the configuration ask only for types the opcodes accept
  (\<open>legal_mode\<close>), and the type it records for its result is the type the value has.
\<close>

subsection \<open>Types of an instruction\<close>

text \<open>The types of the results of an opcode on operands of given types, when they pass the check of
  the verifier.\<close>

definition op_types :: "opcode \<Rightarrow> clif_type \<Rightarrow> clif_type list \<Rightarrow> clif_type list option" where
  "op_types m ty ts = do {
     oc \<leftarrow> constraints m;
     ct \<leftarrow> (case oc_ctrl oc of Operand k \<Rightarrow> nth_opt ts k | Explicit \<Rightarrow> Some ty | NotPoly \<Rightarrow> Some INVALID);
     if typecheck_op oc ct ts then result_types oc ct else None
   }"

text \<open>The opcode is accepted, and its first result has the recorded type \<open>r\<close>, if there is one.\<close>

definition op_yields :: "opcode \<Rightarrow> clif_type \<Rightarrow> clif_type list \<Rightarrow> clif_type option \<Rightarrow> bool" where
  "op_yields m ty ts r = (case op_types m ty ts of
      None \<Rightarrow> False
    | Some rs \<Rightarrow> (case r of None \<Rightarrow> True | Some t \<Rightarrow> nth_opt rs 0 = Some t))"

definition types_of :: "func \<Rightarrow> val list \<Rightarrow> clif_type list \<Rightarrow> bool" where
  "types_of f vs ts \<longleftrightarrow> map (value_type f) vs = map Some ts"

lemma types_of_simps [simp]:
  "types_of f [] ts \<longleftrightarrow> ts = []"
  "types_of f (v # vs) (t # ts) \<longleftrightarrow> value_type f v = Some t \<and> types_of f vs ts"
  by (auto simp: types_of_def)

lemma nth_opt_value_types:
  assumes "types_of f vs ts"
  shows "do { v \<leftarrow> nth_opt vs k; value_type f v } = nth_opt ts k"
proof -
  have "length vs = length ts" using assms by (metis length_map types_of_def)
  moreover have "value_type f (vs ! k) = Some (ts ! k)" if "k < length ts"
    using assms that calculation by (metis nth_map types_of_def)
  ultimately show ?thesis by (auto simp: nth_opt_def)
qed

lemma ctrl_type_types:
  "types_of f args ts \<Longrightarrow> ctrl_type oc ty args f =
     (case oc_ctrl oc of Operand k \<Rightarrow> nth_opt ts k | Explicit \<Rightarrow> Some ty | NotPoly \<Rightarrow> Some INVALID)"
  by (simp add: ctrl_type_def nth_opt_value_types split: ctrl_source.splits)

subsection \<open>Emission\<close>

lemma build_inst_fields:
  assumes "build_inst d tys c = Some (i, c')"
  shows "i = length (dfg_insts (cur_func c))"
    and "dfg_values (cur_func c') = dfg_values (cur_func c) @ map (\<lambda>k. ValInst (tys ! k) k i) [0..<length tys]"
    and "stack_slots (cur_func c') = stack_slots (cur_func c)"
  using assms
  by (auto simp: build_inst_def make_inst_def make_inst_results_def insert_inst_def set_layout_def Let_def
      split: cursor_position.splits)

lemma value_type_append: "value_type f v = Some t \<Longrightarrow> dfg_values f' = dfg_values f @ vs \<Longrightarrow> value_type f' v = Some t"
  by (auto simp: value_type_def nth_opt_def nth_append split: if_splits)

lemma ins_op_types:
  assumes ins: "ins_op m ty imms args c = Some (vs, c')" and args: "types_of (cur_func c) args ts"
    and rs: "op_types m ty ts = Some rs"
  shows "types_of (cur_func c') vs rs"
    and "\<exists>xs. dfg_values (cur_func c') = dfg_values (cur_func c) @ xs"
    and "stack_slots (cur_func c') = stack_slots (cur_func c)"
proof -
  let ?n = "length (dfg_values (cur_func c))"
  obtain oc ct where oc: "constraints m = Some oc" "ctrl_type oc ty args (cur_func c) = Some ct" "result_types oc ct = Some rs"
    using rs args by (auto simp: op_types_def ctrl_type_types bind_eq_Some_conv split: if_splits)
  obtain i where i: "build_inst (Op m (mask_immediates m ct imms) args) rs c = Some (i, c')" "vs = [?n..<?n + length rs]"
    using ins oc by (auto simp: ins_op_def bind_eq_Some_conv Let_def)
  note fields = build_inst_fields [OF i(1)]
  show "\<exists>xs. dfg_values (cur_func c') = dfg_values (cur_func c) @ xs" using fields(2) by blast
  show "stack_slots (cur_func c') = stack_slots (cur_func c)" by (rule fields(3))
  show "types_of (cur_func c') vs rs"
    unfolding types_of_def i(2)
    by (rule nth_equalityI) (auto simp: fields(2) value_type_def nth_opt_def nth_append)
qed

definition candidates :: "dom_env \<Rightarrow> val set" where
  "candidates D = {v. \<exists>t. v \<in> set (get_dominator_values_with_type D t)}"

inductive emits :: "dom_env \<Rightarrow> cursor \<Rightarrow> cursor \<Rightarrow> val set \<Rightarrow> bool" for D c where
  emits_none: "emits D c c {}"
| emits_op: "emits D c c1 S \<Longrightarrow> ins_op m ty imms args c1 = Some (vs, c2) \<Longrightarrow> types_of (cur_func c1) args ts \<Longrightarrow>
    op_types m ty ts = Some rs \<Longrightarrow> set args \<subseteq> candidates D \<union> S \<Longrightarrow> emits D c c2 (S \<union> set vs)"

lemma emits_values:
  "emits D c c' S \<Longrightarrow> \<exists>xs. dfg_values (cur_func c') = dfg_values (cur_func c) @ xs"
proof (induction rule: emits.induct)
  case (emits_op c1 S m ty imms args vs c2 ts rs)
  then show ?case using ins_op_types(2) by (metis append.assoc)
qed simp

lemma emits_value_type: "emits D c c' S \<Longrightarrow> value_type (cur_func c) v = Some t \<Longrightarrow> value_type (cur_func c') v = Some t"
  using emits_values value_type_append by blast

text \<open>One more instruction at the end of a run.\<close>

lemma emits_value:
  assumes run: "emits D c c1 S" and ins: "ins_value m ty imms args c1 = Some (v, c2)"
    and args: "types_of (cur_func c1) args ts" "set args \<subseteq> candidates D \<union> S" and op: "op_yields m ty ts r"
  obtains S' where "emits D c c2 S'" and "S \<subseteq> S'" and "v \<in> S'"
    and "\<And>t. r = Some t \<Longrightarrow> value_type (cur_func c2) v = Some t"
proof -
  obtain rs where rs: "op_types m ty ts = Some rs" "\<And>t. r = Some t \<Longrightarrow> nth_opt rs 0 = Some t"
    using op by (auto simp: op_yields_def split: option.splits)
  obtain vs where vs: "ins_op m ty imms args c1 = Some (vs, c2)" "nth_opt vs 0 = Some v"
    using ins by (auto simp: ins_value_def bind_eq_Some_conv)
  have "types_of (cur_func c2) vs rs" by (rule ins_op_types(1) [OF vs(1) args(1) rs(1)])
  then have "value_type (cur_func c2) v = Some t" if "r = Some t" for t
    using vs(2) rs(2) [OF that] nth_opt_value_types [of "cur_func c2" vs rs 0] by simp
  moreover have "v \<in> set vs" using vs(2) by (auto simp: nth_opt_def split: if_splits)
  ultimately show thesis
    using that [of "S \<union> set vs"] emits_op [OF run vs(1) args(1) rs(1) args(2)] by blast
qed

lemma emits_plain:
  assumes run: "emits D c c1 S" and ins: "ins_plain m ty imms args c1 = Some c2"
    and args: "types_of (cur_func c1) args ts" "set args \<subseteq> candidates D \<union> S" and op: "op_yields m ty ts None"
  shows "\<exists>S'. emits D c c2 S'"
proof -
  obtain rs where rs: "op_types m ty ts = Some rs"
    using op by (auto simp: op_yields_def split: option.splits)
  obtain vs where vs: "ins_op m ty imms args c1 = Some (vs, c2)"
    using ins by (auto simp: ins_plain_def)
  show ?thesis using emits_op [OF run vs args(1) rs args(2)] by blast
qed

subsection \<open>Candidates\<close>

text \<open>The recorded values have their recorded types.\<close>

definition env_ok :: "dom_env \<Rightarrow> func \<Rightarrow> bool" where
  "env_ok D f \<longleftrightarrow> (\<forall>b tvs tv. b \<in> set (dominator_blocks D) \<longrightarrow> map_of (block_dominator_values D) b = Some tvs \<longrightarrow>
     tv \<in> set tvs \<longrightarrow> value_type f (get_value tv) = Some (get_type tv))"

lemma candidate_iff:
  "v \<in> set (get_dominator_values_with_type D t) \<longleftrightarrow>
     (\<exists>b tvs. b \<in> set (dominator_blocks D) \<and> map_of (block_dominator_values D) b = Some tvs \<and> TypedValue v t \<in> set tvs)"
proof -
  have "v \<in> set (block_values D t b) \<longleftrightarrow> (\<exists>tvs. map_of (block_dominator_values D) b = Some tvs \<and> TypedValue v t \<in> set tvs)" for b
    by (force simp: block_values_def split: option.splits)
  then show ?thesis by (auto simp: get_dominator_values_with_type_def)
qed

lemma candidate_type: "v \<in> set (get_dominator_values_with_type D t) \<Longrightarrow> env_ok D f \<Longrightarrow> value_type f v = Some t"
  unfolding candidate_iff env_ok_def by fastforce

lemma candidate_in: "v \<in> set (get_dominator_values_with_type D t) \<Longrightarrow> v \<in> candidates D"
  by (auto simp: candidates_def)

lemma env_ok_emits: "emits D c c' S \<Longrightarrow> env_ok D' (cur_func c) \<Longrightarrow> env_ok D' (cur_func c')"
  unfolding env_ok_def using emits_value_type by blast

subsection \<open>Draws\<close>

lemma select_random_value_SomeD:
  assumes "select_random_value R xs g = Some (Some x, g')" and "rand_ok R"
  shows "x \<in> set xs \<and> global_rng g' = global_rng g"
  using assms
  by (auto simp: select_random_value_def Let_def bind_eq_Some_conv thread_above_ratio_def
      split: if_splits prod.splits dest!: thread_gen_range_SomeD)

lemma select_random_value_ex:
  assumes "rand_ok R" and "xs \<noteq> []"
  shows "\<exists>x g'. select_random_value R xs g = Some (Some x, g') \<and> x \<in> set xs \<and> global_rng g' = global_rng g"
proof -
  obtain h g1 where h: "thread_above_ratio R g = (h, g1)" by (meson surj_pair)
  have g1: "global_rng g1 = global_rng g" using h by (auto simp: thread_above_ratio_def split: prod.splits)
  show ?thesis
    using thread_gen_range_ex [OF assms(1), of 0 "min ((length xs + 5) div 10) (length xs)" g1]
      thread_gen_range_ex [OF assms(1), of 0 "length xs" g1] assms(2) h g1
    by (cases "h \<and> (length xs + 5) div 10 = 0") (auto simp: select_random_value_def Let_def)
qed

lemma pick_SomeD: "pick R xs g = Some (x, g') \<Longrightarrow> rand_ok R \<Longrightarrow> x \<in> set xs \<and> global_rng g' = global_rng g"
  by (auto simp: pick_def bind_eq_Some_conv dest: select_random_value_SomeD)

lemma pick_ex:
  "rand_ok R \<Longrightarrow> xs \<noteq> [] \<Longrightarrow> \<exists>x g'. pick R xs g = Some (x, g') \<and> x \<in> set xs \<and> global_rng g' = global_rng g"
  using select_random_value_ex [of R xs g] by (auto simp: pick_def)

lemma two_operands_SomeD:
  assumes "two_operands R t xs g = Some (x, y, refs, g')" and "rand_ok R" and "xs \<noteq> []"
  shows "x \<in> set xs" and "y \<in> set xs" and "refs \<noteq> []" and "get_type ` set refs = {t}" and "global_rng g' = global_rng g"
  using assms by (auto simp: two_operands_def bind_eq_Some_conv split: if_splits dest!: pick_SomeD)

definition mode_types :: "operand_type list option \<Rightarrow> clif_type set" where
  "mode_types types = (case types of None \<Rightarrow> {} | Some ts \<Rightarrow> to_cranelift_type ` set ts)"

lemma choose_type_SomeD:
  "choose_type R types g = Some (t, g') \<Longrightarrow> rand_ok R \<Longrightarrow> t \<in> mode_types types \<and> global_rng g' = global_rng g"
  by (auto simp: choose_type_def mode_types_def bind_eq_Some_conv dest!: thread_choose_SomeD)

lemma draw_rng [simp]:
  "global_rng (snd (gen_i64 R g)) = global_rng g"
  "global_rng (snd (thread_gen_bits R w g)) = global_rng g"
  "global_rng (snd (random_i64 R g)) = global_rng g"
  by (auto simp: gen_i64_def thread_gen_bits_def random_i64_def split: prod.splits)

subsection \<open>The contract of an arm\<close>

abbreviation offered :: "dom_env \<Rightarrow> typed_value list \<Rightarrow> bool" where
  "offered D refs \<equiv> list_all (\<lambda>tv. get_dominator_values_with_type D (get_type tv) \<noteq> []) refs"

definition res_ok :: "dom_env \<Rightarrow> func \<Rightarrow> val set \<Rightarrow> sel_result \<Rightarrow> bool" where
  "res_ok D f S res = (case res of
      None \<Rightarrow> True
    | Some (nv, refs) \<Rightarrow>
        (case nv of None \<Rightarrow> True | Some tv \<Rightarrow> get_value tv \<in> S \<and> value_type f (get_value tv) = Some (get_type tv)) \<and>
        (case refs of None \<Rightarrow> True | Some rs \<Rightarrow> offered D rs))"

definition arm_sound :: "dom_env \<Rightarrow> 'r arm \<Rightarrow> mode \<Rightarrow> bool" where
  "arm_sound D arm md \<longleftrightarrow> (\<forall>c g res c' g'. env_ok D (cur_func c) \<longrightarrow> arm md c g = Some (res, c', g') \<longrightarrow>
     (\<exists>S. emits D c c' S \<and> res_ok D (cur_func c') S res) \<and> global_rng g' = global_rng g)"

definition args_from :: "dom_env \<Rightarrow> val list \<Rightarrow> clif_type list \<Rightarrow> bool" where
  "args_from D args ts \<longleftrightarrow> list_all2 (\<lambda>x t. x \<in> set (get_dominator_values_with_type D t)) args ts"

lemma args_from_simps [simp]:
  "args_from D [] ts \<longleftrightarrow> ts = []"
  "args_from D (x # xs) (t # ts) \<longleftrightarrow> x \<in> set (get_dominator_values_with_type D t) \<and> args_from D xs ts"
  by (auto simp: args_from_def)

lemma args_from_types: "args_from D args ts \<Longrightarrow> env_ok D f \<Longrightarrow> types_of f args ts \<and> set args \<subseteq> candidates D"
  unfolding args_from_def
  by (induction args ts rule: list_all2_induct) (auto simp: candidate_type candidate_in)

text \<open>The ways an arm ends: with a result, with a result and no references, without a result.\<close>

lemma res_ok_nothing [simp]: "res_ok D f S None"
  by (simp add: res_ok_def)

lemma arm_value:
  assumes "emits D c c1 S" and "ins_value m ty imms args c1 = Some (v, c2)"
    and "types_of (cur_func c1) args ts" and "set args \<subseteq> candidates D \<union> S" and "op_yields m ty ts (Some r)"
  shows "offered D refs \<Longrightarrow> \<exists>S. emits D c c2 S \<and> res_ok D (cur_func c2) S (new_value v r refs)"
    and "\<exists>S. emits D c c2 S \<and> res_ok D (cur_func c2) S (new_only v r)"
proof -
  obtain S' where S': "emits D c c2 S'" "v \<in> S'" "value_type (cur_func c2) v = Some r"
    by (rule emits_value [OF assms]) auto
  then show "offered D refs \<Longrightarrow> \<exists>S. emits D c c2 S \<and> res_ok D (cur_func c2) S (new_value v r refs)"
    and "\<exists>S. emits D c c2 S \<and> res_ok D (cur_func c2) S (new_only v r)"
    by (auto simp: res_ok_def new_value_def new_only_def)
qed

lemma arm_value_from:
  assumes "op_yields m ty ts (Some r)" and "ins_value m ty imms args c = Some (v, c2)" and "args_from D args ts"
    and "env_ok D (cur_func c)"
  shows "offered D refs \<Longrightarrow> \<exists>S. emits D c c2 S \<and> res_ok D (cur_func c2) S (new_value v r refs)"
    and "\<exists>S. emits D c c2 S \<and> res_ok D (cur_func c2) S (new_only v r)"
  using arm_value [OF emits_none assms(2) _ _ assms(1)] args_from_types [OF assms(3,4)] by auto

lemma arm_plain:
  assumes "emits D c c1 S" and "ins_plain m ty imms args c1 = Some c2"
    and "types_of (cur_func c1) args ts" and "set args \<subseteq> candidates D \<union> S" and "op_yields m ty ts None" and "offered D refs"
  shows "\<exists>S. emits D c c2 S \<and> res_ok D (cur_func c2) S (used_only refs)"
    and "\<exists>S. emits D c c2 S \<and> res_ok D (cur_func c2) S None"
  using emits_plain [OF assms(1-5)] assms(6) by (auto simp: res_ok_def used_only_def)

lemma arm_nothing [simp]: "Ex (emits D c c)"
  using emits_none by auto

lemma sel_result_neq [simp]: "new_value v t refs \<noteq> None" "new_only v t \<noteq> None" "used_only refs \<noteq> None"
  "None \<noteq> new_value v t refs" "None \<noteq> new_only v t" "None \<noteq> used_only refs"
  by (simp_all add: new_value_def new_only_def used_only_def)

subsection \<open>What a mode asks for\<close>

text \<open>Every type of the mode is accepted by the opcode, for operands of the types \<open>ops\<close>, and the
  recorded type of the result is its type. For the shifts and \<open>bmask\<close> the two operands have lists of
  types of their own; \<open>select\<close> draws both types from the first list.\<close>

definition uses :: "opcode \<Rightarrow> (clif_type \<Rightarrow> clif_type list) \<Rightarrow> (clif_type \<Rightarrow> clif_type option) \<Rightarrow> mode \<Rightarrow> bool" where
  "uses m ops result md = (\<forall>t \<in> mode_types (mode_operand_types md). op_yields m t (ops t) (result t))"

definition uses_pair :: "opcode \<Rightarrow> (clif_type \<Rightarrow> clif_type \<Rightarrow> clif_type list) \<Rightarrow> mode \<Rightarrow> bool" where
  "uses_pair m ops md =
     (\<forall>t0 \<in> mode_types (mode_arg0_types md). \<forall>t1 \<in> mode_types (mode_arg1_types md). op_yields m t0 (ops t0 t1) (Some t0))"

definition uses_select :: "opcode \<Rightarrow> mode \<Rightarrow> bool" where
  "uses_select m md =
     (\<forall>ct \<in> mode_types (mode_arg0_types md). \<forall>t \<in> mode_types (mode_arg0_types md). op_yields m t [ct, t, t] (Some t))"

lemma usesD: "uses m ops result md \<Longrightarrow> t \<in> mode_types (mode_operand_types md) \<Longrightarrow> result t = Some r \<Longrightarrow>
    op_yields m t (ops t) (Some r)"
  by (force simp: uses_def)

lemma uses_pairD:
  "uses_pair m ops md \<Longrightarrow> t0 \<in> mode_types (mode_arg0_types md) \<Longrightarrow> t1 \<in> mode_types (mode_arg1_types md) \<Longrightarrow>
    op_yields m t0 (ops t0 t1) (Some t0)"
  "uses_select m md \<Longrightarrow> ct \<in> mode_types (mode_arg0_types md) \<Longrightarrow> t \<in> mode_types (mode_arg0_types md) \<Longrightarrow>
    op_yields m t [ct, t, t] (Some t)"
  by (simp_all add: uses_pair_def uses_select_def)

lemma uses_plainD: "uses m ops (\<lambda>_. None) md \<Longrightarrow> t \<in> mode_types (mode_operand_types md) \<Longrightarrow> op_yields m t (ops t) None"
  by (simp add: uses_def)

lemma arm_soundI:
  assumes "\<And>c g res c' g'. env_ok D (cur_func c) \<Longrightarrow> arm md c g = Some (res, c', g') \<Longrightarrow>
     (\<exists>S. emits D c c' S \<and> res_ok D (cur_func c') S res) \<and> global_rng g' = global_rng g"
  shows "arm_sound D arm md"
  using assms by (auto simp: arm_sound_def)

subsection \<open>The schemes\<close>

lemma two_operands_offered:
  assumes "two_operands R t (get_dominator_values_with_type D t) g = Some (x, y, refs, g')" and "rand_ok R"
    and "get_dominator_values_with_type D t \<noteq> []"
  shows "args_from D [x, y] [t, t] \<and> offered D refs \<and> global_rng g' = global_rng g"
  using two_operands_SomeD [OF assms] assms(3) by (auto simp: list_all_iff)

lemma binary_arm_sound:
  assumes R: "rand_ok R" and op: "uses m (\<lambda>t. [t, t]) result md"
  shows "arm_sound D (binary_arm R D m imms result) md" and "arm_sound D (binary_self_arm R D m result) md"
  by (rule arm_soundI, auto simp: binary_arm_def binary_self_arm_def Let_def
      split: if_splits elim!: bindE dest!: choose_type_SomeD [OF _ R] two_operands_offered [OF _ R]
      intro!: arm_value_from(1) [OF usesD [OF op]])+

lemma unless_no_types_sound: "arm_sound D arm md \<Longrightarrow> arm_sound D (unless_no_types arm) md"
  by (auto simp: arm_sound_def unless_no_types_def elim!: bindE split: if_splits)

lemma shift_arm_sound:
  assumes R: "rand_ok R" and op: "uses_pair m (\<lambda>t0 t1. [t0, t1]) md"
  shows "arm_sound D (shift_arm R D m) md"
  by (rule arm_soundI) (auto simp: shift_arm_def
      elim!: bindE dest!: choose_type_SomeD [OF _ R] pick_SomeD [OF _ R] intro!: arm_value_from(1) [OF uses_pairD(1) [OF op]])

lemma imm_arm_sound:
  assumes R: "rand_ok R" and op: "uses m (\<lambda>t. [t]) Some md"
  shows "arm_sound D (imm_arm R D m) md"
  by (rule arm_soundI) (auto simp: imm_arm_def Let_def case_prod_unfold
      elim!: bindE dest!: choose_type_SomeD [OF _ R] pick_SomeD [OF _ R] intro!: arm_value_from(1) [OF usesD [OF op]])

lemma unary_arm_sound:
  assumes R: "rand_ok R" and op: "uses m (\<lambda>t. [t]) (\<lambda>t. Some (result t)) md"
  shows "arm_sound D (unary_arm R D m result) md"
  by (rule arm_soundI) (auto simp: unary_arm_def
      elim!: bindE dest!: choose_type_SomeD [OF _ R] pick_SomeD [OF _ R] intro!: arm_value_from(1) [OF usesD [OF op]])

lemma unary_guard_arm_sound:
  assumes R: "rand_ok R" and op: "uses m (\<lambda>t. [t]) Some md"
  shows "arm_sound D (unary_guard_arm R D m) md"
  by (rule arm_soundI) (auto simp: unary_guard_arm_def Let_def split: if_splits
      elim!: bindE dest!: choose_type_SomeD [OF _ R] pick_SomeD [OF _ R] intro!: arm_value_from(1) [OF usesD [OF op]])

lemma carry_arm_sound:
  assumes R: "rand_ok R" and op: "uses m (\<lambda>t. [t, t, I8]) Some md"
  shows "arm_sound D (carry_arm R D m) md"
  by (rule arm_soundI) (auto simp: carry_arm_def Let_def split: if_splits
      elim!: bindE dest!: choose_type_SomeD [OF _ R] pick_SomeD [OF _ R] intro!: arm_value_from(1) [OF usesD [OF op]])

lemma select_arm_sound:
  assumes R: "rand_ok R" and op: "uses_select m md"
  shows "arm_sound D (select_arm R D m) md"
  by (rule arm_soundI) (auto simp: select_arm_def Let_def
      elim!: bindE dest!: choose_type_SomeD [OF _ R] pick_SomeD [OF _ R] intro!: arm_value_from(1) [OF uses_pairD(2) [OF op]])

subsection \<open>Conversions\<close>

text \<open>The tables of the conversions in the code contain only accepted pairs of types.\<close>

lemmas op_eval = op_yields_def op_types_def constraints_simps sig_defs typecheck_op_def result_types_def
  arg_ok_def tv_defs typeset_def is_base_type_def nth_opt_def

lemma fixed_conv_arm_sound:
  assumes R: "rand_ok R" and op: "op_yields m to_t [from_t] (Some to_t)"
  shows "arm_sound D (fixed_conv_arm R D m from_t to_t) md"
  by (rule arm_soundI) (auto simp: fixed_conv_arm_def elim!: bindE dest!: pick_SomeD [OF _ R] intro!: arm_value_from(1) [OF op])

lemma resize_arm_sound:
  assumes R: "rand_ok R"
    and op: "list_all (\<lambda>(to_t, froms). list_all (\<lambda>from_t. op_yields m to_t [from_t] (Some to_t)) froms) table"
  shows "arm_sound D (resize_arm R D m table) md"
proof -
  have ok: "op_yields m to_t [from_t] (Some to_t)" if "map_of table to_t = Some froms" "from_t \<in> set froms" for to_t froms from_t
    using op that by (auto simp: list_all_iff dest!: map_of_SomeD)
  show ?thesis
    by (rule arm_soundI) (auto simp: resize_arm_def random_type_def elim!: bindE
        dest!: choose_type_SomeD [OF _ R] thread_choose_SomeD [OF _ R] pick_SomeD [OF _ R] intro!: arm_value_from(1) [OF ok])
qed

lemma convert_arm_sound:
  assumes R: "rand_ok R" and op: "list_all (\<lambda>(from_t, to_t). op_yields m to_t [from_t] (Some to_t)) table"
  shows "arm_sound D (convert_arm R D m table) md"
proof -
  have ok: "op_yields m to_t [from_t] (Some to_t)" if "map_of table from_t = Some to_t" for to_t from_t
    using op that by (auto simp: list_all_iff dest!: map_of_SomeD)
  show ?thesis
    by (rule arm_soundI, auto simp: convert_arm_def elim!: bindE split: option.splits
        dest!: choose_type_SomeD [OF _ R] pick_SomeD [OF _ R],
        rule arm_value_from(1) [OF ok], assumption+, auto)
qed

lemma widen_arm_sound:
  assumes R: "rand_ok R"
    and op: "list_all (\<lambda>(to_t, from_t). op_yields m to_t [from_t] (Some to_t)) [(I16X8, I8X16), (I32X4, I16X8), (I64X2, I32X4)]"
  shows "arm_sound D (widen_arm R D m) md"
proof -
  have ok: "op_yields m to_t [from_t] (Some to_t)"
    if "map_of [(I16X8, I8X16), (I32X4, I16X8), (I64X2, I32X4)] to_t = Some from_t" for to_t from_t
    using op map_of_SomeD [OF that] by (auto simp: list_all_iff)
  show ?thesis
    by (rule arm_soundI) (auto simp del: map_of.simps simp: widen_arm_def elim!: bindE
        dest!: choose_type_SomeD [OF _ R] pick_SomeD [OF _ R] intro!: arm_value_from(1) [OF ok])
qed

text \<open>The vector types with their lanes.\<close>

lemma extract_vector_typeD:
  "extract_vector_type t = Some (l, n) \<Longrightarrow> l = lane_type t \<and> ts_contains tv_TxN t \<and> 1 < n"
  by (auto simp: extract_vector_type_def tv_TxN_def typeset_def is_base_type_def split: if_splits)

lemma lane_ops:
  assumes "ts_contains tv_TxN t"
  shows "op_yields ''splat'' t [lane_type t] (Some t)" and "op_yields ''scalar_to_vector'' t [lane_type t] (Some t)"
    and "op_yields ''extractlane'' t [t] (Some (lane_type t))" and "op_yields ''insertlane'' t [t, lane_type t] (Some t)"
  using assms
  by (simp_all add: op_yields_def op_types_def constraints_simps sig_defs typecheck_op_def result_types_def arg_ok_def)

lemma lane_to_vector_arm_sound:
  assumes R: "rand_ok R" and op: "\<And>t. ts_contains tv_TxN t \<Longrightarrow> op_yields m t [lane_type t] (Some t)"
  shows "arm_sound D (lane_to_vector_arm R D m) md"
  by (rule arm_soundI) (auto simp: lane_to_vector_arm_def Let_def elim!: bindE split: if_splits
      dest!: choose_type_SomeD [OF _ R] extract_vector_typeD thread_choose_SomeD [OF _ R] intro!: arm_value_from(1) [OF op])

lemma sel_extractlane_sound: "rand_ok R \<Longrightarrow> arm_sound D (sel_extractlane R D) md"
  by (rule arm_soundI) (auto simp: sel_extractlane_def Let_def elim!: bindE split: if_splits
      dest!: choose_type_SomeD extract_vector_typeD thread_choose_SomeD thread_gen_range_SomeD
      intro!: arm_value_from(1) [OF lane_ops(3)])

lemma sel_insertlane_sound: "rand_ok R \<Longrightarrow> arm_sound D (sel_insertlane R D) md"
  by (rule arm_soundI, auto simp: sel_insertlane_def Let_def elim!: bindE split: if_splits
      dest!: choose_type_SomeD extract_vector_typeD thread_choose_SomeD thread_gen_range_SomeD,
        rule arm_value_from(1) [OF lane_ops(4)], assumption+, auto)

lemma sel_vhigh_bits_sound: "rand_ok R \<Longrightarrow> arm_sound D (sel_vhigh_bits R D) md"
proof -
  assume R: "rand_ok R"
  define table where "table = [(I8X16, I8), (I16X8, I16), (I32X4, I32), (I64X2, I64)]"
  have ok: "op_yields ''vhigh_bits'' r [t] (Some r)" if "map_of table t = Some r" for t r
    using map_of_SomeD [OF that] by (auto simp: op_eval table_def)
  show ?thesis
    by (rule arm_soundI, auto simp: sel_vhigh_bits_def [folded table_def] Let_def elim!: bindE
        split: if_splits option.splits dest!: choose_type_SomeD [OF _ R] pick_SomeD [OF _ R],
        rule arm_value_from(1) [OF ok], assumption+, auto)
qed

lemma bitcast_type_mappingD:
  "bitcast_type_mapping R t g = Some (r, g') \<Longrightarrow> rand_ok R \<Longrightarrow>
     op_yields ''bitcast'' r [t] (Some r) \<and> global_rng g' = global_rng g"
  by (auto simp: bitcast_type_mapping_def random_type_def op_eval split: option.splits if_splits dest!: thread_choose_SomeD)

lemma sel_bitcast_sound: "rand_ok R \<Longrightarrow> arm_sound D (sel_bitcast R D) md"
  by (rule arm_soundI, auto simp: sel_bitcast_def elim!: bindE dest!: choose_type_SomeD pick_SomeD bitcast_type_mappingD,
      rule arm_value_from(1), assumption+, auto)

lemma sel_isplit_sound:
  assumes R: "rand_ok R" and op: "uses ''isplit'' (\<lambda>t. [t]) half_width md"
  shows "arm_sound D (sel_isplit R D) md"
  by (rule arm_soundI) (auto simp: sel_isplit_def Let_def elim!: bindE split: if_splits option.splits
      dest!: choose_type_SomeD [OF _ R] pick_SomeD [OF _ R] intro!: arm_value_from(1) [OF usesD [OF op]])

lemma sel_bmask_sound:
  assumes R: "rand_ok R" and op: "uses_pair ''bmask'' (\<lambda>t0 t1. [t1]) md"
  shows "arm_sound D (sel_bmask R D) md"
  by (rule arm_soundI) (auto simp: sel_bmask_def elim!: bindE
      dest!: choose_type_SomeD [OF _ R] pick_SomeD [OF _ R] intro!: arm_value_from(1) [OF uses_pairD(1) [OF op]])

subsection \<open>Comparisons, shuffles and operations on three operands\<close>

definition icmp_result :: "clif_type \<Rightarrow> clif_type" where
  "icmp_result t = (case map_of [(I16X8, I16X8), (I32X4, I32X4), (I64X2, I64X2)] t of Some r \<Rightarrow> r | None \<Rightarrow> I8)"

definition fcmp_result :: "clif_type \<Rightarrow> clif_type" where
  "fcmp_result t = (case map_of [(F16X8, I16X8), (F32X4, I32X4), (F64X2, I64X2)] t of Some r \<Rightarrow> r | None \<Rightarrow> I8)"

lemma random_intcc_SomeD: "random_intcc R g = Some (cc, g') \<Longrightarrow> rand_ok R \<Longrightarrow> global_rng g' = global_rng g"
  by (auto simp: random_intcc_def dest: thread_choose_SomeD)

lemma sel_icmp_sound:
  assumes R: "rand_ok R" and op: "uses ''icmp'' (\<lambda>t. [t, t]) (\<lambda>t. Some (icmp_result t)) md"
  shows "arm_sound D (sel_icmp R D) md"
  by (rule arm_soundI) (auto simp: sel_icmp_def [folded icmp_result_def] Let_def elim!: bindE split: if_splits
      dest!: choose_type_SomeD [OF _ R] two_operands_offered [OF _ R] random_intcc_SomeD [OF _ R]
      intro!: arm_value_from(1) [OF usesD [OF op]])

lemma sel_icmp_imm_sound:
  assumes R: "rand_ok R" and op: "uses ''icmp_imm'' (\<lambda>t. [t]) (\<lambda>_. Some I8) md"
  shows "arm_sound D (sel_icmp_imm R D) md"
  by (rule arm_soundI) (auto simp: sel_icmp_imm_def Let_def case_prod_unfold elim!: bindE
      dest!: choose_type_SomeD [OF _ R] pick_SomeD [OF _ R] random_intcc_SomeD [OF _ R]
      intro!: arm_value_from(1) [OF usesD [OF op]])

lemma fcmp_cond_SomeD:
  assumes "fcmp_cond R g = Some (cc, g')" and "rand_ok R"
  shows "cc \<in> set floatcc_all \<and> cc \<notin> set floatcc_excluded \<and> global_rng g' = global_rng g"
proof -
  have "rand_ok R \<longrightarrow> fst y \<in> set floatcc_all \<and> fst y \<notin> set floatcc_excluded \<and> global_rng (snd y) = global_rng g"
    if "fcmp_cond R g = Some y" for y
  proof (rule fcmp_cond.raw_induct [OF _ that])
    fix fc R g y
    assume IH: "\<And>R g y. fc R g = Some y \<Longrightarrow> rand_ok R \<longrightarrow>
        fst y \<in> set floatcc_all \<and> fst y \<notin> set floatcc_excluded \<and> global_rng (snd y) = global_rng g"
      and run: "thread_choose R floatcc_all g \<bind> (\<lambda>(cc, g). if cc \<in> set floatcc_excluded then fc R g else Some (cc, g)) = Some y"
    show "rand_ok R \<longrightarrow> fst y \<in> set floatcc_all \<and> fst y \<notin> set floatcc_excluded \<and> global_rng (snd y) = global_rng g"
      using run IH by (fastforce elim!: bindE split: if_splits dest: thread_choose_SomeD)
  qed
  then show ?thesis using assms by force
qed

lemma sel_fcmp_sound:
  assumes R: "rand_ok R" and op: "uses ''fcmp'' (\<lambda>t. [t, t]) (\<lambda>t. Some (fcmp_result t)) md"
  shows "arm_sound D (sel_fcmp R D) md"
  by (rule arm_soundI) (auto simp: sel_fcmp_def [folded fcmp_result_def] Let_def elim!: bindE split: if_splits
      dest!: choose_type_SomeD [OF _ R] two_operands_offered [OF _ R] fcmp_cond_SomeD [OF _ R]
      intro!: arm_value_from(1) [OF usesD [OF op]])

lemma shuffle_lanes_SomeD:
  "shuffle_lanes R n g = Some (lanes, g') \<Longrightarrow> rand_ok R \<Longrightarrow>
     length lanes = n \<and> (\<forall>lane \<in> set lanes. lane < 32) \<and> global_rng g' = global_rng g"
  by (induction n arbitrary: g lanes) (auto elim!: bindE dest!: thread_gen_range_SomeD)

lemma sel_shuffle_sound:
  assumes R: "rand_ok R" and op: "uses ''shuffle'' (\<lambda>t. [t, t]) (\<lambda>_. Some I8X16) md"
  shows "arm_sound D (sel_shuffle R D) md"
  by (rule arm_soundI) (auto simp: sel_shuffle_def Let_def elim!: bindE split: if_splits
      dest!: choose_type_SomeD [OF _ R] two_operands_offered [OF _ R] shuffle_lanes_SomeD [OF _ R]
      intro!: arm_value_from(1) [OF usesD [OF op]])

lemma sel_bitselect_sound:
  assumes R: "rand_ok R" and op: "uses ''bitselect'' (\<lambda>t. [t, t, t]) Some md"
  shows "arm_sound D (sel_bitselect R D) md"
  by (rule arm_soundI) (auto simp: sel_bitselect_def Let_def elim!: bindE
      dest!: choose_type_SomeD [OF _ R] pick_SomeD [OF _ R] intro!: arm_value_from(1) [OF usesD [OF op]])

lemma sel_fma_sound:
  assumes R: "rand_ok R" and op: "uses ''fma'' (\<lambda>t. [t, t, t]) Some md"
  shows "arm_sound D (sel_fma R D) md"
  by (rule arm_soundI) (auto simp: sel_fma_def Let_def elim!: bindE split: if_splits
      dest!: choose_type_SomeD [OF _ R] thread_choose_SomeD [OF _ R] intro!: arm_value_from(1) [OF usesD [OF op]])

subsection \<open>Memory\<close>

lemma stack_addr_yields: "op_yields ''stack_addr'' I64 [] (Some I64)"
  by (simp add: op_eval)

lemma random_stack_slot_SomeD:
  "random_stack_slot R c g = Some (slot, g') \<Longrightarrow> rand_ok R \<Longrightarrow>
     slot < length (stack_slots (cur_func c)) \<and> global_rng g' = global_rng g"
  by (auto simp: random_stack_slot_def dest: thread_choose_SomeD)

lemma slot_address_SomeD:
  "slot_address R c g = Some (addr, c1, g1) \<Longrightarrow> rand_ok R \<Longrightarrow>
     (\<exists>imms. ins_value ''stack_addr'' I64 imms [] c = Some (addr, c1)) \<and> global_rng g1 = global_rng g"
  by (auto simp: slot_address_def elim!: bindE dest!: random_stack_slot_SomeD)

text \<open>Operands of an operation on memory: the address or candidates.\<close>

definition args_at :: "dom_env \<Rightarrow> val \<Rightarrow> val list \<Rightarrow> clif_type list \<Rightarrow> bool" where
  "args_at D addr args ts \<longleftrightarrow>
     list_all2 (\<lambda>x t. x = addr \<and> t = I64 \<or> x \<in> set (get_dominator_values_with_type D t)) args ts"

lemma args_at_simps [simp]:
  "args_at D addr [] ts \<longleftrightarrow> ts = []"
  "args_at D addr (x # xs) (t # ts) \<longleftrightarrow>
     (x = addr \<and> t = I64 \<or> x \<in> set (get_dominator_values_with_type D t)) \<and> args_at D addr xs ts"
  by (auto simp: args_at_def)

lemma address_emits:
  assumes "ins_value ''stack_addr'' I64 imms [] c = Some (addr, c1)" and "env_ok D (cur_func c)"
  obtains S where "emits D c c1 S"
    and "\<And>args ts. args_at D addr args ts \<Longrightarrow> types_of (cur_func c1) args ts \<and> set args \<subseteq> candidates D \<union> S"
proof (rule emits_value [OF emits_none assms(1) _ _ stack_addr_yields])
  fix S assume S: "emits D c c1 S" "addr \<in> S" "\<And>t. Some I64 = Some t \<Longrightarrow> value_type (cur_func c1) addr = Some t"
  have env: "env_ok D (cur_func c1)" by (rule env_ok_emits [OF S(1) assms(2)])
  have "types_of (cur_func c1) args ts \<and> set args \<subseteq> candidates D \<union> S" if "args_at D addr args ts" for args ts
    using that unfolding args_at_def
    by (induction args ts rule: list_all2_induct) (auto simp: S(2,3) candidate_type [OF _ env] candidate_in)
  then show thesis using that S(1) by blast
qed auto

lemma memory_value:
  assumes "op_yields m ty ts (Some r)" and "ins_value ''stack_addr'' I64 imms' [] c = Some (addr, c1)"
    and "ins_value m ty imms args c1 = Some (v, c2)" and "args_at D addr args ts" and "env_ok D (cur_func c)"
  shows "offered D refs \<Longrightarrow> \<exists>S. emits D c c2 S \<and> res_ok D (cur_func c2) S (new_value v r refs)"
    and "\<exists>S. emits D c c2 S \<and> res_ok D (cur_func c2) S (new_only v r)"
  by (rule address_emits [OF assms(2,5)]; use arm_value [OF _ assms(3) _ _ assms(1)] assms(4) in blast)+

lemma memory_plain:
  assumes "op_yields m ty ts None" and "ins_value ''stack_addr'' I64 imms' [] c = Some (addr, c1)"
    and "ins_plain m ty imms args c1 = Some c2" and "args_at D addr args ts" and "env_ok D (cur_func c)" and "offered D refs"
  shows "\<exists>S. emits D c c2 S \<and> res_ok D (cur_func c2) S (used_only refs)" and "Ex (emits D c c2)"
  by (rule address_emits [OF assms(2,5)]; use arm_plain [OF _ assms(3) _ _ assms(1,6)] assms(4) in blast)+

lemma memory_nothing: "ins_value ''stack_addr'' I64 imms [] c = Some (addr, c1) \<Longrightarrow> env_ok D (cur_func c) \<Longrightarrow> Ex (emits D c c1)"
  by (blast elim: address_emits)

lemma load_arm_sound:
  assumes R: "rand_ok R" and op: "uses m (\<lambda>_. [I64]) Some md"
  shows "arm_sound D (load_arm R m) md" and "arm_sound D (load_typed_arm R m) md"
  by (rule arm_soundI, auto simp: load_arm_def load_typed_arm_def elim!: bindE
      dest!: slot_address_SomeD [OF _ R] choose_type_SomeD [OF _ R] thread_gen_range_SomeD [OF _ R]
      intro!: memory_value(2) [OF usesD [OF op]])+

lemma load_fixed_arm_sound:
  assumes R: "rand_ok R" and op: "op_yields m t [I64] (Some t)"
  shows "arm_sound D (load_fixed_arm R m t) md"
  by (rule arm_soundI) (auto simp: load_fixed_arm_def elim!: bindE
      dest!: slot_address_SomeD [OF _ R] thread_gen_range_SomeD [OF _ R] intro!: memory_value(2) [OF op])

lemma store_arm_sound:
  assumes R: "rand_ok R" and op: "uses m (\<lambda>t. [t, I64]) (\<lambda>_. None) md"
  shows "arm_sound D (store_arm R D m imms) md"
  by (rule arm_soundI) (auto simp: store_arm_def elim!: bindE
      dest!: slot_address_SomeD [OF _ R] choose_type_SomeD [OF _ R] pick_SomeD [OF _ R]
      intro!: memory_plain(1) [OF uses_plainD [OF op]])

lemma sel_atomic_load_sound:
  assumes R: "rand_ok R" and op: "uses ''atomic_load'' (\<lambda>_. [I64]) Some md"
  shows "arm_sound D (sel_atomic_load R D) md"
  by (rule arm_soundI) (auto simp: sel_atomic_load_def elim!: bindE
      dest!: slot_address_SomeD [OF _ R] choose_type_SomeD [OF _ R] intro!: memory_value(2) [OF usesD [OF op]])

lemma sel_stack_load_sound:
  assumes R: "rand_ok R" and op: "uses ''stack_load'' (\<lambda>_. []) Some md"
  shows "arm_sound D (sel_stack_load R D) md"
  by (rule arm_soundI) (auto simp: sel_stack_load_def elim!: bindE
      dest!: random_stack_slot_SomeD [OF _ R] choose_type_SomeD [OF _ R] intro!: arm_value_from(2) [OF usesD [OF op]])

lemma sel_stack_addr_sound: "rand_ok R \<Longrightarrow> arm_sound D (sel_stack_addr R D) md"
  by (rule arm_soundI) (auto simp: sel_stack_addr_def elim!: bindE dest!: slot_address_SomeD intro: memory_nothing)

lemma sel_stack_store_sound:
  assumes R: "rand_ok R" and op: "uses ''stack_store'' (\<lambda>t. [t]) (\<lambda>_. None) md"
  shows "arm_sound D (sel_stack_store R D) md"
  by (rule arm_soundI) (auto simp: sel_stack_store_def Let_def candidate_type candidate_in elim!: bindE split: if_splits
      dest!: random_stack_slot_SomeD [OF _ R] choose_type_SomeD [OF _ R] pick_SomeD [OF _ R]
      intro!: arm_plain(1) [OF emits_none, where ts = "[t]" for t] uses_plainD [OF op])

lemma sel_store_sound:
  assumes R: "rand_ok R" and op: "uses ''store'' (\<lambda>t. [t, I64]) (\<lambda>_. None) md"
  shows "arm_sound D (sel_store R D) md"
  by (rule arm_soundI) (auto simp: sel_store_def Let_def elim!: bindE split: if_splits
      dest!: slot_address_SomeD [OF _ R] choose_type_SomeD [OF _ R] pick_SomeD [OF _ R]
      intro!: memory_plain(1) [OF uses_plainD [OF op]] intro: memory_nothing)

lemma sel_istore8_sound:
  assumes R: "rand_ok R" and op: "uses ''istore8'' (\<lambda>t. [t, I64]) (\<lambda>_. None) md"
  shows "arm_sound D (sel_istore8 R D) md"
  by (rule arm_soundI) (auto simp: sel_istore8_def elim!: bindE
      dest!: slot_address_SomeD [OF _ R] choose_type_SomeD [OF _ R] pick_SomeD [OF _ R]
      intro!: memory_plain(1) [OF uses_plainD [OF op]])

lemma sel_atomic_cas_sound:
  assumes R: "rand_ok R" and op: "uses ''atomic_cas'' (\<lambda>t. [I64, t, t]) Some md"
  shows "arm_sound D (sel_atomic_cas R D) md"
  by (rule arm_soundI) (auto simp: sel_atomic_cas_def Let_def elim!: bindE split: if_splits
      dest!: random_stack_slot_SomeD [OF _ R] thread_gen_range_SomeD [OF _ R] choose_type_SomeD [OF _ R]
        two_operands_offered [OF _ R]
      intro!: memory_value(1) [OF usesD [OF op]] intro: memory_nothing)

lemma sel_atomic_rmw_sound:
  assumes R: "rand_ok R" and op: "uses ''atomic_rmw'' (\<lambda>t. [I64, t]) Some md"
  shows "arm_sound D (sel_atomic_rmw R D) md"
  by (rule arm_soundI) (auto simp: sel_atomic_rmw_def elim!: bindE simp del: list.set(2)
      dest!: slot_address_SomeD [OF _ R] choose_type_SomeD [OF _ R] pick_SomeD [OF _ R] thread_choose_SomeD [OF _ R]
      intro!: memory_value(1) [OF usesD [OF op]])

lemma sel_set_pinned_reg_sound: "rand_ok R \<Longrightarrow> arm_sound D (sel_set_pinned_reg R D) md"
proof -
  have op: "op_yields ''set_pinned_reg'' I64 [I64] None" by (simp add: op_eval)
  show "rand_ok R \<Longrightarrow> ?thesis"
    by (rule arm_soundI) (auto simp: sel_set_pinned_reg_def elim!: bindE dest!: slot_address_SomeD
        intro!: memory_plain(2) [OF op, where refs = "[]"])
qed

subsection \<open>Registers, effects and constants\<close>

lemma register_arm_sound: "op_yields m I64 [] (Some I64) \<Longrightarrow> arm_sound D (register_arm m) md"
  by (rule arm_soundI) (auto simp: register_arm_def elim!: bindE intro!: arm_value_from(2))

lemma effect_arm_sound: "op_yields m INVALID [] None \<Longrightarrow> arm_sound D (effect_arm m) md"
  by (rule arm_soundI, auto simp: effect_arm_def elim!: bindE, rule emits_plain [OF emits_none, where ts = "[]"], assumption, auto)

lemma const_yields:
  "op_yields ''f128const'' F128 [] (Some F128)" "op_yields ''f32const'' F32 [] (Some F32)"
  "op_yields ''f64const'' F64 [] (Some F64)"
  "t \<in> {I8, I16, I32, I64} \<Longrightarrow> op_yields ''iconst'' t [] (Some t)"
  by (auto simp: op_eval)

lemma const_sound:
  "arm_sound D (sel_f128const R D) md" "arm_sound D (sel_f32const R D) md" "arm_sound D (sel_f64const R D) md"
  by (rule arm_soundI, auto simp: sel_f128const_def sel_f32const_def sel_f64const_def Let_def case_prod_unfold elim!: bindE
      intro!: arm_value_from(2) [OF const_yields(1)] arm_value_from(2) [OF const_yields(2)] arm_value_from(2) [OF const_yields(3)])+

lemma sel_iconst_sound: "rand_ok R \<Longrightarrow> arm_sound D (sel_iconst R D) md"
  by (rule arm_soundI) (auto simp: sel_iconst_def Let_def case_prod_unfold elim!: bindE dest!: thread_gen_range_SomeD
      intro!: arm_value_from(2) [OF const_yields(4)] split: if_splits)

subsection \<open>Legal configurations\<close>

text \<open>For each arm, in the order of the table of the arms, what it asks of a mode.\<close>

definition legal_table :: "(opcode \<times> (mode \<Rightarrow> bool)) list" where
  "legal_table =
     map (\<lambda>m. (m, uses m (\<lambda>t. [t, t]) Some))
       [''swizzle'', ''x86_pshufb'', ''smin'', ''umin'', ''smax'', ''umax'', ''avg_round'',
        ''uadd_sat'', ''sadd_sat'', ''usub_sat'', ''ssub_sat'', ''iadd'', ''isub'', ''imul'',
        ''umulhi'', ''smulhi'', ''sqmul_round_sat'', ''x86_pmulhrsw''] @
     [(''x86_pmaddubsw'', uses ''x86_pmaddubsw'' (\<lambda>t. [t, t]) (\<lambda>_. Some I16X8))] @
     map (\<lambda>m. (m, uses m (\<lambda>t. [t, t]) Some))
       [''udiv'', ''sdiv'', ''urem'', ''srem'', ''uadd_overflow'', ''sadd_overflow'', ''usub_overflow'',
        ''ssub_overflow'', ''umul_overflow'', ''smul_overflow'', ''uadd_overflow_trap'', ''band'',
        ''bor'', ''bxor'', ''band_not'', ''bor_not'', ''bxor_not'', ''fadd'', ''fsub'', ''fmul'',
        ''fdiv'', ''fcopysign'', ''fmin'', ''fmax''] @
     [(''snarrow'', uses ''snarrow'' (\<lambda>t. [t, t]) (map_of [(I16X8, I8X16), (I32X4, I16X8), (I64X2, I32X4)]))] @
     [(''unarrow'', uses ''unarrow'' (\<lambda>t. [t, t]) (map_of [(I16X8, I8X16), (I32X4, I16X8)]))] @
     [(''uunarrow'', uses ''uunarrow'' (\<lambda>t. [t, t]) (map_of [(I16X8, I8X16), (I32X4, I16X8), (I64X2, I32X4)]))] @
     [(''iadd_pairwise'', uses ''iadd_pairwise'' (\<lambda>t. [t, t]) Some)] @
     [(''iconcat'', uses ''iconcat'' (\<lambda>t. [t, t]) (map_of [(I64, I128)]))] @
     [(''fcmp'', uses ''fcmp'' (\<lambda>t. [t, t]) (\<lambda>t. Some (fcmp_result t)))] @
     [(''icmp'', uses ''icmp'' (\<lambda>t. [t, t]) (\<lambda>t. Some (icmp_result t)))] @
     [(''icmp_imm'', uses ''icmp_imm'' (\<lambda>t. [t]) (\<lambda>_. Some I8))] @
     [(''shuffle'', uses ''shuffle'' (\<lambda>t. [t, t]) (\<lambda>_. Some I8X16))] @
     map (\<lambda>m. (m, uses_pair m (\<lambda>t0 t1. [t0, t1])))
       [''rotl'', ''rotr'', ''ishl'', ''ushr'', ''sshr''] @
     map (\<lambda>m. (m, uses m (\<lambda>t. [t]) Some))
       [''iadd_imm'', ''imul_imm'', ''udiv_imm'', ''sdiv_imm'', ''urem_imm'', ''srem_imm'',
        ''irsub_imm'', ''band_imm'', ''bor_imm'', ''bxor_imm'', ''rotl_imm'', ''rotr_imm'',
        ''ishl_imm'', ''ushr_imm'', ''sshr_imm'', ''ineg'', ''iabs'', ''bnot'', ''bitrev'', ''clz''] @
     [(''cls'', uses ''clz'' (\<lambda>t. [t]) Some)] @
     map (\<lambda>m. (m, uses m (\<lambda>t. [t]) Some))
       [''ctz'', ''bswap'', ''popcnt''] @
     map (\<lambda>m. (m, uses m (\<lambda>t. [t]) (\<lambda>t. Some t)))
       [''sqrt'', ''fneg'', ''fabs'', ''ceil'', ''floor'', ''trunc'', ''nearest''] @
     map (\<lambda>m. (m, uses m (\<lambda>t. [t]) (\<lambda>_. Some I8)))
       [''vany_true'', ''vall_true''] @
     map (\<lambda>m. (m, \<lambda>_. True))
       [''vhigh_bits'', ''extractlane'', ''insertlane'', ''splat'', ''scalar_to_vector''] @
     map (\<lambda>m. (m, uses_select m))
       [''select'', ''select_spectre_guard''] @
     map (\<lambda>m. (m, uses m (\<lambda>t. [t, t, t]) Some))
       [''bitselect'', ''fma''] @
     [(''bitcast'', \<lambda>_. True)] @
     [(''bmask'', uses_pair ''bmask'' (\<lambda>t0 t1. [t1]))] @
     map (\<lambda>m. (m, \<lambda>_. True))
       [''ireduce'', ''swiden_low'', ''swiden_high'', ''uwiden_low'', ''uwiden_high'', ''uextend'',
        ''sextend'', ''fpromote'', ''fdemote'', ''fvdemote'', ''fvpromote_low'', ''fcvt_to_uint'',
        ''fcvt_to_sint'', ''fcvt_to_uint_sat'', ''fcvt_to_sint_sat'', ''x86_cvtt2dq'',
        ''fcvt_from_uint'', ''fcvt_from_sint''] @
     [(''isplit'', uses ''isplit'' (\<lambda>t. [t]) half_width)] @
     map (\<lambda>m. (m, uses m (\<lambda>t. [t, t, I8]) Some))
       [''ssub_overflow_bin'', ''usub_overflow_bin'', ''uadd_overflow_cin'', ''sadd_overflow_cin''] @
     map (\<lambda>m. (m, uses m (\<lambda>_. [I64]) Some))
       [''load'', ''uload8'', ''sload8'', ''uload16'', ''sload16''] @
     map (\<lambda>m. (m, \<lambda>_. True))
       [''uload32'', ''sload32'', ''uload8x8'', ''sload8x8'', ''uload16x4'', ''sload16x4'',
        ''uload32x2'', ''sload32x2''] @
     [(''atomic_load'', uses ''atomic_load'' (\<lambda>_. [I64]) Some)] @
     [(''stack_load'', uses ''stack_load'' (\<lambda>_. []) Some)] @
     [(''stack_addr'', \<lambda>_. True)] @
     [(''stack_store'', uses ''stack_store'' (\<lambda>t. [t]) (\<lambda>_. None))] @
     map (\<lambda>m. (m, uses m (\<lambda>t. [t, I64]) (\<lambda>_. None)))
       [''store'', ''istore8'', ''istore16'', ''istore32'', ''atomic_store''] @
     [(''atomic_cas'', uses ''atomic_cas'' (\<lambda>t. [I64, t, t]) Some)] @
     [(''atomic_rmw'', uses ''atomic_rmw'' (\<lambda>t. [I64, t]) Some)] @
     map (\<lambda>m. (m, \<lambda>_. True))
       [''set_pinned_reg'', ''get_frame_pointer'', ''get_stack_pointer'', ''get_return_address'',
        ''get_pinned_reg'', ''nop'', ''fence'', ''sequence_point'', ''f128const'', ''f32const'',
        ''f64const'', ''iconst'']"

definition legal_mode :: "opcode \<Rightarrow> mode \<Rightarrow> bool" where
  "legal_mode m md = (case map_of legal_table m of Some legal \<Rightarrow> legal md | None \<Rightarrow> True)"

definition legal_config :: "arch_config \<Rightarrow> bool" where
  "legal_config cfg \<longleftrightarrow> (\<forall>m \<in> set all_opcodes. \<forall>ic. cfg_instruction_map cfg m = Some ic \<longrightarrow>
     (case instr_modes ic of None \<Rightarrow> True | Some mds \<Rightarrow> list_all (legal_mode m) mds))"

lemmas scheme_arms = sel_swizzle_def sel_x86_pshufb_def sel_smin_def sel_umin_def
  sel_smax_def sel_umax_def sel_avg_round_def sel_uadd_sat_def sel_sadd_sat_def
  sel_usub_sat_def sel_ssub_sat_def sel_iadd_def sel_isub_def sel_imul_def sel_umulhi_def
  sel_smulhi_def sel_sqmul_round_sat_def sel_x86_pmulhrsw_def sel_x86_pmaddubsw_def
  sel_udiv_def sel_sdiv_def sel_urem_def sel_srem_def sel_uadd_overflow_def
  sel_sadd_overflow_def sel_usub_overflow_def sel_ssub_overflow_def sel_umul_overflow_def
  sel_smul_overflow_def sel_uadd_overflow_trap_def sel_band_def sel_bor_def sel_bxor_def
  sel_band_not_def sel_bor_not_def sel_bxor_not_def sel_fadd_def sel_fsub_def sel_fmul_def
  sel_fdiv_def sel_fcopysign_def sel_fmin_def sel_fmax_def sel_snarrow_def sel_unarrow_def
  sel_uunarrow_def sel_iadd_pairwise_def sel_iconcat_def sel_rotl_def sel_rotr_def
  sel_ishl_def sel_ushr_def sel_sshr_def sel_iadd_imm_def sel_imul_imm_def
  sel_udiv_imm_def sel_sdiv_imm_def sel_urem_imm_def sel_srem_imm_def sel_irsub_imm_def
  sel_band_imm_def sel_bor_imm_def sel_bxor_imm_def sel_rotl_imm_def sel_rotr_imm_def
  sel_ishl_imm_def sel_ushr_imm_def sel_sshr_imm_def sel_ineg_def sel_iabs_def
  sel_bnot_def sel_bitrev_def sel_clz_def sel_cls_def sel_ctz_def sel_bswap_def
  sel_popcnt_def sel_sqrt_def sel_fneg_def sel_fabs_def sel_ceil_def sel_floor_def
  sel_trunc_def sel_nearest_def sel_vany_true_def sel_vall_true_def sel_select_def
  sel_select_spectre_guard_def sel_ssub_overflow_bin_def sel_usub_overflow_bin_def
  sel_uadd_overflow_cin_def sel_sadd_overflow_cin_def sel_load_def sel_uload8_def
  sel_sload8_def sel_uload16_def sel_sload16_def sel_istore16_def sel_istore32_def
  sel_atomic_store_def

lemmas fixed_arms = sel_splat_def sel_scalar_to_vector_def sel_ireduce_def
  sel_swiden_low_def sel_swiden_high_def sel_uwiden_low_def sel_uwiden_high_def
  sel_uextend_def sel_sextend_def sel_fpromote_def sel_fdemote_def sel_fvdemote_def
  sel_fvpromote_low_def sel_fcvt_to_uint_def sel_fcvt_to_sint_def sel_fcvt_to_uint_sat_def
  sel_fcvt_to_sint_sat_def sel_x86_cvtt2dq_def sel_fcvt_from_uint_def
  sel_fcvt_from_sint_def sel_uload32_def sel_sload32_def sel_uload8x8_def sel_sload8x8_def
  sel_uload16x4_def sel_sload16x4_def sel_uload32x2_def sel_sload32x2_def
  sel_get_frame_pointer_def sel_get_stack_pointer_def sel_get_return_address_def
  sel_get_pinned_reg_def sel_nop_def sel_fence_def sel_sequence_point_def

lemma map_of_zip_tables:
  assumes "list_all2 (\<lambda>(k, x) (k', y). k = k' \<and> P x y) xs ys"
  shows "rel_option P (map_of xs k) (map_of ys k)"
  using assms by (induction xs ys rule: list_all2_induct) (auto split: if_splits)

lemma fixed_yields:
  "list_all (\<lambda>m. op_yields m I64 [] (Some I64))
     [''get_frame_pointer'', ''get_stack_pointer'', ''get_return_address'', ''get_pinned_reg'']"
  "list_all (\<lambda>m. op_yields m INVALID [] None) [''nop'', ''fence'', ''sequence_point'']"
  "list_all (\<lambda>(m, t). op_yields m t [I64] (Some t))
     [(''uload32'', I64), (''sload32'', I64), (''uload8x8'', I16X8), (''sload8x8'', I16X8), (''uload16x4'', I32X4),
      (''sload16x4'', I32X4), (''uload32x2'', I64X2), (''sload32x2'', I64X2)]"
  "list_all (\<lambda>(m, t, r). op_yields m r [t] (Some r))
     [(''fpromote'', F32, F64), (''fdemote'', F64, F32), (''fvdemote'', F64X2, F32X4), (''fvpromote_low'', F32X4, F64X2)]"
  by (simp_all add: op_eval)

lemma fixed_arms_sound:
  assumes "rand_ok R"
  shows "arm_sound D (sel_splat R D) md"
    and "arm_sound D (sel_scalar_to_vector R D) md"
    and "arm_sound D (sel_ireduce R D) md"
    and "arm_sound D (sel_swiden_low R D) md"
    and "arm_sound D (sel_swiden_high R D) md"
    and "arm_sound D (sel_uwiden_low R D) md"
    and "arm_sound D (sel_uwiden_high R D) md"
    and "arm_sound D (sel_uextend R D) md"
    and "arm_sound D (sel_sextend R D) md"
    and "arm_sound D (sel_fpromote R D) md"
    and "arm_sound D (sel_fdemote R D) md"
    and "arm_sound D (sel_fvdemote R D) md"
    and "arm_sound D (sel_fvpromote_low R D) md"
    and "arm_sound D (sel_fcvt_to_uint R D) md"
    and "arm_sound D (sel_fcvt_to_sint R D) md"
    and "arm_sound D (sel_fcvt_to_uint_sat R D) md"
    and "arm_sound D (sel_fcvt_to_sint_sat R D) md"
    and "arm_sound D (sel_x86_cvtt2dq R D) md"
    and "arm_sound D (sel_fcvt_from_uint R D) md"
    and "arm_sound D (sel_fcvt_from_sint R D) md"
    and "arm_sound D (sel_uload32 R D) md"
    and "arm_sound D (sel_sload32 R D) md"
    and "arm_sound D (sel_uload8x8 R D) md"
    and "arm_sound D (sel_sload8x8 R D) md"
    and "arm_sound D (sel_uload16x4 R D) md"
    and "arm_sound D (sel_sload16x4 R D) md"
    and "arm_sound D (sel_uload32x2 R D) md"
    and "arm_sound D (sel_sload32x2 R D) md"
    and "arm_sound D (sel_get_frame_pointer R D) md"
    and "arm_sound D (sel_get_stack_pointer R D) md"
    and "arm_sound D (sel_get_return_address R D) md"
    and "arm_sound D (sel_get_pinned_reg R D) md"
    and "arm_sound D (sel_nop R D) md"
    and "arm_sound D (sel_fence R D) md"
    and "arm_sound D (sel_sequence_point R D) md"
  using assms fixed_yields lane_to_vector_arm_sound [OF assms lane_ops(1)] lane_to_vector_arm_sound [OF assms lane_ops(2)]
  by (simp_all add: fixed_arms fixed_conv_arm_sound resize_arm_sound convert_arm_sound widen_arm_sound load_fixed_arm_sound register_arm_sound effect_arm_sound unless_no_types_sound
      merge_lanes_def op_eval)

lemmas own_arms_sound = sel_fcmp_sound sel_icmp_sound sel_icmp_imm_sound sel_shuffle_sound sel_vhigh_bits_sound
  sel_extractlane_sound sel_insertlane_sound sel_bitselect_sound sel_fma_sound
  sel_bitcast_sound sel_bmask_sound sel_isplit_sound sel_atomic_load_sound
  sel_stack_load_sound sel_stack_addr_sound sel_stack_store_sound sel_store_sound
  sel_istore8_sound sel_atomic_cas_sound sel_atomic_rmw_sound sel_set_pinned_reg_sound
  const_sound sel_iconst_sound fixed_arms_sound

lemma arm_table_sound:
  assumes "rand_ok R"
  shows "list_all2 (\<lambda>(m, arm) (m', legal). m = m' \<and> (\<forall>md. legal md \<longrightarrow> arm_sound D arm md)) (arm_table R D) legal_table"
  using assms unfolding arm_table_def legal_table_def
  by (simp add: scheme_arms binary_arm_sound unless_no_types_sound shift_arm_sound imm_arm_sound unary_arm_sound
      unary_guard_arm_sound carry_arm_sound select_arm_sound load_arm_sound store_arm_sound own_arms_sound)

subsection \<open>The selector\<close>

lemma select_instruction_sound:
  assumes "rand_ok R" and "legal_mode m md"
  shows "arm_sound D (select_instruction R D m) md"
proof (cases "map_of (arm_table R D) m")
  case None
  then show ?thesis by (auto simp: select_instruction_def arm_sound_def skip_arm_def)
next
  case (Some arm)
  then obtain legal where "map_of legal_table m = Some legal" "\<forall>md. legal md \<longrightarrow> arm_sound D arm md"
    using map_of_zip_tables [OF arm_table_sound [OF assms(1)], of D m]
    by (cases "map_of legal_table m") auto
  then show ?thesis using Some assms(2) by (auto simp: select_instruction_def legal_mode_def)
qed

lemma populate_sound:
  assumes R: "rand_ok R" and env: "env_ok D (cur_func c)" and cfg: "legal_config cfg"
    and run: "populate_block_instructions R D cfg c g = Some (res, c', g')"
  shows "\<exists>S. emits D c c' S \<and> res_ok D (cur_func c') S res" and "global_rng g' = global_rng g"
proof -
  have "(\<exists>S. emits D c c' S \<and> res_ok D (cur_func c') S res) \<and> global_rng g' = global_rng g"
  proof -
    obtain m g1 ic where m: "thread_choose R all_opcodes g = Some (m, g1)" "cfg_instruction_map cfg m = Some ic"
      "(case instr_modes ic of None \<Rightarrow> Some (None, c, g1)
        | Some modes \<Rightarrow> do { (md, g) \<leftarrow> thread_choose R modes g1; select_instruction R D m md c g }) = Some (res, c', g')"
      using run by (auto simp: populate_block_instructions_def elim!: bindE)
    note draw = thread_choose_SomeD [OF m(1) R]
    show ?thesis
    proof (cases "instr_modes ic")
      case None
      then show ?thesis using m(3) draw by auto
    next
      case (Some modes)
      then obtain md g2 where md: "thread_choose R modes g1 = Some (md, g2)" "select_instruction R D m md c g2 = Some (res, c', g')"
        using m(3) by (auto elim!: bindE)
      note draw2 = thread_choose_SomeD [OF md(1) R]
      have "legal_mode m md" using cfg draw draw2 m(2) Some by (auto simp: legal_config_def list_all_iff)
      then have "arm_sound D (select_instruction R D m) md" by (rule select_instruction_sound [OF R])
      then show ?thesis using env md(2) draw draw2 by (auto simp: arm_sound_def)
    qed
  qed
  then show "\<exists>S. emits D c c' S \<and> res_ok D (cur_func c') S res" and "global_rng g' = global_rng g" by auto
qed

end
