(* ===== verification/Clif_Verify.thy ===== *)
theory Clif_Verify
  imports Cf_Correct Selector_Sound
begin

text \<open>
  When a function is well formed: the conditions the verifier of the code generator checks
  (\<open>cranelift/codegen/src/verifier/mod.rs\<close>) on the instructions the program emits. Every block ends
  in its only terminator, operands have the types the opcode accepts, the arguments of a branch have
  the types of the parameters of its target, and every use is dominated by its definition.

  The second part describes the effect of inserting an instruction (\<open>put_inst\<close>) and shows what
  insertions, new parameters and changed operands keep of these conditions.
\<close>

subsection \<open>Well-formed functions\<close>

fun is_terminator :: "inst_data \<Rightarrow> bool" where
  "is_terminator (Jump _) = True"
| "is_terminator (Brif _ _ _) = True"
| "is_terminator (BranchTable _ _) = True"
| "is_terminator (Return _) = True"
| "is_terminator _ = False"

text \<open>The value operands of an instruction and the arguments of its block calls.\<close>

definition inst_uses :: "func \<Rightarrow> inst_data \<Rightarrow> val list" where
  "inst_uses f d = arguments d @ concat (map bc_args (data_calls (jump_tables f) d))"

definition results_ok :: "func \<Rightarrow> inst \<Rightarrow> clif_type list \<Rightarrow> bool" where
  "results_ok f i rs \<longleftrightarrow> i < length (dfg_results f) \<and> length (dfg_results f ! i) = length rs \<and>
     (\<forall>k < length rs. nth_opt (dfg_values f) (dfg_results f ! i ! k) = Some (ValInst (rs ! k) k i))"

definition call_ok :: "func \<Rightarrow> block_call \<Rightarrow> bool" where
  "call_ok f bc \<longleftrightarrow> bc_block bc \<in> set (blocks_of f) \<and>
     map (value_type f) (bc_args bc) = map (value_type f) (dfg_blocks f ! bc_block bc)"

fun inst_typed :: "func \<Rightarrow> inst \<Rightarrow> inst_data \<Rightarrow> bool" where
  "inst_typed f i (Jump bc) \<longleftrightarrow> results_ok f i [] \<and> call_ok f bc"
| "inst_typed f i (Brif v b1 b2) \<longleftrightarrow> results_ok f i [] \<and> (\<exists>t. value_type f v = Some t \<and> ts_contains tv_iB t) \<and>
     call_ok f b1 \<and> call_ok f b2"
| "inst_typed f i (BranchTable v t) \<longleftrightarrow> results_ok f i [] \<and> value_type f v = Some I32 \<and> t < length (jump_tables f) \<and>
     (\<forall>bc \<in> set (all_branches (jump_tables f ! t)). call_ok f bc)"
| "inst_typed f i (Call fr vs) \<longleftrightarrow> (\<exists>ef sg. nth_opt (ext_funcs f) fr = Some ef \<and> nth_opt (signatures f) (ef_sig ef) = Some sg \<and>
     types_of f vs (sig_params sg) \<and> results_ok f i (sig_returns sg))"
| "inst_typed f i (Return vs) \<longleftrightarrow> results_ok f i [] \<and> types_of f vs (sig_returns (fn_sig f))"
| "inst_typed f i (Op m imms vs) \<longleftrightarrow> (\<exists>ty ts rs. types_of f vs ts \<and> op_types m ty ts = Some rs \<and> results_ok f i rs)"

text \<open>The value is a parameter of the block, when the block is one of \<open>B\<close>, or a result of one of the
  instructions.\<close>

definition def_at :: "block set \<Rightarrow> func \<Rightarrow> block \<Rightarrow> inst list \<Rightarrow> val \<Rightarrow> bool" where
  "def_at B f b is v \<longleftrightarrow> (case nth_opt (dfg_values f) v of
      None \<Rightarrow> False
    | Some (ValParam t k c) \<Rightarrow> c = b \<and> b \<in> B \<and> b < length (dfg_blocks f) \<and> nth_opt (dfg_blocks f ! b) k = Some v
    | Some (ValInst t k j) \<Rightarrow> j \<in> set is \<and> j < length (dfg_results f) \<and> nth_opt (dfg_results f ! j) k = Some v)"

text \<open>The value can be used in block \<open>b\<close> after the instructions \<open>pre\<close> of the block; \<open>dm\<close> is dominance.\<close>

definition avail :: "block set \<Rightarrow> (block \<Rightarrow> block \<Rightarrow> bool) \<Rightarrow> func \<Rightarrow> block \<Rightarrow> inst list \<Rightarrow> val \<Rightarrow> bool" where
  "avail B dm f b pre v \<longleftrightarrow> def_at B f b pre v \<or> (\<exists>c. c \<noteq> b \<and> dm c b \<and> def_at B f c (lo_insts (fn_layout f) c) v)"

definition inst_ok :: "block set \<Rightarrow> (block \<Rightarrow> block \<Rightarrow> bool) \<Rightarrow> func \<Rightarrow> block \<Rightarrow> inst list \<Rightarrow> inst \<Rightarrow> bool" where
  "inst_ok B dm f b pre i \<longleftrightarrow> (\<exists>d. nth_opt (dfg_insts f) i = Some d \<and> inst_typed f i d \<and>
     (\<forall>v \<in> set (inst_uses f d). avail B dm f b pre v))"

definition block_ok :: "(block \<Rightarrow> block \<Rightarrow> bool) \<Rightarrow> func \<Rightarrow> block \<Rightarrow> bool" where
  "block_ok dm f b \<longleftrightarrow> b < length (dfg_blocks f) \<and>
     (\<forall>k < length (dfg_blocks f ! b). \<exists>t. nth_opt (dfg_values f) (dfg_blocks f ! b ! k) = Some (ValParam t k b)) \<and>
     (\<forall>pre i post. lo_insts (fn_layout f) b = pre @ i # post \<longrightarrow>
        inst_ok UNIV dm f b pre i \<and> (is_terminator (dfg_insts f ! i) \<longleftrightarrow> post = []))"

definition valid_func :: "func \<Rightarrow> bool" where
  "valid_func f \<longleftrightarrow> wf_flow f \<and>
     (\<forall>b \<in> set (blocks_of f). lo_insts (fn_layout f) b \<noteq> [] \<and>
        block_ok (dominates (flow_edges f) (flow_entry f)) f b) \<and>
     types_of f (dfg_blocks f ! flow_entry f) (sig_params (fn_sig f))"

subsection \<open>Growth\<close>

text \<open>Values, instructions and results are added, and parameters of the blocks \<open>B\<close>.\<close>

definition grows :: "block set \<Rightarrow> func \<Rightarrow> func \<Rightarrow> bool" where
  "grows B f f' \<longleftrightarrow> (\<exists>vs. dfg_values f' = dfg_values f @ vs) \<and> length (dfg_blocks f') = length (dfg_blocks f) \<and>
     (\<forall>b \<in> B. b < length (dfg_blocks f) \<longrightarrow> (\<exists>ps. dfg_blocks f' ! b = dfg_blocks f ! b @ ps)) \<and>
     length (dfg_results f) \<le> length (dfg_results f') \<and>
     (\<forall>i < length (dfg_results f). dfg_results f' ! i = dfg_results f ! i) \<and>
     (\<forall>b. set (lo_insts (fn_layout f) b) \<subseteq> set (lo_insts (fn_layout f') b))"

lemma grows_refl [simp]: "grows B f f"
  by (simp add: grows_def)

lemma grows_params: "grows B f f' \<Longrightarrow> b \<in> B \<Longrightarrow> b < length (dfg_blocks f) \<Longrightarrow> \<exists>ps. dfg_blocks f' ! b = dfg_blocks f ! b @ ps"
  by (simp add: grows_def)

lemma grows_trans: "grows B f g \<Longrightarrow> grows B g h \<Longrightarrow> grows B f h"
proof -
  assume fg: "grows B f g" and gh: "grows B g h"
  have "\<exists>ps. dfg_blocks h ! b = dfg_blocks f ! b @ ps" if "b \<in> B" "b < length (dfg_blocks f)" for b
  proof -
    have "b < length (dfg_blocks g)" using fg that by (simp add: grows_def)
    then show ?thesis using grows_params [OF fg that] grows_params [OF gh that(1)] by auto
  qed
  then show ?thesis using fg gh by (auto simp: grows_def subset_iff)
qed

lemma grows_nth_value: "grows B f f' \<Longrightarrow> nth_opt (dfg_values f) v = Some d \<Longrightarrow> nth_opt (dfg_values f') v = Some d"
  by (auto simp: grows_def nth_append)

lemma grows_value_type: "grows B f f' \<Longrightarrow> value_type f v = Some t \<Longrightarrow> value_type f' v = Some t"
  by (auto simp: value_type_def dest: grows_nth_value)

lemma grows_types_of: "grows B f f' \<Longrightarrow> types_of f vs ts \<Longrightarrow> types_of f' vs ts"
proof (induction vs arbitrary: ts)
  case (Cons v vs)
  then show ?case by (cases ts) (auto simp: types_of_def dest: grows_value_type)
qed simp

lemma grows_results_ok: "grows B f f' \<Longrightarrow> results_ok f i rs \<Longrightarrow> results_ok f' i rs"
  by (auto simp: results_ok_def grows_def nth_append simp del: nth_opt_eq_Some) (auto simp: nth_append)

lemma grows_def_at:
  assumes "grows B f f'" and "def_at B f b is v" and "set is \<subseteq> set is'"
  shows "def_at B f' b is' v"
proof -
  obtain d where d: "nth_opt (dfg_values f) v = Some d" using assms(2) by (auto simp: def_at_def split: option.splits)
  note d' = grows_nth_value [OF assms(1) d]
  show ?thesis
  proof (cases d)
    case (ValInst t k j)
    then show ?thesis using assms d d' by (auto simp: def_at_def grows_def)
  next
    case (ValParam t k c)
    then have v: "c = b" "b \<in> B" "b < length (dfg_blocks f)" "k < length (dfg_blocks f ! b)" "dfg_blocks f ! b ! k = v"
      using assms(2) d by (auto simp: def_at_def)
    then obtain ps where "dfg_blocks f' ! b = dfg_blocks f ! b @ ps" using grows_params [OF assms(1)] by blast
    then show ?thesis using v ValParam d' assms(1) by (auto simp: def_at_def grows_def nth_append)
  qed
qed

lemma grows_avail:
  assumes "grows B f f'" and "avail B dm f b pre v" and "set pre \<subseteq> set pre'"
  shows "avail B dm f' b pre' v"
  using assms(2) unfolding avail_def
proof (elim disjE exE conjE)
  assume "def_at B f b pre v"
  then show "def_at B f' b pre' v \<or> (\<exists>c. c \<noteq> b \<and> dm c b \<and> def_at B f' c (lo_insts (fn_layout f') c) v)"
    using grows_def_at [OF assms(1) _ assms(3)] by blast
next
  fix c assume c: "c \<noteq> b" "dm c b" "def_at B f c (lo_insts (fn_layout f) c) v"
  have "set (lo_insts (fn_layout f) c) \<subseteq> set (lo_insts (fn_layout f') c)" using assms(1) by (simp add: grows_def)
  from grows_def_at [OF assms(1) c(3) this] c(1,2)
  show "def_at B f' b pre' v \<or> (\<exists>c. c \<noteq> b \<and> dm c b \<and> def_at B f' c (lo_insts (fn_layout f') c) v)" by blast
qed

lemma def_at_mono: "def_at B f b is v \<Longrightarrow> B \<subseteq> B' \<Longrightarrow> set is \<subseteq> set is' \<Longrightarrow> def_at B' f b is' v"
  by (auto simp: def_at_def split: option.splits value_data.splits)

lemma avail_mono: "avail B dm f b pre v \<Longrightarrow> B \<subseteq> B' \<Longrightarrow> set pre \<subseteq> set pre' \<Longrightarrow> avail B' dm f b pre' v"
  unfolding avail_def by (meson def_at_mono order_refl)

subsection \<open>Insertion\<close>

definition frame_ok :: "func \<Rightarrow> bool" where
  "frame_ok f \<longleftrightarrow> wf_layout (fn_layout f) \<and> length (dfg_results f) = length (dfg_insts f) \<and>
     (\<forall>b. set (lo_insts (fn_layout f) b) \<subseteq> {..<length (dfg_insts f)})"

text \<open>The function with a new instruction of \<open>b\<close> between \<open>body\<close> and \<open>rest\<close>.\<close>

definition put_inst :: "block \<Rightarrow> inst list \<Rightarrow> inst list \<Rightarrow> inst_data \<Rightarrow> clif_type list \<Rightarrow> func \<Rightarrow> func" where
  "put_inst b body rest d tys f =
     (let i = length (dfg_insts f); n = length (dfg_values f) in
      f\<lparr>dfg_insts := dfg_insts f @ [d],
        dfg_results := dfg_results f @ [[n..<n + length tys]],
        dfg_values := dfg_values f @ map (\<lambda>k. ValInst (tys ! k) k i) [0..<length tys],
        fn_layout := (fn_layout f)\<lparr>lo_insts := (lo_insts (fn_layout f))(b := body @ i # rest)\<rparr>\<rparr>)"

text \<open>The cursor is in \<open>b\<close>, before the instructions \<open>rest\<close> and after \<open>body\<close>.\<close>

definition ins_at :: "cursor \<Rightarrow> block \<Rightarrow> inst list \<Rightarrow> inst list \<Rightarrow> bool" where
  "ins_at c b body rest \<longleftrightarrow> frame_ok (cur_func c) \<and> b \<in> set (blocks_of (cur_func c)) \<and>
     lo_insts (cur_layout c) b = body @ rest \<and> cur_pos c = (case rest of [] \<Rightarrow> After b | i # _ \<Rightarrow> At i)"

lemma put_inst_fields [simp]:
  "dfg_insts (put_inst b body rest d tys f) = dfg_insts f @ [d]"
  "dfg_results (put_inst b body rest d tys f) = dfg_results f @ [[length (dfg_values f)..<length (dfg_values f) + length tys]]"
  "dfg_values (put_inst b body rest d tys f) =
     dfg_values f @ map (\<lambda>k. ValInst (tys ! k) k (length (dfg_insts f))) [0..<length tys]"
  "lo_insts (fn_layout (put_inst b body rest d tys f)) = (lo_insts (fn_layout f))(b := body @ length (dfg_insts f) # rest)"
  "blocks_of (put_inst b body rest d tys f) = blocks_of f"
  "dfg_blocks (put_inst b body rest d tys f) = dfg_blocks f"
  "jump_tables (put_inst b body rest d tys f) = jump_tables f"
  "fn_sig (put_inst b body rest d tys f) = fn_sig f"
  "fn_name (put_inst b body rest d tys f) = fn_name f"
  "ext_funcs (put_inst b body rest d tys f) = ext_funcs f"
  "signatures (put_inst b body rest d tys f) = signatures f"
  "stack_slots (put_inst b body rest d tys f) = stack_slots f"
  by (simp_all add: put_inst_def Let_def)

lemma insert_before_split: "y \<notin> set xs \<Longrightarrow> insert_before x y (xs @ y # ys) = xs @ x # y # ys"
  by (induction xs) auto

lemma wf_distinct: "wf_layout l \<Longrightarrow> lo_insts l b = is \<Longrightarrow> distinct is"
  by (auto simp: wf_layout_def)

lemma frame_fresh: "frame_ok f \<Longrightarrow> length (dfg_insts f) \<notin> set (lo_insts (fn_layout f) b)"
  by (auto simp: frame_ok_def)

lemma build_inst_put:
  assumes at: "ins_at c b body rest"
  shows "build_inst d tys c = Some (length (dfg_insts (cur_func c)), c\<lparr>cur_func := put_inst b body rest d tys (cur_func c)\<rparr>)"
proof -
  let ?f = "cur_func c" let ?n = "length (dfg_insts (cur_func c))"
  have wf: "wf_layout (fn_layout ?f)" and ins: "lo_insts (fn_layout ?f) b = body @ rest" and b: "b \<in> set (blocks_of ?f)"
    and res: "length (dfg_results ?f) = ?n"
    using at by (auto simp: ins_at_def frame_ok_def)
  have "frame_ok ?f" using at by (simp add: ins_at_def)
  then have fresh: "inst_block (fn_layout ?f) ?n = None"
    unfolding inst_block_None_iff [OF wf] using frame_fresh by blast
  have upd: "(dfg_results ?f @ [[]])[?n := x] = dfg_results ?f @ [x]" for x using res by (simp add: list_update_append)
  show ?thesis
  proof (cases rest)
    case Nil
    then have "cur_pos c = After b" "lo_insts (fn_layout ?f) b = body" using at ins by (auto simp: ins_at_def)
    then show ?thesis using fresh b Nil upd
      by (simp add: build_inst_def make_inst_def make_inst_results_def insert_inst_def append_inst_def set_layout_def
          put_inst_def is_block_inserted_def Let_def)
  next
    case (Cons j js)
    then have pos: "cur_pos c = At j" using at by (simp add: ins_at_def)
    have j: "inst_block (fn_layout ?f) j = Some b" using inst_block_iff [OF wf] ins Cons by auto
    have "distinct (body @ rest)" by (rule wf_distinct [OF wf ins])
    then have "insert_before ?n j (body @ rest) = body @ ?n # rest" using Cons insert_before_split by auto
    then show ?thesis using fresh pos j ins upd
      by (simp add: build_inst_def make_inst_def make_inst_results_def insert_inst_def layout_insert_inst_def set_layout_def
          put_inst_def Let_def)
  qed
qed

lemma frame_put:
  assumes "frame_ok f" and "lo_insts (fn_layout f) b = body @ rest" and "b \<in> set (blocks_of f)"
  shows "frame_ok (put_inst b body rest d tys f)"
proof -
  have fresh: "length (dfg_insts f) \<notin> set (lo_insts (fn_layout f) c)" for c by (rule frame_fresh [OF assms(1)])
  have wf: "wf_layout (fn_layout f)" using assms(1) by (simp add: frame_ok_def)
  have "distinct (body @ rest)" by (rule wf_distinct [OF wf assms(2)])
  then have "distinct (body @ length (dfg_insts f) # rest)" using fresh [of b] assms(2) by auto
  moreover have "c = b" if "i \<in> set (lo_insts (fn_layout f) c)" "i \<in> set (body @ rest)" for c i
    using wf that assms(2) unfolding wf_layout_def by metis
  ultimately have "wf_layout (fn_layout (put_inst b body rest d tys f))"
    using wf assms(3) fresh unfolding wf_layout_def by (auto split: if_splits)
  moreover have bound: "set (lo_insts (fn_layout f) c) \<subseteq> {..<Suc (length (dfg_insts f))}" for c
    using assms(1) by (force simp: frame_ok_def)
  have "set (lo_insts (fn_layout (put_inst b body rest d tys f)) c) \<subseteq> {..<length (dfg_insts (put_inst b body rest d tys f))}" for c
    using bound [of b] bound [of c] assms(2) by (cases "c = b") auto
  ultimately show ?thesis using assms(1) by (simp add: frame_ok_def)
qed

lemma grows_put: "lo_insts (fn_layout f) b = body @ rest \<Longrightarrow> grows B f (put_inst b body rest d tys f)"
  by (auto simp: grows_def nth_append)

lemma put_results: "frame_ok f \<Longrightarrow> results_ok (put_inst b body rest d tys f) (length (dfg_insts f)) tys"
  by (auto simp: results_ok_def frame_ok_def nth_append)

lemma ins_at_put:
  assumes "ins_at c b body rest"
  shows "ins_at (c\<lparr>cur_func := put_inst b body rest d tys (cur_func c)\<rparr>) b (body @ [length (dfg_insts (cur_func c))]) rest"
  using assms frame_put [of "cur_func c" b body rest d tys] by (auto simp: ins_at_def)

end
