(* ===== verification/Block_Fill.thy ===== *)
theory Block_Fill
  imports Clif_Verify Function_Generator
begin

text \<open>
  Filling a block. The relation \<open>fills\<close> is a sequence of insertions of well typed operations at one
  place of a block, each of whose operands is available there. What the selector emits is such a
  sequence (\<open>emits_fills\<close>), and so are the constants and stores of the entry.
\<close>

subsection \<open>Sequences of insertions\<close>

definition is_op :: "func \<Rightarrow> inst \<Rightarrow> bool" where
  "is_op f i \<longleftrightarrow> (\<exists>m imms vs. nth_opt (dfg_insts f) i = Some (Op m imms vs))"

definition body_ok :: "block set \<Rightarrow> (block \<Rightarrow> block \<Rightarrow> bool) \<Rightarrow> func \<Rightarrow> block \<Rightarrow> inst list \<Rightarrow> bool" where
  "body_ok B dm f b body \<longleftrightarrow> (\<forall>pre i post. body = pre @ i # post \<longrightarrow> inst_ok B dm f b pre i \<and> is_op f i)"

inductive fills :: "block set \<Rightarrow> (block \<Rightarrow> block \<Rightarrow> bool) \<Rightarrow> block \<Rightarrow> inst list \<Rightarrow> func \<Rightarrow> inst list \<Rightarrow> func \<Rightarrow> inst list \<Rightarrow> bool"
  for B dm b rest f body where
  fills_refl: "fills B dm b rest f body f body"
| fills_op: "fills B dm b rest f body f1 body1 \<Longrightarrow> types_of f1 args ts \<Longrightarrow> op_types m ty ts = Some rs \<Longrightarrow>
    \<forall>v \<in> set args. avail B dm f1 b body1 v \<Longrightarrow>
    fills B dm b rest f body (put_inst b body1 rest (Op m imms args) rs f1) (body1 @ [length (dfg_insts f1)])"

text \<open>What an insertion does not touch.\<close>

definition same_frame :: "block \<Rightarrow> func \<Rightarrow> func \<Rightarrow> bool" where
  "same_frame b f f' \<longleftrightarrow> blocks_of f' = blocks_of f \<and> (\<forall>c. c \<noteq> b \<longrightarrow> lo_insts (fn_layout f') c = lo_insts (fn_layout f) c) \<and>
     dfg_blocks f' = dfg_blocks f \<and> jump_tables f' = jump_tables f \<and> fn_sig f' = fn_sig f \<and> fn_name f' = fn_name f \<and>
     ext_funcs f' = ext_funcs f \<and> signatures f' = signatures f \<and> stack_slots f' = stack_slots f \<and>
     (\<exists>ds. dfg_insts f' = dfg_insts f @ ds)"

lemma frame_bound: "frame_ok f \<Longrightarrow> set (lo_insts (fn_layout f) b) \<subseteq> {..<length (dfg_insts f)}"
  by (simp add: frame_ok_def)

lemma fills_frame:
  assumes "fills B dm b rest f body f' body'" and "frame_ok f" and "lo_insts (fn_layout f) b = body @ rest" and "b \<in> set (blocks_of f)"
  shows "frame_ok f' \<and> lo_insts (fn_layout f') b = body' @ rest \<and> same_frame b f f' \<and> grows B f f' \<and> set body \<subseteq> set body'"
  using assms
proof (induction rule: fills.induct)
  case fills_refl
  then show ?case by (simp add: same_frame_def)
next
  case (fills_op f1 body1 args ts m ty rs imms)
  let ?f2 = "put_inst b body1 rest (Op m imms args) rs f1"
  have IH: "frame_ok f1" "lo_insts (fn_layout f1) b = body1 @ rest" "same_frame b f f1" "grows B f f1" "set body \<subseteq> set body1"
    using fills_op by auto
  have "frame_ok ?f2" using frame_put [OF IH(1,2)] IH(3) fills_op.prems by (simp add: same_frame_def)
  moreover have "grows B f ?f2" by (rule grows_trans [OF IH(4) grows_put [OF IH(2)]])
  moreover have "same_frame b f ?f2" using IH(3) by (auto simp: same_frame_def)
  ultimately show ?case using IH(5) by auto
qed

lemma fills_trans:
  "fills B dm b rest f1 body1 f2 body2 \<Longrightarrow> fills B dm b rest f body f1 body1 \<Longrightarrow> fills B dm b rest f body f2 body2"
  by (induction rule: fills.induct) (auto intro: fills.intros)

lemma op_mono:
  assumes "inst_ok B dm f b pre i" and "is_op f i" and "grows B f f'" and "nth_opt (dfg_insts f') i = nth_opt (dfg_insts f) i"
    and "set pre \<subseteq> set pre'"
  shows "inst_ok B dm f' b pre' i \<and> is_op f' i"
proof -
  obtain m imms vs where d: "nth_opt (dfg_insts f) i = Some (Op m imms vs)" using assms(2) by (auto simp: is_op_def)
  then obtain ty ts rs where t: "types_of f vs ts" "op_types m ty ts = Some rs" "results_ok f i rs"
    and av: "\<forall>v \<in> set vs. avail B dm f b pre v"
    using assms(1) by (auto simp: inst_ok_def inst_uses_def)
  have "inst_typed f' i (Op m imms vs)"
    using grows_types_of [OF assms(3) t(1)] t(2) grows_results_ok [OF assms(3) t(3)] by auto
  moreover have "\<forall>v \<in> set vs. avail B dm f' b pre' v" using av grows_avail [OF assms(3) _ assms(5)] by blast
  ultimately show ?thesis using d assms(4) unfolding inst_ok_def is_op_def by (auto simp: inst_uses_def simp del: nth_opt_eq_Some)
qed

lemma body_ok_mono:
  assumes "body_ok B dm f b body" and "grows B f f'" and "\<And>i. i \<in> set body \<Longrightarrow> nth_opt (dfg_insts f') i = nth_opt (dfg_insts f) i"
  shows "body_ok B dm f' b body"
  unfolding body_ok_def
proof (intro allI impI)
  fix pre i post assume split: "body = pre @ i # post"
  then have "inst_ok B dm f b pre i" "is_op f i" using assms(1) unfolding body_ok_def by blast+
  then show "inst_ok B dm f' b pre i \<and> is_op f' i" by (rule op_mono [OF _ _ assms(2)]) (use assms(3) split in auto)
qed

lemma body_ok_snoc:
  assumes "body_ok B dm f b body" and "inst_ok B dm f b body i" and "is_op f i"
  shows "body_ok B dm f b (body @ [i])"
  unfolding body_ok_def
proof (intro allI impI)
  fix pre j post assume split: "body @ [i] = pre @ j # post"
  show "inst_ok B dm f b pre j \<and> is_op f j"
  proof (cases post rule: rev_cases)
    case Nil
    then show ?thesis using split assms(2,3) by simp
  next
    case (snoc post' k)
    then have "body = pre @ j # post'" using split by simp
    then show ?thesis using assms(1) unfolding body_ok_def by blast
  qed
qed

lemma body_op: "body_ok B dm f b body \<Longrightarrow> i \<in> set body \<Longrightarrow> is_op f i"
  by (auto simp: body_ok_def dest!: split_list)

lemma fills_body_ok:
  assumes "fills B dm b rest f body f' body'" and "frame_ok f" and "lo_insts (fn_layout f) b = body @ rest" and "b \<in> set (blocks_of f)"
    and "body_ok B dm f b body"
  shows "body_ok B dm f' b body'"
  using assms
proof (induction rule: fills.induct)
  case (fills_op f1 body1 args ts m ty rs imms)
  let ?f2 = "put_inst b body1 rest (Op m imms args) rs f1" and ?n = "length (dfg_insts f1)"
  have fr: "frame_ok f1" "lo_insts (fn_layout f1) b = body1 @ rest"
    using fills_frame [OF fills_op.hyps(1) fills_op.prems(1-3)] by auto
  have ok: "body_ok B dm f1 b body1" using fills_op.IH fills_op.prems by blast
  have gr: "grows B f1 ?f2" by (rule grows_put [OF fr(2)])
  have "set body1 \<subseteq> {..<?n}" using frame_bound [OF fr(1), of b] fr(2) by auto
  then have "body_ok B dm ?f2 b body1"
    by (intro body_ok_mono [OF ok gr]) (auto simp: nth_opt_def nth_append)
  moreover have "inst_typed ?f2 ?n (Op m imms args)"
    using grows_types_of [OF gr fills_op.hyps(2)] fills_op.hyps(3) put_results [OF fr(1), of b body1 rest "Op m imms args" rs]
    by (auto simp del: put_inst_fields)
  moreover have "\<forall>v \<in> set args. avail B dm ?f2 b body1 v" using fills_op.hyps(4) grows_avail [OF gr] by blast
  ultimately show ?case
    by (intro body_ok_snoc) (auto simp: inst_ok_def is_op_def inst_uses_def nth_append)
qed

lemma fills_other:
  assumes "fills B dm b rest f body f' body'" and "frame_ok f" and "lo_insts (fn_layout f) b = body @ rest" and "b \<in> set (blocks_of f)"
    and "body_ok B dm f c xs" and "set xs \<subseteq> {..<length (dfg_insts f)}"
  shows "body_ok B dm f' c xs"
proof -
  note fr = fills_frame [OF assms(1-4)]
  then obtain ds where "dfg_insts f' = dfg_insts f @ ds" by (auto simp: same_frame_def)
  then show ?thesis using fr assms(6) by (intro body_ok_mono [OF assms(5)]) (auto simp: nth_opt_def nth_append)
qed

subsection \<open>What the selector emits\<close>

lemma put_def_at:
  assumes "frame_ok f" and "v \<in> {length (dfg_values f)..<length (dfg_values f) + length rs}"
  shows "def_at B (put_inst b body rest d rs f) b (body @ [length (dfg_insts f)]) v"
  using assms by (auto simp: def_at_def frame_ok_def nth_append split: option.splits)

lemma ins_op_put:
  assumes "ins_op m ty imms args c = Some (vs, c')" and "types_of (cur_func c) args ts" and "op_types m ty ts = Some rs"
    and "ins_at c b body rest"
  shows "\<exists>imms'. c' = c\<lparr>cur_func := put_inst b body rest (Op m imms' args) rs (cur_func c)\<rparr>"
    and "vs = [length (dfg_values (cur_func c))..<length (dfg_values (cur_func c)) + length rs]"
proof -
  obtain oc ct where oc: "constraints m = Some oc" "ctrl_type oc ty args (cur_func c) = Some ct" "result_types oc ct = Some rs"
    using assms(2,3) by (auto simp: op_types_def ctrl_type_types bind_eq_Some_conv split: if_splits)
  then show "\<exists>imms'. c' = c\<lparr>cur_func := put_inst b body rest (Op m imms' args) rs (cur_func c)\<rparr>"
    and "vs = [length (dfg_values (cur_func c))..<length (dfg_values (cur_func c)) + length rs]"
    using assms(1) build_inst_put [OF assms(4)] by (auto simp: ins_op_def Let_def)
qed

lemma emits_fills:
  assumes "emits D c c' S" and at: "ins_at c b body rest" and cand: "\<forall>v \<in> candidates D. avail B dm (cur_func c) b body v"
  shows "\<exists>body'. fills B dm b rest (cur_func c) body (cur_func c') body' \<and> ins_at c' b body' rest \<and>
    (\<forall>v \<in> S. def_at B (cur_func c') b body' v)"
  using assms(1)
proof (induction rule: emits.induct)
  case emits_none
  then show ?case using at fills_refl [of B dm b rest "cur_func c" body] by blast
next
  case (emits_op c1 S m ty imms args vs c2 ts rs)
  then obtain body1 where b1: "fills B dm b rest (cur_func c) body (cur_func c1) body1" "ins_at c1 b body1 rest"
    "\<forall>v \<in> S. def_at B (cur_func c1) b body1 v" by blast
  have fr: "frame_ok (cur_func c1)" "lo_insts (cur_layout c1) b = body1 @ rest" using b1(2) by (auto simp: ins_at_def)
  have gr: "grows B (cur_func c) (cur_func c1)" "set body \<subseteq> set body1"
    using fills_frame [OF b1(1)] at by (auto simp: ins_at_def)
  obtain imms' where c2: "c2 = c1\<lparr>cur_func := put_inst b body1 rest (Op m imms' args) rs (cur_func c1)\<rparr>"
    "vs = [length (dfg_values (cur_func c1))..<length (dfg_values (cur_func c1)) + length rs]"
    using ins_op_put [OF emits_op.hyps(2-4) b1(2)] by blast
  have "avail B dm (cur_func c1) b body1 v" if "v \<in> set args" for v
  proof (cases "v \<in> S")
    case True
    then show ?thesis using b1(3) by (simp add: avail_def)
  next
    case False
    then have "v \<in> candidates D" using that emits_op.hyps(5) by auto
    then show ?thesis using cand grows_avail [OF gr(1) _ gr(2)] by blast
  qed
  then have "fills B dm b rest (cur_func c) body (cur_func c2) (body1 @ [length (dfg_insts (cur_func c1))])"
    using fills.fills_op [OF b1(1) emits_op.hyps(3,4)] c2(1) by simp
  moreover have "ins_at c2 b (body1 @ [length (dfg_insts (cur_func c1))]) rest" using ins_at_put [OF b1(2)] c2(1) by simp
  moreover have "def_at B (cur_func c2) b (body1 @ [length (dfg_insts (cur_func c1))]) v" if "v \<in> S \<union> set vs" for v
  proof (cases "v \<in> S")
    case True
    have "grows B (cur_func c1) (cur_func c2)" using grows_put [OF fr(2)] c2(1) by simp
    then show ?thesis using grows_def_at b1(3) True by (metis Un_iff set_append subsetI)
  next
    case False
    then show ?thesis using that put_def_at [OF fr(1)] c2 by auto
  qed
  ultimately show ?case by blast
qed

subsection \<open>The calls of the selector\<close>

definition recorded :: "block set \<Rightarrow> func \<Rightarrow> block \<Rightarrow> inst list \<Rightarrow> typed_value list \<Rightarrow> bool" where
  "recorded B f b is tvs \<longleftrightarrow>
     (\<forall>tv \<in> set tvs. value_type f (get_value tv) = Some (get_type tv) \<and> def_at B f b is (get_value tv))"

lemma recorded_mono: "recorded B f b is tvs \<Longrightarrow> grows B f f' \<Longrightarrow> set is \<subseteq> set is' \<Longrightarrow> recorded B f' b is' tvs"
  unfolding recorded_def by (meson grows_value_type grows_def_at)

lemma recorded_insert [simp]:
  "recorded B f b is (List.insert tv tvs) \<longleftrightarrow>
     (value_type f (get_value tv) = Some (get_type tv) \<and> def_at B f b is (get_value tv)) \<and> recorded B f b is tvs"
  by (auto simp: recorded_def)

lemma recorded_Nil [simp]: "recorded B f b is []"
  by (simp add: recorded_def)

text \<open>The state of filling \<open>b\<close>, started in \<open>f\<close> with \<open>body\<close>.\<close>

definition filling :: "block set \<Rightarrow> (block \<Rightarrow> block \<Rightarrow> bool) \<Rightarrow> block \<Rightarrow> inst list \<Rightarrow> func \<Rightarrow> inst list \<Rightarrow> cursor \<Rightarrow> typed_value list \<Rightarrow> bool" where
  "filling B dm b rest f body c tvs \<longleftrightarrow> (\<exists>body'. fills B dm b rest f body (cur_func c) body' \<and> ins_at c b body' rest \<and>
     recorded B (cur_func c) b body' tvs)"

lemma filling_start: "ins_at c b body rest \<Longrightarrow> recorded B (cur_func c) b body tvs \<Longrightarrow> filling B dm b rest (cur_func c) body c tvs"
  unfolding filling_def using fills_refl by blast

lemma filling_emits:
  assumes fill: "filling B dm b rest f body c tvs" and f: "frame_ok f" "lo_insts (fn_layout f) b = body @ rest" "b \<in> set (blocks_of f)"
    and run: "emits D c c' S" and cand: "\<forall>v \<in> candidates D. avail B dm f b body v"
  shows "\<exists>body'. fills B dm b rest f body (cur_func c') body' \<and> ins_at c' b body' rest \<and>
    recorded B (cur_func c') b body' tvs \<and> (\<forall>v \<in> S. def_at B (cur_func c') b body' v)"
proof -
  obtain body1 where b1: "fills B dm b rest f body (cur_func c) body1" "ins_at c b body1 rest" "recorded B (cur_func c) b body1 tvs"
    using fill by (auto simp: filling_def)
  have "grows B f (cur_func c)" "set body \<subseteq> set body1" using fills_frame [OF b1(1) f] by auto
  then have "\<forall>v \<in> candidates D. avail B dm (cur_func c) b body1 v" using cand grows_avail by blast
  from emits_fills [OF run b1(2) this] obtain body2 where
    b2: "fills B dm b rest (cur_func c) body1 (cur_func c') body2" "ins_at c' b body2 rest"
      "\<forall>v \<in> S. def_at B (cur_func c') b body2 v"
    by blast
  have "frame_ok (cur_func c)" "lo_insts (cur_layout c) b = body1 @ rest" "b \<in> set (blocks_of (cur_func c))"
    using b1(2) by (auto simp: ins_at_def)
  then have "grows B (cur_func c) (cur_func c')" "set body1 \<subseteq> set body2" using fills_frame [OF b2(1)] by auto
  then have "recorded B (cur_func c') b body2 tvs" by (rule recorded_mono [OF b1(3)])
  then show ?thesis using fills_trans [OF b2(1) b1(1)] b2 by blast
qed

lemma offered_fold: "offered D tvs \<Longrightarrow> offered D us \<Longrightarrow> offered D (fold List.insert tvs us)"
proof -
  have "set (fold List.insert tvs us) = set tvs \<union> set us" by (induction tvs arbitrary: us) auto
  then show "offered D tvs \<Longrightarrow> offered D us \<Longrightarrow> ?thesis" by (auto simp: list_all_iff)
qed

lemma env_ok_grows: "env_ok D f \<Longrightarrow> grows B f f' \<Longrightarrow> env_ok D f'"
  unfolding env_ok_def using grows_value_type by blast

lemma populate_fold:
  assumes R: "rand_ok R" and cfg: "legal_config cfg" and env: "env_ok D f" and cand: "\<forall>v \<in> candidates D. avail B dm f b body v"
    and f: "frame_ok f" "lo_insts (fn_layout f) b = body @ rest" "b \<in> set (blocks_of f)"
    and fill: "filling B dm b rest f body c tvs" and refs: "offered D us"
    and run: "foldM (populate_step R D cfg) snippet (c, (tvs, us), g) = Some (c', (tvs', us'), g')"
  shows "filling B dm b rest f body c' tvs' \<and> offered D us' \<and> global_rng g' = global_rng g"
proof -
  let ?P = "\<lambda>(c, (tvs, us), h). filling B dm b rest f body c tvs \<and> offered D us \<and> global_rng h = global_rng g"
  have "?P (c', (tvs', us'), g')"
  proof (rule foldM_preserves [OF run])
    show "?P (c, (tvs, us), g)" using fill refs by simp
    fix x s s' assume P: "?P s" and step: "populate_step R D cfg x s = Some s'"
    obtain c1 tvs1 us1 h1 where s: "s = (c1, (tvs1, us1), h1)" by (metis surj_pair)
    obtain res c2 h2 where s': "populate_block_instructions R D cfg c1 h1 = Some (res, c2, h2)"
      "s' = (c2, record_result res (tvs1, us1), h2)"
      using step by (auto simp: s populate_step_def elim!: bindE)
    have fill1: "filling B dm b rest f body c1 tvs1" and us1: "offered D us1" and h1: "global_rng h1 = global_rng g"
      using P s by auto
    obtain body1 where "fills B dm b rest f body (cur_func c1) body1" using fill1 by (auto simp: filling_def)
    then have env1: "env_ok D (cur_func c1)" using fills_frame [OF _ f] env_ok_grows [OF env] by blast
    obtain S where S: "emits D c1 c2 S" "res_ok D (cur_func c2) S res" using populate_sound(1) [OF R env1 cfg s'(1)] by blast
    obtain body2 where b2: "fills B dm b rest f body (cur_func c2) body2" "ins_at c2 b body2 rest"
      "recorded B (cur_func c2) b body2 tvs1" "\<forall>v \<in> S. def_at B (cur_func c2) b body2 v"
      using filling_emits [OF fill1 f S(1) cand] by blast
    obtain tvs2 us2 where r: "record_result res (tvs1, us1) = (tvs2, us2)" by (metis surj_pair)
    have "recorded B (cur_func c2) b body2 tvs2" using b2(3,4) S(2) r
      by (auto simp: record_result_def res_ok_def split: option.splits prod.splits)
    moreover have "offered D us2" using S(2) r us1
      by (auto simp: record_result_def res_ok_def intro: offered_fold split: option.splits prod.splits)
    moreover have "global_rng h2 = global_rng g" using populate_sound(2) [OF R env1 cfg s'(1)] h1 by simp
    ultimately show "?P s'" using b2(1,2) s'(2) r by (auto simp: filling_def)
  qed
  then show ?thesis by simp
qed

subsection \<open>The entry\<close>

lemma draws_rng [simp]:
  "global_rng (snd (thread_gen_bool R g)) = global_rng g"
  "global_rng (snd (thread_gen_range_int R lo hi g)) = global_rng g"
  "global_rng (snd (edge_int R w g)) = global_rng g"
  "global_rng (snd (edge_float R w x y g)) = global_rng g"
  by (auto simp: thread_gen_bool_def thread_gen_range_int_def edge_int_def edge_float_def thread_gen_bits_def Let_def
      split: prod.splits)

lemma draw_lanes_rng:
  assumes "\<And>g. global_rng (snd (lane g)) = global_rng g"
  shows "global_rng (snd (draw_lanes lane n g)) = global_rng g"
proof (induction n arbitrary: g)
  case (Suc n)
  then show ?case using assms [of g] by (auto simp: Let_def split: prod.splits) (metis Suc.IH assms snd_conv)
qed simp

lemma vector_bytes_SomeD:
  assumes "vector_bytes R t g = Some (bs, g')"
  shows "global_rng g' = global_rng g" and "op_yields ''vconst'' t [] (Some t)"
proof -
  have lanes: "global_rng (snd (int_lane_bytes R k g)) = global_rng g" "global_rng (snd (float_lane_bytes (edge_float R w x y) k g)) = global_rng g"
    for k w x y g
    by (simp_all add: int_lane_bytes_def float_lane_bytes_def case_prod_unfold Let_def)
  note dl = draw_lanes_rng [OF lanes(1)] draw_lanes_rng [OF lanes(2)]
  have "pred_option (\<lambda>r. global_rng (snd r) = global_rng g) (vector_bytes R t g)"
    by (simp add: vector_bytes_def edge_f16_def edge_f32_def edge_f64_def dl)
  then show "global_rng g' = global_rng g" using assms by simp
  have "t \<in> {I8X16, I16X8, I32X4, I64X2, F16X8, F32X4, F64X2}" using assms by (auto simp: vector_bytes_def split: if_splits)
  then show "op_yields ''vconst'' t [] (Some t)" by (auto simp: op_eval)
qed

lemma emits_const:
  assumes "ins_value m t imms [] c = Some (v, c')" and "op_yields m t [] (Some r)"
  shows "\<exists>S. emits D c c' S \<and> v \<in> S \<and> value_type (cur_func c') v = Some r"
  by (rule emits_value [OF emits_none assms(1) _ _ assms(2), of D]) auto

lemma f16const_yields: "op_yields ''f16const'' F16 [] (Some F16)"
proof -
  have "constraints ''f16const'' = Some (sig_fixed [] [Concrete F16])"
    unfolding constraints_def opcode_table_defs append_assoc by (simp only: lookup_simps)
  then show ?thesis by (simp add: op_eval)
qed

lemma gen_scalar_constant_emits:
  assumes "gen_scalar_constant R t c g = Some (v, c', g')"
  shows "(\<exists>S. emits D c c' S \<and> v \<in> S \<and> value_type (cur_func c') v = Some t) \<and> global_rng g' = global_rng g"
proof -
  consider "t \<in> {I8, I16, I32, I64}" | "t = I128" | "t = F16" | "t = F32" | "t = F64"
    using assms by (auto simp: gen_scalar_constant_def split: if_splits)
  then show ?thesis
  proof cases
    case 1
    then show ?thesis using assms
      by (auto simp: gen_scalar_constant_def case_prod_unfold Let_def elim!: bindE intro!: emits_const const_yields(4))
  next
    case 2
    then obtain i v64 c1 where s: "ins_value ''iconst'' I64 [Imm64 i] [] c = Some (v64, c1)"
      "ins_value ''uextend'' I128 [] [v64] c1 = Some (v, c')" "global_rng g' = global_rng g"
      using assms by (auto simp: gen_scalar_constant_def case_prod_unfold Let_def elim!: bindE)
    obtain S where S: "emits D c c1 S" "v64 \<in> S" "value_type (cur_func c1) v64 = Some I64"
      using emits_const [OF s(1) const_yields(4)] by auto
    have "op_yields ''uextend'' I128 [I64] (Some I128)" by (simp add: op_eval)
    from emits_value [OF S(1) s(2) _ _ this] S(2,3) 2 s(3) show ?thesis by (metis empty_set insert_subset list.simps(15) sup_ge2 subsetD types_of_simps empty_subsetI)
  next
    case 3
    then show ?thesis using assms f16const_yields
      by (auto simp: gen_scalar_constant_def edge_f16_def case_prod_unfold Let_def elim!: bindE intro!: emits_const)
  next
    case 4
    then show ?thesis using assms const_yields(2)
      by (auto simp: gen_scalar_constant_def edge_f32_def case_prod_unfold Let_def elim!: bindE intro!: emits_const)
  next
    case 5
    then show ?thesis using assms const_yields(3)
      by (auto simp: gen_scalar_constant_def edge_f64_def case_prod_unfold Let_def elim!: bindE intro!: emits_const)
  qed
qed

lemma gen_constant_emits:
  assumes "gen_constant R t c g = Some (v, c', g')"
  shows "(\<exists>S. emits D c c' S \<and> v \<in> S \<and> value_type (cur_func c') v = Some t) \<and> global_rng g' = global_rng g"
proof (cases "t \<in> set [I8, I16, I32, I64, I128, F16, F32, F64]")
  case True
  then have "gen_scalar_constant R t c g = Some (v, c', g')" using assms by (simp add: gen_constant_def split: if_splits)
  then show ?thesis by (rule gen_scalar_constant_emits)
next
  case False
  then obtain bs where bs: "vector_bytes R t g = Some (bs, g')" "ins_value ''vconst'' t [ConstBytes bs] [] c = Some (v, c')"
    using assms unfolding gen_constant_def by (auto elim!: bindE simp del: list.set)
  show ?thesis using vector_bytes_SomeD [OF bs(1)] emits_const [OF bs(2)] by blast
qed

text \<open>New parameters of a block.\<close>

definition params_wf :: "func \<Rightarrow> block \<Rightarrow> bool" where
  "params_wf f b \<longleftrightarrow> b < length (dfg_blocks f) \<and>
     (\<forall>k < length (dfg_blocks f ! b). \<exists>t. nth_opt (dfg_values f) (dfg_blocks f ! b ! k) = Some (ValParam t k b))"

definition same_code :: "block \<Rightarrow> func \<Rightarrow> func \<Rightarrow> bool" where
  "same_code b f f' \<longleftrightarrow> fn_layout f' = fn_layout f \<and> dfg_insts f' = dfg_insts f \<and> dfg_results f' = dfg_results f \<and>
     jump_tables f' = jump_tables f \<and> fn_sig f' = fn_sig f \<and> fn_name f' = fn_name f \<and> ext_funcs f' = ext_funcs f \<and>
     signatures f' = signatures f \<and> length (dfg_blocks f') = length (dfg_blocks f) \<and>
     (\<forall>c. c \<noteq> b \<longrightarrow> dfg_blocks f' ! c = dfg_blocks f ! c)"

lemma same_code_refl [simp]: "same_code b f f"
  by (simp add: same_code_def)

lemma same_code_trans: "same_code b f g \<Longrightarrow> same_code b g h \<Longrightarrow> same_code b f h"
  by (simp add: same_code_def)

lemma append_block_param_put:
  assumes "append_block_param b t f = Some (v, f')" and wf: "params_wf f b" and types: "types_of f (dfg_blocks f ! b) ts"
  shows "grows B f f'" and "same_code b f f'" and "params_wf f' b" and "types_of f' (dfg_blocks f' ! b) (ts @ [t])"
    and "dfg_blocks f' ! b = dfg_blocks f ! b @ [v]" and "value_type f' v = Some t"
    and "b \<in> B \<Longrightarrow> def_at B f' b is v"
proof -
  have b: "b < length (dfg_blocks f)" using wf by (simp add: params_wf_def)
  define ps where "ps = dfg_blocks f ! b"
  have v: "v = length (dfg_values f)"
    and f': "f' = f\<lparr>dfg_blocks := (dfg_blocks f)[b := ps @ [v]], dfg_values := dfg_values f @ [ValParam t (length ps) b]\<rparr>"
    using assms(1) b by (auto simp: append_block_param_def Let_def ps_def)
  show gr: "grows B f f'" using b by (auto simp: grows_def f' ps_def nth_list_update)
  show "same_code b f f'" by (simp add: same_code_def f')
  show ps': "dfg_blocks f' ! b = dfg_blocks f ! b @ [v]" using b by (simp add: f' ps_def)
  show t: "value_type f' v = Some t" by (simp add: value_type_def f' v)
  show "types_of f' (dfg_blocks f' ! b) (ts @ [t])"
    unfolding ps' using grows_types_of [OF gr types] t by (simp add: types_of_def)
  show "b \<in> B \<Longrightarrow> def_at B f' b is v" using b by (simp add: def_at_def f' v)
  show "params_wf f' b"
    unfolding params_wf_def ps'
  proof (intro conjI allI impI)
    show "b < length (dfg_blocks f')" using b by (simp add: f')
    fix k assume k: "k < length (dfg_blocks f ! b @ [v])"
    show "\<exists>t. nth_opt (dfg_values f') ((dfg_blocks f ! b @ [v]) ! k) = Some (ValParam t k b)"
    proof (cases "k < length (dfg_blocks f ! b)")
      case True
      then obtain u where "nth_opt (dfg_values f) (dfg_blocks f ! b ! k) = Some (ValParam u k b)"
        using wf unfolding params_wf_def by blast
      then show ?thesis using grows_nth_value [OF gr] True by (auto simp: nth_append simp del: nth_opt_eq_Some)
    next
      case False
      then have "k = length (dfg_blocks f ! b)" using k by simp
      then show ?thesis by (simp add: f' v ps_def nth_append)
    qed
  qed
qed

lemma append_block_param_ex: "b < length (dfg_blocks f) \<Longrightarrow> \<exists>v f'. append_block_param b t f = Some (v, f')"
  by (simp add: append_block_param_def Let_def)

lemma entry_params:
  assumes "foldM (entry_param b) ps (c, tvs, ots) = Some (c', tvs', ots')" and "params_wf (cur_func c) b"
    and "types_of (cur_func c) (dfg_blocks (cur_func c) ! b) ts" and "recorded B (cur_func c) b is tvs" and "b \<in> B"
  shows "same_code b (cur_func c) (cur_func c') \<and> grows B (cur_func c) (cur_func c') \<and> cur_pos c' = cur_pos c \<and>
    params_wf (cur_func c') b \<and> types_of (cur_func c') (dfg_blocks (cur_func c') ! b) (ts @ ps) \<and>
    recorded B (cur_func c') b is tvs' \<and> get_type ` set tvs' = get_type ` set tvs \<union> set ps \<and>
    ots' = filter (\<lambda>ot. to_cranelift_type ot \<notin> set ps) ots \<and> stack_slots (cur_func c') = stack_slots (cur_func c)"
  using assms
proof (induction ps arbitrary: c tvs ots ts)
  case (Cons t ps)
  obtain s1 where s1: "entry_param b t (c, tvs, ots) = Some s1" "foldM (entry_param b) ps s1 = Some (c', tvs', ots')"
    using Cons.prems(1) by (auto elim!: bindE)
  then obtain v f1 where v: "append_block_param b t (cur_func c) = Some (v, f1)"
    and rest: "foldM (entry_param b) ps (c\<lparr>cur_func := f1\<rparr>, List.insert (TypedValue v t) tvs,
        filter (\<lambda>ot. to_cranelift_type ot \<noteq> t) ots) = Some (c', tvs', ots')"
    unfolding entry_param_def [of b t] by (auto elim!: bindE)
  note eff = append_block_param_put [OF v Cons.prems(2,3)]
  have "recorded B f1 b is (List.insert (TypedValue v t) tvs)"
    using recorded_mono [OF Cons.prems(4) eff(1)] eff(6,7) Cons.prems(5) by simp
  from Cons.IH [OF rest _ _ _ Cons.prems(5), of "ts @ [t]"] this eff(3,4)
  have IH: "same_code b f1 (cur_func c')" "grows B f1 (cur_func c')" "cur_pos c' = cur_pos c" "params_wf (cur_func c') b"
    "types_of (cur_func c') (dfg_blocks (cur_func c') ! b) (ts @ t # ps)" "recorded B (cur_func c') b is tvs'"
    "get_type ` set tvs' = insert t (get_type ` set tvs) \<union> set ps"
    "ots' = filter (\<lambda>ot. to_cranelift_type ot \<notin> set ps) (filter (\<lambda>ot. to_cranelift_type ot \<noteq> t) ots)"
    "stack_slots (cur_func c') = stack_slots f1"
    by auto
  have "stack_slots f1 = stack_slots (cur_func c)" using v by (auto simp: append_block_param_def Let_def split: option.splits)
  moreover have "ots' = filter (\<lambda>ot. to_cranelift_type ot \<notin> set (t # ps)) ots" unfolding IH(8) filter_filter
    by (rule filter_cong) auto
  ultimately show ?case
    using same_code_trans [OF eff(2) IH(1)] grows_trans [OF eff(1) IH(2)] IH by auto
qed simp

text \<open>The constants and stores of the entry.\<close>

abbreviation no_env :: dom_env where
  "no_env \<equiv> \<lparr>dominator_blocks = [], block_dominator_values = []\<rparr>"

lemma candidates_no_env [simp]: "candidates no_env = {}"
  by (simp add: candidates_def get_dominator_values_with_type_def)

lemma entry_constants:
  assumes f: "frame_ok f" "lo_insts (fn_layout f) b = body @ rest" "b \<in> set (blocks_of f)"
    and "filling B dm b rest f body c tvs" and "foldM (entry_constant R) ots (c, tvs, g) = Some (c', tvs', g')"
  shows "filling B dm b rest f body c' tvs' \<and> get_type ` set tvs' = get_type ` set tvs \<union> to_cranelift_type ` set ots \<and>
    global_rng g' = global_rng g"
  using assms(4,5)
proof (induction ots arbitrary: c tvs g)
  case (Cons ot ots)
  let ?t = "to_cranelift_type ot"
  obtain s1 where s1: "entry_constant R ot (c, tvs, g) = Some s1" "foldM (entry_constant R) ots s1 = Some (c', tvs', g')"
    using Cons.prems(2) by (auto elim!: bindE)
  then obtain v c1 g1 where v: "gen_constant R ?t c g = Some (v, c1, g1)"
    and rest: "foldM (entry_constant R) ots (c1, List.insert (TypedValue v ?t) tvs, g1) = Some (c', tvs', g')"
    unfolding entry_constant_def [of R ot] by (auto simp: Let_def elim!: bindE)
  obtain S where S: "emits no_env c c1 S" "v \<in> S" "value_type (cur_func c1) v = Some ?t" and g1: "global_rng g1 = global_rng g"
    using gen_constant_emits [OF v] by blast
  from filling_emits [OF Cons.prems(1) f S(1)] S(2,3)
  have "filling B dm b rest f body c1 (List.insert (TypedValue v ?t) tvs)" by (auto simp: filling_def)
  from Cons.IH [OF this rest] g1 show ?case by auto
qed simp

lemma store_yields: "op_yields ''store'' I64 [I64, I64] None"
  by (simp add: op_eval)

lemma entry_stores_emits:
  assumes "entry_stores v a0 a1 c = Some c'" and "env_ok D (cur_func c)"
    and "{v, a0, a1} \<subseteq> set (get_dominator_values_with_type D I64)"
  shows "\<exists>S. emits D c c' S"
  using assms(1) unfolding entry_stores_def
proof (rule foldM_preserves [where P = "\<lambda>d. \<exists>S. emits D c d S"])
  show "\<exists>S. emits D c c S" using emits_none by blast
  fix i d d' assume "\<exists>S. emits D c d S"
    and run: "do { d \<leftarrow> ins_plain ''store'' I64 [MemFlagsLE, Offset32 (int i * 8)] [v, a0] d;
      ins_plain ''store'' I64 [MemFlagsLE, Offset32 (int i * 8)] [v, a1] d } = Some d'"
  then obtain S d1 where S: "emits D c d S"
    and d1: "ins_plain ''store'' I64 [MemFlagsLE, Offset32 (int i * 8)] [v, a0] d = Some d1"
      "ins_plain ''store'' I64 [MemFlagsLE, Offset32 (int i * 8)] [v, a1] d1 = Some d'"
    by (auto elim!: bindE)
  have vals: "value_type (cur_func e) x = Some I64" "x \<in> candidates D" if "emits D c e T" "x \<in> {v, a0, a1}" for e T x
  proof -
    have x: "x \<in> set (get_dominator_values_with_type D I64)" using that(2) assms(3) by blast
    show "value_type (cur_func e) x = Some I64" by (rule candidate_type [OF x env_ok_emits [OF that(1) assms(2)]])
    show "x \<in> candidates D" by (rule candidate_in [OF x])
  qed
  obtain S1 where S1: "emits D c d1 S1"
    using emits_plain [OF S d1(1) _ _ store_yields] vals [OF S, of v] vals [OF S, of a0] by auto
  show "\<exists>S. emits D c d' S"
    using emits_plain [OF S1 d1(2) _ _ store_yields] vals [OF S1, of v] vals [OF S1, of a1] by auto
qed

lemma ins_at_same_code:
  "ins_at c b body rest \<Longrightarrow> same_code d (cur_func c) (cur_func c') \<Longrightarrow> cur_pos c' = cur_pos c \<Longrightarrow> ins_at c' b body rest"
  by (simp add: ins_at_def same_code_def frame_ok_def)

lemma filling_value:
  assumes f: "frame_ok f" "lo_insts (fn_layout f) b = body @ rest" "b \<in> set (blocks_of f)"
    and "filling B dm b rest f body c tvs" and "ins_value m t imms [] c = Some (v, c')" and "op_yields m t [] (Some r)"
  shows "filling B dm b rest f body c' (List.insert (TypedValue v r) tvs)"
proof -
  obtain S where S: "emits no_env c c' S" "v \<in> S" "value_type (cur_func c') v = Some r"
    using emits_const [OF assms(5,6)] by blast
  from filling_emits [OF assms(4) f S(1)] S(2,3) show ?thesis by (auto simp: filling_def)
qed

lemma filling_fewer: "filling B dm b rest f body c (List.insert tv tvs) \<Longrightarrow> filling B dm b rest f body c tvs"
  by (auto simp: filling_def)

lemma filling_stores:
  assumes f: "frame_ok f" "lo_insts (fn_layout f) b = body @ rest" "b \<in> set (blocks_of f)"
    and fill: "filling B dm b rest f body c tvs" and run: "entry_stores v a0 a1 c = Some c'"
    and vals: "{TypedValue v I64, TypedValue a0 I64, TypedValue a1 I64} \<subseteq> set tvs"
  shows "filling B dm b rest f body c' tvs"
proof -
  obtain body1 where b1: "fills B dm b rest f body (cur_func c) body1" "ins_at c b body1 rest" "recorded B (cur_func c) b body1 tvs"
    using fill by (auto simp: filling_def)
  define D where "D = \<lparr>dominator_blocks = [b], block_dominator_values = [(b, tvs)]\<rparr>"
  have env: "env_ok D (cur_func c)" using b1(3) by (auto simp: env_ok_def D_def recorded_def)
  have cand: "\<forall>v \<in> candidates D. avail B dm (cur_func c) b body1 v"
    using b1(3) by (force simp: candidates_def candidate_iff D_def recorded_def avail_def)
  have "{v, a0, a1} \<subseteq> set (get_dominator_values_with_type D I64)" using vals by (auto simp: candidate_iff D_def)
  then obtain S where S: "emits D c c' S" using entry_stores_emits [OF run env] by blast
  obtain body2 where b2: "fills B dm b rest (cur_func c) body1 (cur_func c') body2" "ins_at c' b body2 rest"
    using emits_fills [OF S b1(2) cand] by blast
  have "frame_ok (cur_func c)" "lo_insts (cur_layout c) b = body1 @ rest" "b \<in> set (blocks_of (cur_func c))"
    using b1(2) by (auto simp: ins_at_def)
  then have "grows B (cur_func c) (cur_func c')" "set body1 \<subseteq> set body2" using fills_frame [OF b2(1)] by auto
  then have "recorded B (cur_func c') b body2 tvs" by (rule recorded_mono [OF b1(3)])
  then show ?thesis using fills_trans [OF b2(1) b1(1)] b2(2) by (auto simp: filling_def)
qed

lemma find_of_type_SomeD:
  "find_of_type R t tvs g = Some (v, g') \<Longrightarrow> rand_ok R \<Longrightarrow> TypedValue v t \<in> set tvs \<and> global_rng g' = global_rng g"
  by (auto simp: find_of_type_def elim!: bindE dest!: thread_choose_SomeD)

lemma entry_setup_filling:
  assumes R: "rand_ok R" and run: "entry_setup R cfg sg b c g = Some (c', tvs, g')" and at: "ins_at c b [] rest"
    and empty: "dfg_blocks (cur_func c) ! b = []" "b < length (dfg_blocks (cur_func c))" and B: "b \<in> B"
  shows "\<exists>f1. same_code b (cur_func c) f1 \<and> grows B (cur_func c) f1 \<and> params_wf f1 b \<and>
    types_of f1 (dfg_blocks f1 ! b) (sig_params sg) \<and> filling B dm b rest f1 [] c' tvs \<and>
    set (sig_params sg) \<union> to_cranelift_type ` set (cfg_operand_types cfg) \<subseteq> get_type ` set tvs \<and> global_rng g' = global_rng g"
proof -
  obtain c1 tvs1 ots where p: "foldM (entry_param b) (sig_params sg) (c, [], cfg_operand_types cfg) = Some (c1, tvs1, ots)"
    using run by (auto simp: entry_setup_def elim!: bindE)
  define f1 where "f1 = (cur_func c1)\<lparr>stack_slots := stack_slots (cur_func c1) @ [32, 32]\<rparr>"
  define k where "k = length (stack_slots (cur_func c1))"
  obtain c2 g2 a0 c3 a1 c4 v where s: "foldM (entry_constant R) ots (c1\<lparr>cur_func := f1\<rparr>, tvs1, g) = Some (c2, tvs, g2)"
    "ins_value ''stack_addr'' I64 [StackSlot k, Offset32 0] [] c2 = Some (a0, c3)"
    "ins_value ''stack_addr'' I64 [StackSlot (Suc k), Offset32 0] [] c3 = Some (a1, c4)"
    "find_of_type R I64 tvs g2 = Some (v, g')" "entry_stores v a0 a1 c4 = Some c'"
    using run p by (auto simp: entry_setup_def create_sized_stack_slot_def Let_def f1_def k_def elim!: bindE)
  have wf: "params_wf (cur_func c) b" using empty by (simp add: params_wf_def)
  note e = entry_params [OF p wf _ _ B, of "[]" "[]"]
  have e': "same_code b (cur_func c) (cur_func c1)" "grows B (cur_func c) (cur_func c1)" "cur_pos c1 = cur_pos c"
    "params_wf (cur_func c1) b" "types_of (cur_func c1) (dfg_blocks (cur_func c1) ! b) (sig_params sg)"
    "recorded B (cur_func c1) b [] tvs1" "get_type ` set tvs1 = set (sig_params sg)"
    "ots = filter (\<lambda>ot. to_cranelift_type ot \<notin> set (sig_params sg)) (cfg_operand_types cfg)"
    using e empty(1) by auto
  have sc: "same_code b (cur_func c) f1" "grows B (cur_func c1) f1" "params_wf f1 b" "types_of f1 (dfg_blocks f1 ! b) (sig_params sg)"
    using e'(1,4) grows_types_of [OF _ e'(5), of B f1] by (auto simp: f1_def same_code_def grows_def params_wf_def)
  have at1: "ins_at (c1\<lparr>cur_func := f1\<rparr>) b [] rest" using ins_at_same_code [OF at, of b "c1\<lparr>cur_func := f1\<rparr>"] sc(1) e'(3) by simp
  have f: "frame_ok f1" "lo_insts (fn_layout f1) b = [] @ rest" "b \<in> set (blocks_of f1)" using at1 by (auto simp: ins_at_def)
  have "filling B dm b rest f1 [] (c1\<lparr>cur_func := f1\<rparr>) tvs1"
    using filling_start [OF at1, of B tvs1] recorded_mono [OF e'(6) sc(2)] by simp
  note con = entry_constants [OF f this s(1)]
  have fill3: "filling B dm b rest f1 [] c4 (List.insert (TypedValue a1 I64) (List.insert (TypedValue a0 I64) tvs))"
    using filling_value [OF f filling_value [OF f conjunct1 [OF con] s(2) stack_addr_yields] s(3) stack_addr_yields] .
  note fnd = find_of_type_SomeD [OF s(4) R]
  have "filling B dm b rest f1 [] c' (List.insert (TypedValue a1 I64) (List.insert (TypedValue a0 I64) tvs))"
    by (rule filling_stores [OF f fill3 s(5)]) (use fnd in auto)
  then have "filling B dm b rest f1 [] c' tvs" using filling_fewer by blast
  moreover have "set (sig_params sg) \<union> to_cranelift_type ` set (cfg_operand_types cfg) \<subseteq> get_type ` set tvs"
    using con e'(7,8) by auto
  moreover have "grows B (cur_func c) f1" by (rule grows_trans [OF e'(2) sc(2)])
  ultimately show ?thesis using sc fnd con by auto
qed

end
