(* ===== verification/Fill_Sound.thy ===== *)
theory Fill_Sound
  imports Block_Fill
begin

text \<open>
  The first loop of the function generator: after the blocks \<open>P\<close> are filled, every instruction added
  to a block is well typed and uses only available values, conditions are available at their
  branches, and the recorded values are defined in their blocks (\<open>filled\<close>).
\<close>

subsection \<open>Dominators and recorded values\<close>

definition doms_ok :: "dom_map \<Rightarrow> (block \<Rightarrow> block \<Rightarrow> bool) \<Rightarrow> func \<Rightarrow> bool" where
  "doms_ok doms dm f \<longleftrightarrow> (\<forall>b \<in> set (blocks_of f). map_of doms b = Some {c \<in> set (blocks_of f). dm c b})"

lemma dom_list_iff:
  "doms_ok doms dm f \<Longrightarrow> b \<in> set (blocks_of f) \<Longrightarrow> set (dom_list doms b) = {c \<in> set (blocks_of f). dm c b}"
  by (simp add: doms_ok_def dom_list_def)

definition recorded_all :: "block set \<Rightarrow> func \<Rightarrow> block_map \<Rightarrow> bool" where
  "recorded_all B f defs \<longleftrightarrow> (\<forall>b tvs. map_of defs b = Some tvs \<longrightarrow> recorded B f b (lo_insts (fn_layout f) b) tvs)"

lemma env_candidate:
  "v \<in> set (get_dominator_values_with_type (env_at doms defs b) t) \<longleftrightarrow>
     (\<exists>c tvs. c \<in> set (dom_list doms b) \<and> map_of defs c = Some tvs \<and> TypedValue v t \<in> set tvs)"
  by (simp add: candidate_iff env_at_def)

lemma env_at_ok:
  assumes "recorded_all B f defs"
  shows "env_ok (env_at doms defs b) f"
  using assms by (auto simp: env_ok_def env_at_def recorded_all_def recorded_def)

text \<open>Candidates are available: values of strict dominators anywhere, values of the block itself after
  the instructions that define them.\<close>

lemma env_avail:
  assumes "doms_ok doms dm f" and "b \<in> set (blocks_of f)" and "recorded_all B f defs"
    and own: "\<And>tvs. map_of defs b = Some tvs \<Longrightarrow> recorded B f b body tvs"
  shows "\<forall>v \<in> candidates (env_at doms defs b). avail B dm f b body v"
proof
  fix v assume "v \<in> candidates (env_at doms defs b)"
  then obtain t c tvs where c: "c \<in> set (dom_list doms b)" "map_of defs c = Some tvs" "TypedValue v t \<in> set tvs"
    by (auto simp: candidates_def env_candidate)
  then have "dm c b" using dom_list_iff [OF assms(1,2)] by auto
  moreover have "recorded B f c (lo_insts (fn_layout f) c) tvs" using assms(3) c(2) by (simp add: recorded_all_def)
  ultimately show "avail B dm f b body v"
    using own c by (cases "c = b") (force simp: avail_def recorded_def)+
qed

text \<open>Instructions without results define nothing.\<close>

lemma def_at_no_results:
  assumes "def_at B f b (body @ rest) v" and "\<forall>i \<in> set rest. dfg_results f ! i = []"
  shows "def_at B f b body v"
  using assms by (auto simp: def_at_def split: option.splits value_data.splits)

lemma recorded_no_results:
  "recorded B f b (body @ rest) tvs \<Longrightarrow> \<forall>i \<in> set rest. dfg_results f ! i = [] \<Longrightarrow> recorded B f b body tvs"
  unfolding recorded_def using def_at_no_results by blast

subsection \<open>The invariant\<close>

text \<open>\<open>f0\<close> is the function before the loop; its instructions are the branches.\<close>

abbreviation branch_of :: "func \<Rightarrow> block \<Rightarrow> inst list" where
  "branch_of f b \<equiv> lo_insts (fn_layout f) b"

definition cond_ok :: "block set \<Rightarrow> (block \<Rightarrow> block \<Rightarrow> bool) \<Rightarrow> func \<Rightarrow> block \<Rightarrow> inst list \<Rightarrow> inst_data \<Rightarrow> bool" where
  "cond_ok B dm f b body d \<longleftrightarrow> is_conditional d \<longrightarrow>
     (\<forall>v \<in> set (arguments d). value_type f v = Some I32 \<and> avail B dm f b body v)"

definition block_filled :: "func \<Rightarrow> block \<Rightarrow> (block \<Rightarrow> block \<Rightarrow> bool) \<Rightarrow> block set \<Rightarrow> func \<Rightarrow> block \<Rightarrow> bool" where
  "block_filled f0 en dm P f b \<longleftrightarrow> (\<exists>body. lo_insts (fn_layout f) b = body @ branch_of f0 b \<and> body_ok {en} dm f b body \<and>
     (if b \<in> P then lo_insts (fn_layout f) b \<noteq> [] \<and> (b \<noteq> en \<longrightarrow> dfg_blocks f ! b = []) \<and>
        (\<forall>i \<in> set (branch_of f0 b). cond_ok {en} dm f b body (dfg_insts f ! i))
      else body = [] \<and> dfg_blocks f ! b = dfg_blocks f0 ! b))"

definition branch_kept :: "func \<Rightarrow> func \<Rightarrow> inst \<Rightarrow> bool" where
  "branch_kept f0 f i \<longleftrightarrow> i < length (dfg_insts f) \<and> dfg_results f ! i = [] \<and>
     (\<exists>v. dfg_insts f ! i = set_condition v (dfg_insts f0 ! i))"

definition filled :: "func \<Rightarrow> block \<Rightarrow> (block \<Rightarrow> block \<Rightarrow> bool) \<Rightarrow> clif_type set \<Rightarrow> block set \<Rightarrow> func \<Rightarrow> block_map \<Rightarrow> bool" where
  "filled f0 en dm T P f defs \<longleftrightarrow> frame_ok f \<and> blocks_of f = blocks_of f0 \<and> jump_tables f = jump_tables f0 \<and>
     fn_sig f = fn_sig f0 \<and> fn_name f = fn_name f0 \<and> ext_funcs f = ext_funcs f0 \<and> signatures f = signatures f0 \<and> length (dfg_blocks f) = length (dfg_blocks f0) \<and>
     (\<exists>vs. dfg_values f = dfg_values f0 @ vs) \<and>
     (\<forall>b. block_filled f0 en dm P f b) \<and>
     (\<forall>b. \<forall>i \<in> set (branch_of f0 b). branch_kept f0 f i) \<and>
     (\<forall>b. map_of defs b \<noteq> None \<longleftrightarrow> b \<in> P) \<and> recorded_all {en} f defs \<and>
     (en \<in> P \<longrightarrow> params_wf f en \<and> types_of f (dfg_blocks f ! en) (sig_params (fn_sig f0)) \<and>
        (\<forall>tvs. map_of defs en = Some tvs \<longrightarrow> T \<subseteq> get_type ` set tvs))"

subsection \<open>What filling one block keeps\<close>

definition block_step :: "block \<Rightarrow> block \<Rightarrow> (block \<Rightarrow> block \<Rightarrow> bool) \<Rightarrow> inst list \<Rightarrow> func \<Rightarrow> func \<Rightarrow> inst list \<Rightarrow> bool" where
  "block_step en b dm rest f f' body \<longleftrightarrow> grows {en} f f' \<and> frame_ok f' \<and> blocks_of f' = blocks_of f \<and>
     jump_tables f' = jump_tables f \<and> fn_sig f' = fn_sig f \<and> fn_name f' = fn_name f \<and> ext_funcs f' = ext_funcs f \<and> signatures f' = signatures f \<and>
     (\<exists>ds. dfg_insts f' = dfg_insts f @ ds) \<and> length (dfg_blocks f') = length (dfg_blocks f) \<and>
     (\<forall>c. c \<noteq> b \<longrightarrow> lo_insts (fn_layout f') c = lo_insts (fn_layout f) c \<and> dfg_blocks f' ! c = dfg_blocks f ! c) \<and>
     lo_insts (fn_layout f') b = body @ rest \<and> body_ok {en} dm f' b body"

lemma block_step_fills:
  assumes sc: "same_code b f f1" and gr: "grows {en} f f1" and fill: "fills {en} dm b rest f1 [] f' body"
    and fr: "frame_ok f" "lo_insts (fn_layout f) b = rest" "b \<in> set (blocks_of f)"
  shows "block_step en b dm rest f f' body" and "dfg_blocks f' = dfg_blocks f1"
proof -
  have f1: "frame_ok f1" "lo_insts (fn_layout f1) b = [] @ rest" "b \<in> set (blocks_of f1)"
    using sc fr by (auto simp: same_code_def frame_ok_def)
  note ff = fills_frame [OF fill f1]
  have ok: "body_ok {en} dm f' b body" by (rule fills_body_ok [OF fill f1]) (simp add: body_ok_def)
  have "grows {en} f f'" using grows_trans [OF gr] ff by blast
  then show "block_step en b dm rest f f' body"
    using ff ok sc unfolding block_step_def same_code_def same_frame_def by auto
  show "dfg_blocks f' = dfg_blocks f1" using ff by (simp add: same_frame_def)
qed

subsection \<open>The condition of a branch\<close>

lemma remove_only_param:
  assumes "nth_opt (dfg_values f) v = Some (ValParam t 0 b)" and "b < length (dfg_blocks f)" and "dfg_blocks f ! b = [v]"
  shows "remove_block_param v f = Some (f\<lparr>dfg_blocks := (dfg_blocks f)[b := []]\<rparr>)"
  using assms by (simp add: remove_block_param_def)

definition cond_step :: "block \<Rightarrow> inst list \<Rightarrow> func \<Rightarrow> func \<Rightarrow> bool" where
  "cond_step b rest f f' \<longleftrightarrow> fn_layout f' = fn_layout f \<and> dfg_results f' = dfg_results f \<and> dfg_values f' = dfg_values f \<and>
     jump_tables f' = jump_tables f \<and> fn_sig f' = fn_sig f \<and> fn_name f' = fn_name f \<and> ext_funcs f' = ext_funcs f \<and> signatures f' = signatures f \<and>
     length (dfg_insts f') = length (dfg_insts f) \<and> length (dfg_blocks f') = length (dfg_blocks f) \<and>
     (\<forall>c. c \<noteq> b \<longrightarrow> dfg_blocks f' ! c = dfg_blocks f ! c) \<and>
     (\<forall>i. i \<notin> set rest \<longrightarrow> dfg_insts f' ! i = dfg_insts f ! i) \<and>
     (\<forall>i \<in> set rest. \<exists>v. dfg_insts f' ! i = set_condition v (dfg_insts f ! i))"

lemma set_condition_simps [simp]:
  "is_conditional (set_condition v d) = is_conditional d" "set_condition v (set_condition w d) = set_condition v d"
  "is_conditional d \<Longrightarrow> arguments (set_condition v d) = [v]" "\<not> is_conditional d \<Longrightarrow> set_condition v d = d"
  by (cases d; simp)+

lemma set_condition_self: "\<exists>v. d = set_condition v d"
  by (cases d) auto

lemma goto_last_inst_eq:
  assumes "frame_ok (cur_func c)" and "lo_insts (cur_layout c) b \<noteq> []"
  shows "goto_last_inst b c = Some (c\<lparr>cur_pos := At (last (lo_insts (cur_layout c) b))\<rparr>)"
proof -
  have wf: "wf_layout (cur_layout c)" using assms(1) by (simp add: frame_ok_def)
  have "inst_block (cur_layout c) (last (lo_insts (cur_layout c) b)) = Some b"
    unfolding inst_block_iff [OF wf] using assms(2) by simp
  then show ?thesis using assms(2) by (simp add: goto_last_inst_def last_inst_def goto_inst_def)
qed

lemma branch_condition_step:
  assumes R: "rand_ok R" and run: "branch_condition R D b c g = Some (c', g')"
    and f: "frame_ok (cur_func c)" "lo_insts (cur_layout c) b = body @ rest" "body @ rest \<noteq> []" "length rest \<le> 1"
    and ops: "\<forall>i \<in> set body. is_op (cur_func c) i"
    and params: "\<forall>i \<in> set rest. is_conditional (dfg_insts (cur_func c) ! i) \<longrightarrow> b < length (dfg_blocks (cur_func c)) \<and>
      (dfg_blocks (cur_func c) ! b = [] \<or> (\<exists>v t. dfg_blocks (cur_func c) ! b = [v] \<and> nth_opt (dfg_values (cur_func c)) v = Some (ValParam t 0 b)))"
    and env: "env_ok D (cur_func c)" and cand: "\<forall>v \<in> candidates D. avail B dm (cur_func c) b body v"
  shows "cond_step b rest (cur_func c) (cur_func c')"
    and "(\<exists>i \<in> set rest. is_conditional (dfg_insts (cur_func c) ! i)) \<Longrightarrow> dfg_blocks (cur_func c') ! b = []"
    and "(\<forall>i \<in> set rest. \<not> is_conditional (dfg_insts (cur_func c) ! i)) \<Longrightarrow> cur_func c' = cur_func c"
    and "\<forall>i \<in> set rest. \<forall>v. is_conditional (dfg_insts (cur_func c) ! i) \<longrightarrow> v \<in> set (arguments (dfg_insts (cur_func c') ! i)) \<longrightarrow>
      value_type (cur_func c) v = Some I32 \<and> avail B dm (cur_func c) b body v"
    and "global_rng g' = global_rng g"
proof -
  let ?f = "cur_func c"
  obtain i where i: "last (body @ rest) = i" by simp
  have goto: "goto_last_inst b c = Some (c\<lparr>cur_pos := At i\<rparr>)" using goto_last_inst_eq [OF f(1), of b] f(2,3) i by simp
  have "i \<in> set (lo_insts (fn_layout ?f) b)" unfolding f(2) using last_in_set [OF f(3)] i by simp
  then have bound: "i < length (dfg_insts ?f)" using frame_bound [OF f(1)] by blast
  let ?d = "dfg_insts ?f ! i"
  have all: "cond_step b rest ?f (cur_func c') \<and>
    ((\<exists>i \<in> set rest. is_conditional (dfg_insts ?f ! i)) \<longrightarrow> dfg_blocks (cur_func c') ! b = []) \<and>
    ((\<forall>i \<in> set rest. \<not> is_conditional (dfg_insts ?f ! i)) \<longrightarrow> cur_func c' = ?f) \<and>
    (\<forall>i \<in> set rest. \<forall>v. is_conditional (dfg_insts ?f ! i) \<longrightarrow> v \<in> set (arguments (dfg_insts (cur_func c') ! i)) \<longrightarrow>
      value_type ?f v = Some I32 \<and> avail B dm ?f b body v) \<and> global_rng g' = global_rng g"
  proof (cases "is_conditional ?d")
    case False
    then have res: "cur_func c' = ?f" "g' = g" using run goto bound by (auto simp: branch_condition_def)
    have no: "\<not> is_conditional (dfg_insts ?f ! j)" if "j \<in> set rest" for j
      using that f(4) False i by (cases rest) auto
    then show ?thesis using res set_condition_self by (auto simp: cond_step_def)
  next
    case True
    have "i \<in> set rest"
    proof (rule ccontr)
      assume "i \<notin> set rest"
      then have "i \<in> set body" using last_in_set [OF f(3)] i by auto
      then show False using ops True by (auto simp: is_op_def)
    qed
    then have rest: "rest = [i]" using f(4) i by (cases rest) auto
    obtain v g1 where v: "get_random_cond_value R D g = Some (v, g1)" using run goto bound True
      by (auto simp: branch_condition_def elim!: bindE)
    have vt: "v \<in> set (get_dominator_values_with_type D I32)" "global_rng g1 = global_rng g"
      using pick_SomeD [OF _ R, of "get_dominator_values_with_type D I32" g v g1] v by (simp_all add: get_random_cond_value_def)
    define f1 where "f1 = set_inst i (set_condition v ?d) ?f"
    have b: "b < length (dfg_blocks f1)" "dfg_blocks f1 ! b = [] \<or> (\<exists>w t. dfg_blocks f1 ! b = [w] \<and> nth_opt (dfg_values f1) w = Some (ValParam t 0 b))"
      using params rest True by (auto simp: f1_def set_inst_def)
    then have "cur_func c' = f1\<lparr>dfg_blocks := (dfg_blocks f1)[b := []]\<rparr> \<and> g' = g1"
    proof (cases "dfg_blocks f1 ! b")
      case Nil
      then have "(dfg_blocks f1)[b := []] = dfg_blocks f1" by (metis list_update_id)
      then show ?thesis using run goto bound True v b(1) Nil by (auto simp: branch_condition_def f1_def Let_def)
    next
      case (Cons w ws)
      then obtain t where "ws = []" "nth_opt (dfg_values f1) w = Some (ValParam t 0 b)" using b(2) by auto
      then show ?thesis using run goto bound True v b(1) Cons remove_only_param [of f1 w t b]
        by (auto simp: branch_condition_def f1_def Let_def)
    qed
    moreover have "value_type ?f v = Some I32" "avail B dm ?f b body v"
      using candidate_type [OF vt(1) env] cand candidate_in [OF vt(1)] by auto
    ultimately show ?thesis using rest True vt(2) bound b(1)
      by (auto simp: cond_step_def f1_def set_inst_def nth_list_update)
  qed
  then show "cond_step b rest ?f (cur_func c')"
    and "(\<exists>i \<in> set rest. is_conditional (dfg_insts ?f ! i)) \<Longrightarrow> dfg_blocks (cur_func c') ! b = []"
    and "(\<forall>i \<in> set rest. \<not> is_conditional (dfg_insts ?f ! i)) \<Longrightarrow> cur_func c' = ?f"
    and "\<forall>i \<in> set rest. \<forall>v. is_conditional (dfg_insts ?f ! i) \<longrightarrow> v \<in> set (arguments (dfg_insts (cur_func c') ! i)) \<longrightarrow>
      value_type ?f v = Some I32 \<and> avail B dm ?f b body v"
    and "global_rng g' = global_rng g"
    by auto
qed

subsection \<open>The body of one block\<close>

lemma branch_condition_ex:
  assumes R: "rand_ok R" and cands: "get_dominator_values_with_type D I32 \<noteq> []"
    and f: "frame_ok (cur_func c)" "lo_insts (cur_layout c) b = body @ rest" "body @ rest \<noteq> []"
    and ops: "\<forall>i \<in> set body. is_op (cur_func c) i"
    and params: "\<forall>i \<in> set rest. is_conditional (dfg_insts (cur_func c) ! i) \<longrightarrow> b < length (dfg_blocks (cur_func c)) \<and>
      (dfg_blocks (cur_func c) ! b = [] \<or> (\<exists>v t. dfg_blocks (cur_func c) ! b = [v] \<and> nth_opt (dfg_values (cur_func c)) v = Some (ValParam t 0 b)))"
  shows "\<exists>c' g'. branch_condition R D b c g = Some (c', g') \<and> stack_slots (cur_func c') = stack_slots (cur_func c)"
proof -
  let ?f = "cur_func c"
  obtain i where i: "last (body @ rest) = i" by simp
  have goto: "goto_last_inst b c = Some (c\<lparr>cur_pos := At i\<rparr>)" using goto_last_inst_eq [OF f(1), of b] f(2,3) i by simp
  have mem: "i \<in> set (body @ rest)" using last_in_set [OF f(3)] i by simp
  then have bound: "i < length (dfg_insts ?f)" using frame_bound [OF f(1), of b] f(2) by auto
  let ?d = "dfg_insts ?f ! i"
  show ?thesis
  proof (cases "is_conditional ?d")
    case False
    then show ?thesis using goto bound by (simp add: branch_condition_def)
  next
    case True
    have "i \<in> set rest" using mem ops True by (auto simp: is_op_def)
    then have p: "b < length (dfg_blocks ?f)" "dfg_blocks ?f ! b = [] \<or> (\<exists>v t. dfg_blocks ?f ! b = [v] \<and> nth_opt (dfg_values ?f) v = Some (ValParam t 0 b))"
      using params True by blast+
    obtain v g1 where v: "get_random_cond_value R D g = Some (v, g1)" using pick_ex [OF R cands, of g] by (auto simp: get_random_cond_value_def)
    define f1 where "f1 = set_inst i (set_condition v ?d) ?f"
    have f1: "dfg_blocks f1 = dfg_blocks ?f" "dfg_values f1 = dfg_values ?f" "stack_slots f1 = stack_slots ?f" by (simp_all add: f1_def set_inst_def)
    show ?thesis
    proof (cases "dfg_blocks f1 ! b")
      case Nil
      then show ?thesis using goto bound True v p(1) f1 by (simp add: branch_condition_def f1_def Let_def)
    next
      case (Cons w ws)
      then obtain t where "ws = []" "nth_opt (dfg_values f1) w = Some (ValParam t 0 b)" using p(2) f1 by auto
      then show ?thesis using goto bound True v p(1) Cons remove_only_param [of f1 w t b] f1
        by (simp add: branch_condition_def f1_def Let_def)
    qed
  qed
qed

lemma goto_first_insertion_point_eq:
  assumes "frame_ok (cur_func c)" and "b \<in> set (blocks_of (cur_func c))" and "goto_first_insertion_point b c = Some c'"
  shows "ins_at c' b [] (lo_insts (cur_layout c) b) \<and> cur_func c' = cur_func c"
  using assms by (cases "lo_insts (cur_layout c) b")
    (auto simp: goto_first_insertion_point_def first_inst_def goto_inst_def goto_bottom_def ins_at_def split: if_splits option.splits)

lemma nop_filling:
  assumes fill: "filling B dm b rest f body c tvs" and f: "frame_ok f" "lo_insts (fn_layout f) b = body @ rest" "b \<in> set (blocks_of f)"
    and run: "(if last_inst (cur_layout c) b = None then ins_plain ''nop'' INVALID [] [] c else Some c) = Some c'"
  shows "filling B dm b rest f body c' tvs \<and> lo_insts (cur_layout c') b \<noteq> []"
proof (cases "last_inst (cur_layout c) b = None")
  case False
  then show ?thesis using run fill by (auto simp: last_inst_def split: if_splits)
next
  case True
  obtain body1 where at: "ins_at c b body1 rest" using fill by (auto simp: filling_def)
  have op: "op_yields ''nop'' INVALID [] None" using fixed_yields(2) by simp
  then obtain rs where rs: "op_types ''nop'' INVALID [] = Some rs" by (auto simp: op_yields_def split: option.splits)
  have no: "types_of (cur_func c) [] []" by (simp add: types_of_def)
  obtain S where "emits no_env c c' S" using emits_plain [OF emits_none _ no _ op, of "[]" c' no_env] run True by auto
  from filling_emits [OF fill f this] have "filling B dm b rest f body c' tvs" by (auto simp: filling_def)
  moreover obtain vs where "ins_op ''nop'' INVALID [] [] c = Some (vs, c')" using run True by (auto simp: ins_plain_def)
  from ins_op_put(1) [OF this no rs at] have "lo_insts (cur_layout c') b \<noteq> []" by (auto simp: put_inst_def Let_def)
  ultimately show ?thesis by blast
qed

text \<open>What is known before the conditional branch is completed: the new function \<open>f3\<close> with the
  instructions \<open>body\<close> added to \<open>b\<close>.\<close>

definition body_filled :: "dom_map \<Rightarrow> arch_config \<Rightarrow> block \<Rightarrow> block \<Rightarrow> (block \<Rightarrow> block \<Rightarrow> bool) \<Rightarrow> func \<Rightarrow> block_map \<Rightarrow> func \<Rightarrow> inst list \<Rightarrow>
    typed_value list \<Rightarrow> typed_value list \<Rightarrow> bool" where
  "body_filled doms cfg en b dm f defs f3 body tvs us \<longleftrightarrow> block_step en b dm (lo_insts (fn_layout f) b) f f3 body \<and>
     lo_insts (fn_layout f3) b \<noteq> [] \<and> recorded {en} f3 b body tvs \<and>
     (if b = en then params_wf f3 b \<and> types_of f3 (dfg_blocks f3 ! b) (sig_params (fn_sig f)) \<and>
        set (sig_params (fn_sig f)) \<union> to_cranelift_type ` set (cfg_operand_types cfg) \<subseteq> get_type ` set tvs
      else dfg_blocks f3 ! b = dfg_blocks f ! b \<and> offered (env_at doms defs b) us)"

lemma populate_keeps:
  assumes "foldM (populate_step R D cfg) snippet (c, (tvs, us), g) = Some (c', (tvs', us'), g')"
  shows "set tvs \<subseteq> set tvs'"
  using assms
proof (induction snippet arbitrary: c tvs us g)
  case (Cons n ns)
  then obtain c1 r1 g1 where s: "populate_step R D cfg n (c, (tvs, us), g) = Some (c1, r1, g1)"
    "foldM (populate_step R D cfg) ns (c1, r1, g1) = Some (c', (tvs', us'), g')"
    by (auto elim!: bindE)
  obtain tvs1 us1 where r1: "r1 = (tvs1, us1)" by force
  have "set tvs \<subseteq> set tvs1" using s(1) by (auto simp: r1 populate_step_def record_result_def split: option.splits elim!: bindE)
  then show ?case using Cons.IH s(2) unfolding r1 by blast
qed simp

lemma gen_and_print_range_rng: "gen_and_print_range R a b i e = Some (n, e') \<Longrightarrow> global_rng e' = global_rng e"
  by (auto simp: gen_and_print_range_def split: option.splits if_splits elim!: bindE)

lemma params_wf_grows: "params_wf f b \<Longrightarrow> grows B f f' \<Longrightarrow> dfg_blocks f' ! b = dfg_blocks f ! b \<Longrightarrow> params_wf f' b"
  unfolding params_wf_def using grows_nth_value [of B f f'] by (fastforce simp: grows_def)

lemma fill_block_body:
  assumes R: "rand_ok R" and cfg: "legal_config cfg" and fr: "frame_ok (cur_func c)" and rec: "recorded_all {en} (cur_func c) defs"
    and doms: "doms_ok doms dm (cur_func c)" and b: "b \<in> set (blocks_of (cur_func c))" "map_of defs b = None" "n = 0 \<longleftrightarrow> b = en"
    and blk: "b < length (dfg_blocks (cur_func c))" "b = en \<Longrightarrow> dfg_blocks (cur_func c) ! b = []"
    and nores: "\<forall>i \<in> set (lo_insts (cur_layout c) b). dfg_results (cur_func c) ! i = []"
    and run: "fill_body R cfg (fn_sig (cur_func c)) doms (n, b) (c, defs, refs, g) = Some (c3, defs', refs', g3)"
  obtains body tvs us where "body_filled doms cfg en b dm (cur_func c) defs (cur_func c3) body tvs us"
    and "refs' = AList.update b us refs" and "map_of defs' = (map_of defs)(b \<mapsto> tvs)" and "global_rng g3 = global_rng g"
proof -
  let ?f = "cur_func c" let ?rest = "lo_insts (cur_layout c) b" let ?sg = "fn_sig ?f"
  obtain c0 c1 tvs1 defs1 g1 k g2 snippet c2 tvs us where s: "goto_first_insertion_point b c = Some c0"
    "(if n = 0 then do { (cur, dv, g) \<leftarrow> entry_setup R cfg ?sg b c0 g; Some (cur, dv, AList.update b dv defs, g) }
      else Some (c0, [], defs, g)) = Some (c1, tvs1, defs1, g1)"
    "gen_and_print_range R 0 5 False g1 = Some (k, g2)" "nth_opt get_instr_snippet k = Some snippet"
    "foldM (populate_step R (env_at doms defs1 b) cfg) snippet (c1, (tvs1, []), g2) = Some (c2, (tvs, us), g3)"
    "(if last_inst (cur_layout c2) b = None then ins_plain ''nop'' INVALID [] [] c2 else Some c2) = Some c3"
    "defs' = AList.update b tvs defs1" "refs' = AList.update b us refs"
    using run unfolding fill_body_def by (auto simp: Let_def elim!: bindE)
  have c0: "ins_at c0 b [] ?rest" "cur_func c0 = ?f" using goto_first_insertion_point_eq [OF fr b(1) s(1)] by auto
  have "\<exists>f1. same_code b ?f f1 \<and> grows {en} ?f f1 \<and> filling {en} dm b ?rest f1 [] c1 tvs1 \<and> global_rng g1 = global_rng g \<and>
     map_of defs1 = (if b = en then (map_of defs)(b \<mapsto> tvs1) else map_of defs) \<and>
     (if b = en then params_wf f1 b \<and> types_of f1 (dfg_blocks f1 ! b) (sig_params ?sg) \<and>
        set (sig_params ?sg) \<union> to_cranelift_type ` set (cfg_operand_types cfg) \<subseteq> get_type ` set tvs1
      else dfg_blocks f1 ! b = dfg_blocks ?f ! b \<and> defs1 = defs)"
  proof (cases "n = 0")
    case True
    then have e: "entry_setup R cfg ?sg b c0 g = Some (c1, tvs1, g1)" "defs1 = AList.update b tvs1 defs" using s(2) by (auto elim!: bindE)
    show ?thesis using entry_setup_filling [OF R e(1) c0(1), of "{en}" dm] blk b(3) True e(2) c0(2) by (auto simp: update_conv')
  next
    case False
    then have "c1 = c0" "tvs1 = []" "defs1 = defs" "g1 = g" using s(2) by auto
    then show ?thesis using filling_start [OF c0(1), of "{en}" "[]" dm] False b(3) c0(2)
      by (intro exI [of _ ?f]) (auto simp: recorded_def)
  qed
  then obtain f1 where f1: "same_code b ?f f1" "grows {en} ?f f1" "filling {en} dm b ?rest f1 [] c1 tvs1" "global_rng g1 = global_rng g"
    "map_of defs1 = (if b = en then (map_of defs)(b \<mapsto> tvs1) else map_of defs)"
    "if b = en then params_wf f1 b \<and> types_of f1 (dfg_blocks f1 ! b) (sig_params ?sg) \<and>
        set (sig_params ?sg) \<union> to_cranelift_type ` set (cfg_operand_types cfg) \<subseteq> get_type ` set tvs1
      else dfg_blocks f1 ! b = dfg_blocks ?f ! b \<and> defs1 = defs" by blast
  obtain body1 where b1: "fills {en} dm b ?rest f1 [] (cur_func c1) body1" "ins_at c1 b body1 ?rest" "recorded {en} (cur_func c1) b body1 tvs1"
    using f1(3) by (auto simp: filling_def)
  let ?f2 = "cur_func c1"
  have bs: "block_step en b dm ?rest ?f ?f2 body1" using block_step_fills(1) [OF f1(1,2) b1(1) fr _ b(1)] by simp
  then have st: "frame_ok ?f2" "lo_insts (fn_layout ?f2) b = body1 @ ?rest" "b \<in> set (blocks_of ?f2)" "grows {en} ?f ?f2" "blocks_of ?f2 = blocks_of ?f"
    using b(1) by (auto simp: block_step_def)
  have rec1: "recorded_all {en} ?f2 defs1" unfolding recorded_all_def
  proof (intro allI impI)
    fix c tvs assume m: "map_of defs1 c = Some tvs"
    show "recorded {en} ?f2 c (lo_insts (fn_layout ?f2) c) tvs"
    proof (cases "c = b \<and> b = en")
      case True
      then have "tvs = tvs1" using m f1(5) by simp
      then show ?thesis using recorded_mono [OF b1(3) grows_refl] st(2) True by simp
    next
      case False
      then have "map_of defs c = Some tvs" using m f1(5) b(2) by (auto split: if_splits)
      then have "recorded {en} ?f c (lo_insts (fn_layout ?f) c) tvs" using rec by (simp add: recorded_all_def)
      then show ?thesis using st(4) by (auto elim!: recorded_mono simp: grows_def)
    qed
  qed
  have doms1: "doms_ok doms dm ?f2" using doms st(5) by (simp add: doms_ok_def)
  let ?D = "env_at doms defs1 b"
  have own: "recorded {en} ?f2 b body1 tvs" if "map_of defs1 b = Some tvs" for tvs
    using that f1(5) b(2) b1(3) by (auto split: if_splits)
  then have cand: "\<forall>v \<in> candidates ?D. avail {en} dm ?f2 b body1 v" by (rule env_avail [OF doms1 st(3) rec1])
  note pop = populate_fold [OF R cfg env_at_ok [OF rec1] cand st(1-3) filling_start [OF b1(2,3)] _ s(5)]
  have off: "offered ?D []" by simp
  have fill2: "filling {en} dm b ?rest ?f2 body1 c2 tvs" "offered ?D us" "global_rng g3 = global_rng g2" using pop [OF off] by auto
  have fill3: "filling {en} dm b ?rest ?f2 body1 c3 tvs" "lo_insts (cur_layout c3) b \<noteq> []" using nop_filling [OF fill2(1) st(1-3) s(6)] by auto
  then obtain body where b3: "fills {en} dm b ?rest ?f2 body1 (cur_func c3) body" "recorded {en} (cur_func c3) b body tvs"
    by (auto simp: filling_def)
  note b4 = fills_trans [OF b3(1) b1(1)]
  note st3 = block_step_fills [OF f1(1,2) b4 fr _ b(1), simplified]
  have g23: "grows {en} f1 (cur_func c3)"
  proof -
    have "frame_ok f1 \<and> lo_insts (fn_layout f1) b = [] @ ?rest \<and> b \<in> set (blocks_of f1)" using f1(1) fr b(1) by (auto simp: same_code_def frame_ok_def)
    then show ?thesis using fills_frame [OF b4] by blast
  qed
  have "params_wf (cur_func c3) b \<and> types_of (cur_func c3) (dfg_blocks (cur_func c3) ! b) (sig_params ?sg)" if "b = en"
    using f1(6) that st3(2) params_wf_grows [OF _ g23] grows_types_of [OF g23] by simp
  moreover have "set (sig_params ?sg) \<union> to_cranelift_type ` set (cfg_operand_types cfg) \<subseteq> get_type ` set tvs" if "b = en"
    by (rule subset_trans [of _ "get_type ` set tvs1"]) (use f1(6) that populate_keeps [OF s(5)] in \<open>auto simp only: if_True refl image_mono\<close>)
  ultimately have filled: "body_filled doms cfg en b dm ?f defs (cur_func c3) body tvs us"
    using st3 fill3(2) b3(2) f1(6) fill2(2) unfolding body_filled_def by (cases "b = en") simp_all
  have "map_of defs' = (map_of defs)(b \<mapsto> tvs)" using s(7) f1(5) by (auto simp: update_conv')
  moreover have "global_rng g3 = global_rng g" using fill2(3) f1(4) gen_and_print_range_rng [OF s(3)] by simp
  ultimately show thesis using that [OF filled s(8)] by simp
qed

end
