(* ===== verification/Fill_Loop.thy ===== *)
theory Fill_Loop
  imports Fill_Sound
begin

text \<open>
  The first loop of the function generator as a whole: one iteration extends the invariant \<open>filled\<close> by
  its block, and the loop over the blocks in depth-first order fills every block.
\<close>

subsection \<open>One step of the loop\<close>

lemma wf_disjoint: "wf_layout l \<Longrightarrow> i \<in> set (lo_insts l b) \<Longrightarrow> i \<in> set (lo_insts l c) \<Longrightarrow> b = c"
  by (auto simp: wf_layout_def)

lemma cond_step_grows:
  assumes "cond_step b rest f f'" and "b = en \<Longrightarrow> f' = f"
  shows "grows {en} f f'"
proof (cases "b = en")
  case True
  then show ?thesis using assms(2) by simp
next
  case False
  then show ?thesis using assms(1) unfolding cond_step_def grows_def by simp
qed

lemma cond_ok_mono: "cond_ok B dm f b body d \<Longrightarrow> grows B f f' \<Longrightarrow> cond_ok B dm f' b body d"
  unfolding cond_ok_def by (blast intro: grows_value_type grows_avail)

text \<open>The effect of one iteration, before and after the condition of the branch.\<close>

definition iteration :: "block \<Rightarrow> block \<Rightarrow> (block \<Rightarrow> block \<Rightarrow> bool) \<Rightarrow> func \<Rightarrow> func \<Rightarrow> inst list \<Rightarrow> bool" where
  "iteration en b dm f f' body \<longleftrightarrow> grows {en} f f' \<and> frame_ok f' \<and> blocks_of f' = blocks_of f \<and>
     jump_tables f' = jump_tables f \<and> fn_sig f' = fn_sig f \<and> fn_name f' = fn_name f \<and> ext_funcs f' = ext_funcs f \<and> signatures f' = signatures f \<and>
     length (dfg_insts f) \<le> length (dfg_insts f') \<and> length (dfg_blocks f') = length (dfg_blocks f) \<and>
     (\<forall>i. i < length (dfg_insts f) \<longrightarrow> i \<notin> set (lo_insts (fn_layout f) b) \<longrightarrow> dfg_insts f' ! i = dfg_insts f ! i) \<and>
     (\<forall>i \<in> set (lo_insts (fn_layout f) b). \<exists>v. dfg_insts f' ! i = set_condition v (dfg_insts f ! i)) \<and>
     (\<forall>c. c \<noteq> b \<longrightarrow> lo_insts (fn_layout f') c = lo_insts (fn_layout f) c \<and> dfg_blocks f' ! c = dfg_blocks f ! c) \<and>
     lo_insts (fn_layout f') b = body @ lo_insts (fn_layout f) b \<and> body_ok {en} dm f' b body"

lemma iteration_steps:
  assumes bs: "block_step en b dm (lo_insts (fn_layout f) b) f f3 body" and cs: "cond_step b (lo_insts (fn_layout f) b) f3 f'"
    and en: "b = en \<Longrightarrow> f' = f3" and f: "frame_ok f"
  shows "iteration en b dm f f' body"
proof -
  let ?rest = "lo_insts (fn_layout f) b"
  note gr = cond_step_grows [OF cs en]
  have wf: "wf_layout (fn_layout f3)" and lay: "lo_insts (fn_layout f3) b = body @ ?rest" and bo: "body_ok {en} dm f3 b body"
    using bs unfolding block_step_def frame_ok_def by simp_all
  have disj: "i \<notin> set ?rest" if "i \<in> set body" for i using wf_distinct [OF wf lay] that by auto
  have "body_ok {en} dm f' b body" using disj cs by (intro body_ok_mono [OF bo gr]) (auto simp: cond_step_def nth_opt_def)
  moreover have "grows {en} f f'" using bs gr grows_trans unfolding block_step_def by blast
  moreover have "frame_ok f'" using bs cs by (simp add: block_step_def cond_step_def frame_ok_def)
  moreover obtain ds where ds: "dfg_insts f3 = dfg_insts f @ ds" using bs unfolding block_step_def by blast
  moreover have "dfg_insts f' ! i = dfg_insts f ! i" if "i < length (dfg_insts f)" "i \<notin> set ?rest" for i
    using that cs ds unfolding cond_step_def by (simp add: nth_append)
  moreover have "\<exists>v. dfg_insts f' ! i = set_condition v (dfg_insts f ! i)" if "i \<in> set ?rest" for i
  proof -
    have "i < length (dfg_insts f)" using that frame_bound [OF f, of b] by blast
    then have "dfg_insts f3 ! i = dfg_insts f ! i" using ds by (simp add: nth_append)
    moreover have "\<exists>v. dfg_insts f' ! i = set_condition v (dfg_insts f3 ! i)" using that cs unfolding cond_step_def by blast
    ultimately show ?thesis by simp
  qed
  ultimately show ?thesis using bs cs unfolding iteration_def block_step_def cond_step_def by simp
qed

lemma iteration_filled:
  assumes inv: "filled f0 en dm T P f defs" and it: "iteration en b dm f f' body" and b: "b \<in> set (blocks_of f0)" "b \<notin> P"
    and ne: "lo_insts (fn_layout f') b \<noteq> []" and rec: "recorded {en} f' b body tvs" and defs: "map_of defs' = (map_of defs)(b \<mapsto> tvs)"
    and params: "b \<noteq> en \<Longrightarrow> dfg_blocks f' ! b = []"
    and entry: "b = en \<Longrightarrow> params_wf f' en \<and> types_of f' (dfg_blocks f' ! en) (sig_params (fn_sig f0)) \<and> T \<subseteq> get_type ` set tvs"
    and cond: "\<forall>i \<in> set (branch_of f0 b). cond_ok {en} dm f' b body (dfg_insts f' ! i)"
  shows "filled f0 en dm T (insert b P) f' defs'"
proof -
  have wf: "frame_ok f" "wf_layout (fn_layout f)" and gr: "grows {en} f f'" using inv it by (auto simp: filled_def frame_ok_def iteration_def)
  have rest: "lo_insts (fn_layout f) b = branch_of f0 b"
  proof -
    have "block_filled f0 en dm P f b" using inv unfolding filled_def by blast
    then show ?thesis using b(2) unfolding block_filled_def by auto
  qed
  have other: "dfg_insts f' ! i = dfg_insts f ! i \<and> i < length (dfg_insts f) \<and> i < length (dfg_insts f')"
    if i: "i \<in> set (lo_insts (fn_layout f) c)" "c \<noteq> b" for i c
  proof -
    have "i \<notin> set (lo_insts (fn_layout f) b)" using wf_disjoint [OF wf(2) i(1)] i(2) by blast
    moreover have "i < length (dfg_insts f)" using frame_bound [OF wf(1), of c] i(1) by blast
    ultimately show ?thesis using it unfolding iteration_def by simp
  qed
  have "block_filled f0 en dm (insert b P) f' c" for c
  proof (cases "c = b")
    case True
    have "lo_insts (fn_layout f') b = body @ branch_of f0 b" "body_ok {en} dm f' b body" using it rest unfolding iteration_def by simp_all
    then show ?thesis using True ne params cond unfolding block_filled_def by (intro exI [of _ body]) simp
  next
    case False
    obtain body1 where b1: "lo_insts (fn_layout f) c = body1 @ branch_of f0 c" "body_ok {en} dm f c body1"
      "if c \<in> P then lo_insts (fn_layout f) c \<noteq> [] \<and> (c \<noteq> en \<longrightarrow> dfg_blocks f ! c = []) \<and>
        (\<forall>i \<in> set (branch_of f0 c). cond_ok {en} dm f c body1 (dfg_insts f ! i))
      else body1 = [] \<and> dfg_blocks f ! c = dfg_blocks f0 ! c"
      using inv unfolding filled_def block_filled_def by blast
    have "body_ok {en} dm f' c body1" using other [OF _ False] b1(1) by (intro body_ok_mono [OF b1(2) gr]) (auto simp: nth_opt_def)
    moreover have "cond_ok {en} dm f' c body1 (dfg_insts f' ! i)"
      if "i \<in> set (branch_of f0 c)" "cond_ok {en} dm f c body1 (dfg_insts f ! i)" for i
      using cond_ok_mono [OF that(2) gr] other [of i c] that(1) b1(1) False by simp
    moreover have "lo_insts (fn_layout f') c = lo_insts (fn_layout f) c" "dfg_blocks f' ! c = dfg_blocks f ! c"
      using it False unfolding iteration_def by blast+
    ultimately show ?thesis using b1 False unfolding block_filled_def by (intro exI [of _ body1]) (cases "c \<in> P"; simp)
  qed
  moreover have "branch_kept f0 f' i" if i: "i \<in> set (branch_of f0 c)" for i c
  proof -
    have k: "branch_kept f0 f i" using inv i unfolding filled_def by blast
    then have "dfg_results f' ! i = []" "i < length (dfg_insts f')"
      using gr wf(1) it unfolding branch_kept_def grows_def iteration_def frame_ok_def by auto
    moreover have "\<exists>v. dfg_insts f' ! i = set_condition v (dfg_insts f ! i)"
    proof (cases "i \<in> set (lo_insts (fn_layout f) b)")
      case True
      then show ?thesis using it unfolding iteration_def by blast
    next
      case False
      then have "dfg_insts f' ! i = dfg_insts f ! i" using it k unfolding iteration_def branch_kept_def by blast
      then show ?thesis using set_condition_self by metis
    qed
    ultimately show ?thesis using k unfolding branch_kept_def by auto
  qed
  moreover have "recorded_all {en} f' defs'" unfolding recorded_all_def
  proof (intro allI impI)
    fix c tvs' assume m: "map_of defs' c = Some tvs'"
    show "recorded {en} f' c (lo_insts (fn_layout f') c) tvs'"
    proof (cases "c = b")
      case True
      then show ?thesis using m defs it recorded_mono [OF rec grows_refl] by (auto simp: iteration_def)
    next
      case False
      then have "recorded {en} f c (lo_insts (fn_layout f) c) tvs'" using m defs inv by (simp add: filled_def recorded_all_def)
      then show ?thesis using recorded_mono [OF _ gr] it False by (simp add: iteration_def)
    qed
  qed
  moreover have "\<exists>vs. dfg_values f' = dfg_values f0 @ vs" using inv gr unfolding filled_def grows_def by auto
  moreover have "params_wf f' en \<and> types_of f' (dfg_blocks f' ! en) (sig_params (fn_sig f0)) \<and>
     (\<forall>tvs. map_of defs' en = Some tvs \<longrightarrow> T \<subseteq> get_type ` set tvs)" if "en \<in> insert b P"
  proof (cases "b = en")
    case True
    then show ?thesis using entry defs by simp
  next
    case False
    then have "params_wf f en" "types_of f (dfg_blocks f ! en) (sig_params (fn_sig f0))" "dfg_blocks f' ! en = dfg_blocks f ! en"
      "\<forall>tvs. map_of defs en = Some tvs \<longrightarrow> T \<subseteq> get_type ` set tvs"
      using that inv it unfolding filled_def iteration_def by auto
    then show ?thesis using params_wf_grows [OF _ gr] grows_types_of [OF gr] False defs by auto
  qed
  moreover have "map_of defs' c \<noteq> None \<longleftrightarrow> c \<in> insert b P" for c
    using inv defs unfolding filled_def by simp
  ultimately show ?thesis using inv it unfolding filled_def iteration_def by (intro conjI allI ballI) simp_all
qed

text \<open>The branch of a block before the loop.\<close>

lemma branch_of_term:
  assumes "skel_ok f0" and "i \<in> set (branch_of f0 b)"
  shows "branch_of f0 b = [i]" and "term_of f0 b = Some (dfg_insts f0 ! i)" and "i < length (dfg_insts f0)" and "dfg_results f0 ! i = []"
proof -
  have len: "length (branch_of f0 b) \<le> 1" and i: "i < length (dfg_insts f0)" and res: "length (dfg_results f0) = length (dfg_insts f0)" "set (dfg_results f0) \<subseteq> {[]}"
    using assms unfolding skel_ok_def by blast+
  then show "branch_of f0 b = [i]" "i < length (dfg_insts f0)" using assms(2) by (cases "branch_of f0 b"; auto)+
  then show "term_of f0 b = Some (dfg_insts f0 ! i)" by (simp add: term_of_def last_inst_def)
  show "dfg_results f0 ! i = []" using i res nth_mem [of i "dfg_results f0"] by (metis singletonD subsetD)
qed

lemma cf_inv_branch:
  assumes inv: "cf_inv f0 en ex" and b: "b \<in> set (blocks_of f0)"
  shows "b = en \<Longrightarrow> i \<in> set (branch_of f0 b) \<Longrightarrow> \<not> is_conditional (dfg_insts f0 ! i)"
    and "(\<And>i. i \<in> set (branch_of f0 b) \<Longrightarrow> \<not> is_conditional (dfg_insts f0 ! i)) \<Longrightarrow> dfg_blocks f0 ! b = []"
    and "dfg_blocks f0 ! b = [] \<or> (\<exists>v t. dfg_blocks f0 ! b = [v] \<and> nth_opt (dfg_values f0) v = Some (ValParam t 0 b))"
    and "b < length (dfg_blocks f0)"
proof -
  have sk: "skel_ok f0" using inv by (simp add: cf_inv_def)
  show "b < length (dfg_blocks f0)" using sk b unfolding skel_ok_def by blast
  have po: "params_ok f0 b" using inv b unfolding cf_inv_def by blast
  then show "dfg_blocks f0 ! b = [] \<or> (\<exists>v t. dfg_blocks f0 ! b = [v] \<and> nth_opt (dfg_values f0) v = Some (ValParam t 0 b))"
    unfolding params_ok_def by auto
  show "\<not> is_conditional (dfg_insts f0 ! i)" if "b = en" "i \<in> set (branch_of f0 b)"
    using inv branch_of_term(2) [OF sk that(2)] that(1) unfolding cf_inv_def by (cases "dfg_insts f0 ! i") auto
  show "dfg_blocks f0 ! b = []" if no: "\<And>i. i \<in> set (branch_of f0 b) \<Longrightarrow> \<not> is_conditional (dfg_insts f0 ! i)"
  proof (rule ccontr)
    assume "dfg_blocks f0 ! b \<noteq> []"
    then obtain d where d: "term_of f0 b = Some d" "inst_opcode d \<noteq> ''jump''" using po unfolding params_ok_def by blast
    then obtain i where i: "i \<in> set (branch_of f0 b)" by (cases "branch_of f0 b") (auto simp: term_of_def last_inst_def)
    have "branch_ok f0 b" using inv d(1) unfolding cf_inv_def by blast
    then have "term_ok (jump_tables f0) d" using d(1) unfolding branch_ok_def by auto
    moreover have "d = dfg_insts f0 ! i" using branch_of_term(2) [OF sk i] d(1) by simp
    then have "\<not> is_conditional d" using no [OF i] by simp
    ultimately show False using d(2) by (cases d) auto
  qed
qed

text \<open>The types used in a block other than the entry have a value in a strict dominator.\<close>

definition refs_ok :: "block \<Rightarrow> (block \<Rightarrow> block \<Rightarrow> bool) \<Rightarrow> block set \<Rightarrow> block_map \<Rightarrow> block_map \<Rightarrow> bool" where
  "refs_ok en dm P defs refs \<longleftrightarrow> (\<forall>b. map_of refs b \<noteq> None \<longleftrightarrow> b \<in> P) \<and>
     (\<forall>b us t. map_of refs b = Some us \<longrightarrow> b \<noteq> en \<longrightarrow> t \<in> get_type ` set us \<longrightarrow>
        (\<exists>c v tvs. c \<noteq> b \<and> dm c b \<and> map_of defs c = Some tvs \<and> TypedValue v t \<in> set tvs))"

lemma refs_ok_insert:
  assumes inv: "refs_ok en dm P defs refs" and b: "b \<notin> P" and defs': "map_of defs' = (map_of defs)(b \<mapsto> tvs)"
    and refs': "refs' = AList.update b us refs" and P: "\<And>d. map_of defs d \<noteq> None \<longleftrightarrow> d \<in> P"
    and us: "b \<noteq> en \<Longrightarrow> offered (env_at doms defs b) us" and doms: "set (dom_list doms b) = {c \<in> B. dm c b}"
  shows "refs_ok en dm (insert b P) defs' refs'"
proof -
  have "\<exists>c v tvs. c \<noteq> d \<and> dm c d \<and> map_of defs' c = Some tvs \<and> TypedValue v t \<in> set tvs"
    if m: "map_of refs' d = Some us'" "d \<noteq> en" "t \<in> get_type ` set us'" for d us' t
  proof -
    have "\<exists>c v tvs. c \<noteq> d \<and> dm c d \<and> map_of defs c = Some tvs \<and> TypedValue v t \<in> set tvs"
    proof (cases "d = b")
      case True
      then have "get_dominator_values_with_type (env_at doms defs b) t \<noteq> []"
        using us m refs' by (auto simp: update_conv' list_all_iff)
      then obtain v where "v \<in> set (get_dominator_values_with_type (env_at doms defs b) t)" by (meson list.set_sel(1))
      then obtain c ws where c: "c \<in> set (dom_list doms b)" "map_of defs c = Some ws" "TypedValue v t \<in> set ws"
        by (auto simp: env_candidate)
      have "c \<noteq> b" using P c(2) b by auto
      then show ?thesis using c doms True by blast
    next
      case False
      then have "map_of refs d = Some us'" using m(1) refs' by (simp add: update_conv')
      then show ?thesis using inv m(2,3) unfolding refs_ok_def by blast
    qed
    then obtain c v ws where c: "c \<noteq> d" "dm c d" "map_of defs c = Some ws" "TypedValue v t \<in> set ws" by blast
    moreover have "c \<noteq> b" using P c(3) b by auto
    ultimately show ?thesis using defs' by auto
  qed
  moreover have "map_of refs' d \<noteq> None \<longleftrightarrow> d \<in> insert b P" for d
    using inv refs' unfolding refs_ok_def by (simp add: update_conv')
  ultimately show ?thesis unfolding refs_ok_def by blast
qed

text \<open>After the body of a block: what the condition of the branch is chosen on.\<close>

lemma fill_body_ready:
  assumes R: "rand_ok R" and cfg: "legal_config cfg" and cf: "cf_inv f0 en ex" and doms: "doms_ok doms dm f0"
    and inv: "filled f0 en dm T P (cur_func c) defs" and b: "b \<in> set (blocks_of f0)" "b \<notin> P" "n = 0 \<longleftrightarrow> b = en"
    and run: "fill_body R cfg (fn_sig f0) doms (n, b) (c, defs, refs, g) = Some (c3, defs', refs', g3)"
  obtains body tvs us where "body_filled doms cfg en b dm (cur_func c) defs (cur_func c3) body tvs us"
    and "lo_insts (fn_layout (cur_func c)) b = branch_of f0 b" and "b \<noteq> en \<Longrightarrow> dfg_blocks (cur_func c3) ! b = dfg_blocks f0 ! b"
    and "refs' = AList.update b us refs" and "map_of defs' = (map_of defs)(b \<mapsto> tvs)" and "global_rng g3 = global_rng g"
    and "\<And>i. i \<in> set (branch_of f0 b) \<Longrightarrow> is_conditional (dfg_insts (cur_func c3) ! i) = is_conditional (dfg_insts f0 ! i)"
    and "frame_ok (cur_func c3)" and "lo_insts (cur_layout c3) b = body @ branch_of f0 b" and "body @ branch_of f0 b \<noteq> []"
    and "length (branch_of f0 b) \<le> 1" and "\<forall>i \<in> set body. is_op (cur_func c3) i"
    and "\<forall>i \<in> set (branch_of f0 b). is_conditional (dfg_insts (cur_func c3) ! i) \<longrightarrow> b < length (dfg_blocks (cur_func c3)) \<and>
      (dfg_blocks (cur_func c3) ! b = [] \<or>
       (\<exists>v t. dfg_blocks (cur_func c3) ! b = [v] \<and> nth_opt (dfg_values (cur_func c3)) v = Some (ValParam t 0 b)))"
    and "env_ok (env_at doms defs' b) (cur_func c3)" and "\<forall>v \<in> candidates (env_at doms defs' b). avail {en} dm (cur_func c3) b body v"
proof -
  let ?f = "cur_func c" let ?rest = "branch_of f0 b"
  have sk: "skel_ok f0" using cf by (simp add: cf_inv_def)
  have f: "frame_ok ?f" "blocks_of ?f = blocks_of f0" "fn_sig ?f = fn_sig f0" "length (dfg_blocks ?f) = length (dfg_blocks f0)"
    "recorded_all {en} ?f defs" "map_of defs b = None" "\<And>c i. i \<in> set (branch_of f0 c) \<Longrightarrow> branch_kept f0 ?f i"
    using inv b(2) unfolding filled_def by (simp_all, blast)
  have "block_filled f0 en dm P ?f b" using inv unfolding filled_def by blast
  then have rest: "lo_insts (cur_layout c) b = ?rest" and blk: "dfg_blocks ?f ! b = dfg_blocks f0 ! b"
    using b(2) unfolding block_filled_def by auto
  note cfb = cf_inv_branch [OF cf b(1)]
  have dm1: "doms_ok doms dm ?f" using doms f(2) by (simp add: doms_ok_def)
  have en0: "dfg_blocks ?f ! b = []" if "b = en" using cfb(2) [OF cfb(1) [OF that]] blk by simp
  have nores: "\<forall>i \<in> set (lo_insts (cur_layout c) b). dfg_results ?f ! i = []" using f(7) rest by (auto simp: branch_kept_def)
  obtain body tvs us where s: "body_filled doms cfg en b dm ?f defs (cur_func c3) body tvs us"
    "refs' = AList.update b us refs" "map_of defs' = (map_of defs)(b \<mapsto> tvs)" "global_rng g3 = global_rng g"
    by (rule fill_block_body [OF R cfg f(1,5) dm1 _ f(6) b(3) _ en0 nores, of refs g c3 defs' refs' g3])
      (use run b(1) f(2-4) cfb(4) in auto)
  let ?f3 = "cur_func c3"
  have bs: "block_step en b dm ?rest ?f ?f3 body" and ne: "lo_insts (fn_layout ?f3) b \<noteq> []" and rec: "recorded {en} ?f3 b body tvs"
    using s(1) rest unfolding body_filled_def by simp_all
  have f3: "frame_ok ?f3" "blocks_of ?f3 = blocks_of f0" "lo_insts (cur_layout c3) b = body @ ?rest" "body_ok {en} dm ?f3 b body"
    "grows {en} ?f ?f3" "length (dfg_blocks ?f3) = length (dfg_blocks f0)"
    using bs f unfolding block_step_def by simp_all
  have kept: "is_conditional (dfg_insts ?f3 ! i) = is_conditional (dfg_insts f0 ! i)" if "i \<in> set ?rest" for i
  proof -
    have k: "i < length (dfg_insts ?f)" "\<exists>v. dfg_insts ?f ! i = set_condition v (dfg_insts f0 ! i)"
      using f(7) [OF that] by (auto simp: branch_kept_def)
    have "dfg_insts ?f3 ! i = dfg_insts ?f ! i" using bs k(1) unfolding block_step_def by (auto simp: nth_append)
    then show ?thesis using k(2) by auto
  qed
  have blk3: "dfg_blocks ?f3 ! b = dfg_blocks f0 ! b" if "b \<noteq> en" using s(1) that blk unfolding body_filled_def by simp
  have vals: "\<exists>vs. dfg_values ?f3 = dfg_values f0 @ vs" using inv f3(5) unfolding filled_def grows_def by auto
  have params: "\<forall>i \<in> set ?rest. is_conditional (dfg_insts ?f3 ! i) \<longrightarrow> b < length (dfg_blocks ?f3) \<and>
      (dfg_blocks ?f3 ! b = [] \<or> (\<exists>v t. dfg_blocks ?f3 ! b = [v] \<and> nth_opt (dfg_values ?f3) v = Some (ValParam t 0 b)))"
  proof (intro ballI impI)
    fix i assume i: "i \<in> set ?rest" "is_conditional (dfg_insts ?f3 ! i)"
    then have "b \<noteq> en" using cfb(1) kept by blast
    then show "b < length (dfg_blocks ?f3) \<and>
      (dfg_blocks ?f3 ! b = [] \<or> (\<exists>v t. dfg_blocks ?f3 ! b = [v] \<and> nth_opt (dfg_values ?f3) v = Some (ValParam t 0 b)))"
      using cfb(3,4) blk3 f3(6) vals by (auto simp: nth_append)
  qed
  have rec3: "recorded_all {en} ?f3 defs'" unfolding recorded_all_def
  proof (intro allI impI)
    fix d ws assume m: "map_of defs' d = Some ws"
    show "recorded {en} ?f3 d (lo_insts (fn_layout ?f3) d) ws"
    proof (cases "d = b")
      case True
      then show ?thesis using m s(3) f3(3) recorded_mono [OF rec grows_refl] by simp
    next
      case False
      then have "recorded {en} ?f d (lo_insts (fn_layout ?f) d) ws" using m s(3) f(5) by (simp add: recorded_all_def)
      then show ?thesis using recorded_mono [OF _ f3(5)] bs False by (simp add: block_step_def)
    qed
  qed
  have dm3: "doms_ok doms dm ?f3" using doms f3(2) by (simp add: doms_ok_def)
  have cand: "\<forall>v \<in> candidates (env_at doms defs' b). avail {en} dm ?f3 b body v"
    by (rule env_avail [OF dm3 _ rec3]) (use b(1) f3(2) s(3) rec in auto)
  have pre: "body @ ?rest \<noteq> []" "length ?rest \<le> 1" "\<forall>i \<in> set body. is_op ?f3 i"
    using ne f3(3) sk body_op [OF f3(4)] unfolding skel_ok_def by auto
  show thesis by (rule that [OF s(1) rest blk3 s(2-4) kept f3(1,3) pre params env_at_ok [OF rec3] cand])
qed

lemma fill_block_filled:
  assumes R: "rand_ok R" and cfg: "legal_config cfg" and cf: "cf_inv f0 en ex" and doms: "doms_ok doms dm f0"
    and T: "T = set (sig_params (fn_sig f0)) \<union> to_cranelift_type ` set (cfg_operand_types cfg)"
    and inv: "filled f0 en dm T P (cur_func c) defs" "refs_ok en dm P defs refs"
    and b: "b \<in> set (blocks_of f0)" "b \<notin> P" "n = 0 \<longleftrightarrow> b = en"
    and run: "fill_block R cfg (fn_sig f0) doms (n, b) (c, defs, refs, g) = Some (c', defs', refs', g')"
  shows "filled f0 en dm T (insert b P) (cur_func c') defs' \<and> refs_ok en dm (insert b P) defs' refs' \<and> global_rng g' = global_rng g"
proof -
  let ?f = "cur_func c" let ?rest = "branch_of f0 b"
  have f: "frame_ok ?f" "fn_sig ?f = fn_sig f0" using inv(1) by (simp_all add: filled_def)
  obtain c3 g3 where r: "fill_body R cfg (fn_sig f0) doms (n, b) (c, defs, refs, g) = Some (c3, defs', refs', g3)"
    "branch_condition R (env_at doms defs' b) b c3 g3 = Some (c', g')" using run by (auto simp: fill_block_def elim!: bindE)
  obtain body tvs us where s: "body_filled doms cfg en b dm ?f defs (cur_func c3) body tvs us"
    and rest: "lo_insts (cur_layout c) b = ?rest" and blk3: "b \<noteq> en \<Longrightarrow> dfg_blocks (cur_func c3) ! b = dfg_blocks f0 ! b"
    and refs': "refs' = AList.update b us refs" and defs': "map_of defs' = (map_of defs)(b \<mapsto> tvs)" and g3: "global_rng g3 = global_rng g"
    and kept: "\<And>i. i \<in> set ?rest \<Longrightarrow> is_conditional (dfg_insts (cur_func c3) ! i) = is_conditional (dfg_insts f0 ! i)"
    and bc: "cond_step b ?rest (cur_func c3) (cur_func c')"
      "(\<exists>i \<in> set ?rest. is_conditional (dfg_insts (cur_func c3) ! i)) \<Longrightarrow> dfg_blocks (cur_func c') ! b = []"
      "(\<forall>i \<in> set ?rest. \<not> is_conditional (dfg_insts (cur_func c3) ! i)) \<Longrightarrow> cur_func c' = cur_func c3"
      "\<forall>i \<in> set ?rest. \<forall>v. is_conditional (dfg_insts (cur_func c3) ! i) \<longrightarrow> v \<in> set (arguments (dfg_insts (cur_func c') ! i)) \<longrightarrow>
        value_type (cur_func c3) v = Some I32 \<and> avail {en} dm (cur_func c3) b body v" "global_rng g' = global_rng g3"
    by (rule fill_body_ready [OF R cfg cf doms inv(1) b r(1)]) (rule that; (assumption | rule branch_condition_step [OF R r(2)]; assumption))
  note cfb = cf_inv_branch [OF cf b(1)]
  let ?f3 = "cur_func c3"
  have bs: "block_step en b dm ?rest ?f ?f3 body" and ne: "lo_insts (fn_layout ?f3) b \<noteq> []" and rec: "recorded {en} ?f3 b body tvs"
    using s rest unfolding body_filled_def by simp_all
  have same: "cur_func c' = ?f3" if "b = en" using bc(3) cfb(1) [OF that] kept by blast
  have it: "iteration en b dm ?f (cur_func c') body"
    by (rule iteration_steps [OF _ _ same f(1)]) (use bs bc(1) rest in auto)
  have gr: "grows {en} ?f3 (cur_func c')" by (rule cond_step_grows [OF bc(1) same])
  have "filled f0 en dm T (insert b P) (cur_func c') defs'"
  proof (rule iteration_filled [OF inv(1) it b(1,2) _ _ defs'])
    show "lo_insts (fn_layout (cur_func c')) b \<noteq> []" using bc(1) ne by (simp add: cond_step_def)
    show "recorded {en} (cur_func c') b body tvs" using recorded_mono [OF rec gr] by simp
    show "dfg_blocks (cur_func c') ! b = []" if "b \<noteq> en"
      using bc(2,3) cfb(2) kept blk3 [OF that] by metis
    show "params_wf (cur_func c') en \<and> types_of (cur_func c') (dfg_blocks (cur_func c') ! en) (sig_params (fn_sig f0)) \<and>
      T \<subseteq> get_type ` set tvs" if "b = en"
      using s same [OF that] that f(2) T unfolding body_filled_def by simp
    show "\<forall>i \<in> set ?rest. cond_ok {en} dm (cur_func c') b body (dfg_insts (cur_func c') ! i)"
    proof
      fix i assume i: "i \<in> set ?rest"
      obtain v where "dfg_insts (cur_func c') ! i = set_condition v (dfg_insts ?f3 ! i)" using bc(1) i unfolding cond_step_def by blast
      then show "cond_ok {en} dm (cur_func c') b body (dfg_insts (cur_func c') ! i)"
        using bc(4) i grows_value_type [OF gr] grows_avail [OF gr _ subset_refl] unfolding cond_ok_def by simp
    qed
  qed
  moreover have "refs_ok en dm (insert b P) defs' refs'"
  proof (rule refs_ok_insert [OF inv(2) b(2) defs' refs'])
    show "map_of defs d \<noteq> None \<longleftrightarrow> d \<in> P" for d using inv(1) unfolding filled_def by blast
    show "b \<noteq> en \<Longrightarrow> offered (env_at doms defs b) us" using s unfolding body_filled_def by simp
    show "set (dom_list doms b) = {c \<in> set (blocks_of f0). dm c b}" by (rule dom_list_iff [OF doms b(1)])
  qed
  ultimately show ?thesis using bc(5) g3 by simp
qed

subsection \<open>The loop\<close>

lemma filled_start:
  assumes "cf_inv f0 en ex"
  shows "filled f0 en dm T {} f0 []"
proof -
  have sk: "skel_ok f0" using assms by (simp add: cf_inv_def)
  have "branch_kept f0 f0 i" if "i \<in> set (branch_of f0 b)" for i b
    using branch_of_term [OF sk that] set_condition_self unfolding branch_kept_def by blast
  moreover have "block_filled f0 en dm {} f0 b" for b by (simp add: block_filled_def body_ok_def)
  ultimately show ?thesis using sk unfolding filled_def
    by (intro conjI allI ballI) (auto simp: frame_ok_def skel_ok_def recorded_all_def)
qed

lemma fill_loop_rest:
  assumes R: "rand_ok R" and cfg: "legal_config cfg" and cf: "cf_inv f0 en ex" and doms: "doms_ok doms dm f0"
    and T: "T = set (sig_params (fn_sig f0)) \<union> to_cranelift_type ` set (cfg_operand_types cfg)"
    and inv: "filled f0 en dm T P (cur_func c) defs" "refs_ok en dm P defs refs" and n: "0 < n"
    and bs: "set bs \<subseteq> set (blocks_of f0) - insert en P" "distinct bs"
    and run: "foldM (fill_block R cfg (fn_sig f0) doms) (enumerate n bs) (c, defs, refs, g) = Some (c', defs', refs', g')"
  shows "filled f0 en dm T (P \<union> set bs) (cur_func c') defs' \<and> refs_ok en dm (P \<union> set bs) defs' refs' \<and> global_rng g' = global_rng g"
  using inv n bs run
proof (induction bs arbitrary: n P c defs refs g)
  case (Cons b bs)
  obtain c1 defs1 refs1 g1 where s: "fill_block R cfg (fn_sig f0) doms (n, b) (c, defs, refs, g) = Some (c1, defs1, refs1, g1)"
    "foldM (fill_block R cfg (fn_sig f0) doms) (enumerate (Suc n) bs) (c1, defs1, refs1, g1) = Some (c', defs', refs', g')"
    using Cons.prems(6) by (auto elim!: bindE)
  have b: "b \<in> set (blocks_of f0)" "b \<notin> P" "n = 0 \<longleftrightarrow> b = en" using Cons.prems by auto
  note step = fill_block_filled [OF R cfg cf doms T Cons.prems(1,2) b s(1)]
  have "set bs \<subseteq> set (blocks_of f0) - insert en (insert b P)" using Cons.prems by auto
  then show ?case using Cons.IH [OF _ _ _ _ _ s(2), of "insert b P"] step Cons.prems(5) by simp
qed simp

theorem fill_loop:
  assumes R: "rand_ok R" and cfg: "legal_config cfg" and cf: "cf_inv f0 en ex" and doms: "doms_ok doms dm f0"
    and T: "T = set (sig_params (fn_sig f0)) \<union> to_cranelift_type ` set (cfg_operand_types cfg)"
    and bs: "distinct (en # bs)" "set (en # bs) = set (blocks_of f0)"
    and run: "foldM (fill_block R cfg (fn_sig f0) doms) (enumerate 0 (en # bs)) (cursor_new f0, [], [], g) = Some (c, defs, refs, g')"
  shows "filled f0 en dm T (set (blocks_of f0)) (cur_func c) defs" and "refs_ok en dm (set (blocks_of f0)) defs refs"
    and "global_rng g' = global_rng g"
proof -
  obtain c1 defs1 refs1 g1 where s: "fill_block R cfg (fn_sig f0) doms (0, en) (cursor_new f0, [], [], g) = Some (c1, defs1, refs1, g1)"
    "foldM (fill_block R cfg (fn_sig f0) doms) (enumerate 1 bs) (c1, defs1, refs1, g1) = Some (c, defs, refs, g')"
    using run by (auto elim!: bindE)
  have start: "filled f0 en dm T {} (cur_func (cursor_new f0)) []" using filled_start [OF cf] by (simp add: cursor_new_def)
  have "filled f0 en dm T {en} (cur_func c1) defs1 \<and> refs_ok en dm {en} defs1 refs1 \<and> global_rng g1 = global_rng g"
    by (rule fill_block_filled [OF R cfg cf doms T start _ _ _ _ s(1)]) (use bs in \<open>auto simp: refs_ok_def\<close>)
  moreover have "set bs \<subseteq> set (blocks_of f0) - insert en {en}" using bs by auto
  moreover have "{en} \<union> set bs = set (blocks_of f0)" using bs(2) by simp
  ultimately show "filled f0 en dm T (set (blocks_of f0)) (cur_func c) defs" "refs_ok en dm (set (blocks_of f0)) defs refs"
    "global_rng g' = global_rng g"
    using fill_loop_rest [OF R cfg cf doms T _ _ _ _ _ s(2), of "{en}"] bs(1) by auto
qed

end
