(* ===== verification/Join_Sound.thy ===== *)
theory Join_Sound
  imports Fill_Loop
begin

text \<open>
  The second loop of the function generator: a block with several predecessors gets a parameter for
  every type it uses, each predecessor passes values of these types, and some operands of the block
  are replaced by parameters. The invariant \<open>linked\<close> says that the whole function is well typed and
  its uses dominated, except for the arguments of the calls to the blocks \<open>S p\<close> in the branch of \<open>p\<close>.
  Joins never fail, and at the end no exception is left.
\<close>

subsection \<open>Changing instructions only\<close>

definition same_env :: "func \<Rightarrow> func \<Rightarrow> bool" where
  "same_env f f' \<longleftrightarrow> fn_layout f' = fn_layout f \<and> dfg_values f' = dfg_values f \<and> dfg_results f' = dfg_results f \<and>
     dfg_blocks f' = dfg_blocks f \<and> fn_sig f' = fn_sig f \<and> fn_name f' = fn_name f \<and> ext_funcs f' = ext_funcs f \<and> signatures f' = signatures f \<and>
     length (dfg_insts f') = length (dfg_insts f)"

lemma same_env_refl [simp]: "same_env f f"
  by (simp add: same_env_def)

lemma same_env_trans: "same_env f g \<Longrightarrow> same_env g h \<Longrightarrow> same_env f h"
  by (simp add: same_env_def)

lemma same_env_grows: "same_env f f' \<Longrightarrow> grows B f f'"
  by (auto simp: same_env_def grows_def)

lemma same_env_eqs:
  assumes "same_env f f'"
  shows "value_type f' v = value_type f v" and "avail B dm f' b pre v = avail B dm f b pre v"
    and "types_of f' vs ts = types_of f vs ts" and "frame_ok f' = frame_ok f" and "params_wf f' b = params_wf f b"
    and "recorded_all B f' defs = recorded_all B f defs" and "results_ok f' i rs = results_ok f i rs"
proof -
  have e: "fn_layout f' = fn_layout f" "dfg_values f' = dfg_values f" "dfg_results f' = dfg_results f"
    "dfg_blocks f' = dfg_blocks f" "length (dfg_insts f') = length (dfg_insts f)"
    using assms by (simp_all add: same_env_def)
  show "value_type f' v = value_type f v" "avail B dm f' b pre v = avail B dm f b pre v" "types_of f' vs ts = types_of f vs ts"
    "frame_ok f' = frame_ok f" "params_wf f' b = params_wf f b" "recorded_all B f' defs = recorded_all B f defs"
    "results_ok f' i rs = results_ok f i rs"
    unfolding value_type_def avail_def def_at_def types_of_def frame_ok_def params_wf_def recorded_all_def recorded_def results_ok_def e
    by (rule refl)+
qed

lemma same_env_set_inst [simp]: "same_env f (set_inst i d f)"
  by (simp add: same_env_def set_inst_def)

lemma same_env_tables [simp]: "same_env f (f\<lparr>jump_tables := jts\<rparr>)"
  by (simp add: same_env_def)

subsection \<open>Typed branches\<close>

fun is_branch :: "inst_data \<Rightarrow> bool" where
  "is_branch (Jump _) = True"
| "is_branch (Brif _ _ _) = True"
| "is_branch (BranchTable _ _) = True"
| "is_branch _ = False"

fun table_of :: "inst_data \<Rightarrow> nat option" where
  "table_of (BranchTable v t) = Some t"
| "table_of _ = None"

definition call_typed :: "(block \<Rightarrow> block \<Rightarrow> bool) \<Rightarrow> func \<Rightarrow> block set \<Rightarrow> block \<Rightarrow> inst list \<Rightarrow> block_call \<Rightarrow> bool" where
  "call_typed dm f S p body bc \<longleftrightarrow> bc_block bc \<in> set (blocks_of f) \<and> (\<forall>v \<in> set (bc_args bc). avail UNIV dm f p body v) \<and>
     (bc_block bc \<notin> S \<longrightarrow> map (value_type f) (bc_args bc) = map (value_type f) (dfg_blocks f ! bc_block bc))"

definition branch_typed :: "(block \<Rightarrow> block \<Rightarrow> bool) \<Rightarrow> func \<Rightarrow> block set \<Rightarrow> block \<Rightarrow> inst list \<Rightarrow> block list \<Rightarrow> inst_data \<Rightarrow> bool" where
  "branch_typed dm f S p body ts d \<longleftrightarrow> is_branch d \<and> (\<forall>t. table_of d = Some t \<longrightarrow> t < length (jump_tables f)) \<and>
     (\<forall>v \<in> set (arguments d). value_type f v = Some I32 \<and> avail UNIV dm f p body v) \<and>
     map bc_block (data_calls (jump_tables f) d) = ts \<and>
     (\<forall>bc \<in> set (data_calls (jump_tables f) d). call_typed dm f S p body bc)"

definition linked :: "func \<Rightarrow> block \<Rightarrow> (block \<Rightarrow> block \<Rightarrow> bool) \<Rightarrow> (block \<Rightarrow> inst list) \<Rightarrow> (block \<Rightarrow> block set) \<Rightarrow> func \<Rightarrow> bool" where
  "linked f0 en dm bodies S f \<longleftrightarrow> frame_ok f \<and> blocks_of f = blocks_of f0 \<and> fn_sig f = fn_sig f0 \<and> fn_name f = fn_name f0 \<and> ext_funcs f = ext_funcs f0 \<and> signatures f = signatures f0 \<and>
     types_of f (dfg_blocks f ! en) (sig_params (fn_sig f0)) \<and>
     (\<forall>b \<in> set (blocks_of f0). params_wf f b \<and> lo_insts (fn_layout f) b = bodies b @ branch_of f0 b \<and>
        lo_insts (fn_layout f) b \<noteq> [] \<and> body_ok UNIV dm f b (bodies b) \<and>
        (\<forall>i \<in> set (branch_of f0 b). dfg_results f ! i = [] \<and>
           branch_typed dm f (S b) b (bodies b) (targets f0 b) (dfg_insts f ! i))) \<and>
     (\<forall>p \<in> set (blocks_of f0). \<forall>q \<in> set (blocks_of f0). \<forall>i \<in> set (branch_of f0 p). \<forall>j \<in> set (branch_of f0 q). \<forall>t.
        table_of (dfg_insts f ! i) = Some t \<longrightarrow> table_of (dfg_insts f ! j) = Some t \<longrightarrow> p = q)"

subsection \<open>After the first loop\<close>

lemma inst_ok_wider: "inst_ok B dm f b pre i \<Longrightarrow> B \<subseteq> B' \<Longrightarrow> inst_ok B' dm f b pre i"
  unfolding inst_ok_def using avail_mono by blast

lemma body_ok_wider: "body_ok B dm f b body \<Longrightarrow> B \<subseteq> B' \<Longrightarrow> body_ok B' dm f b body"
  unfolding body_ok_def using inst_ok_wider by blast

lemma recorded_wider: "recorded_all B f defs \<Longrightarrow> B \<subseteq> B' \<Longrightarrow> recorded_all B' f defs"
  unfolding recorded_all_def recorded_def using def_at_mono by blast

lemma set_condition_branch [simp]:
  "is_branch (set_condition v d) = is_branch d" "table_of (set_condition v d) = table_of d"
  "data_calls jts (set_condition v d) = data_calls jts d"
  by (cases d; simp)+

lemma term_ok_targets:
  assumes "term_ok jts d"
  shows "is_branch d" and "table_of d = Some t \<Longrightarrow> t < length jts" and "bc \<in> set (data_calls jts d) \<Longrightarrow> bc_args bc = []"
    and "distinct (map bc_block (data_calls jts d))"
  using assms by (cases d; auto simp: list_all_iff split: if_splits)+

lemma cf_inv_term:
  assumes inv: "cf_inv f0 en ex" and i: "i \<in> set (branch_of f0 p)"
  shows "term_ok (jump_tables f0) (dfg_insts f0 ! i)" and "targets f0 p = map bc_block (data_calls (jump_tables f0) (dfg_insts f0 ! i))"
    and "j \<in> set (branch_of f0 q) \<Longrightarrow> table_of (dfg_insts f0 ! i) = Some t \<Longrightarrow> table_of (dfg_insts f0 ! j) = Some t \<Longrightarrow> p = q"
proof -
  have sk: "skel_ok f0" using inv by (simp add: cf_inv_def)
  note tm = branch_of_term(2) [OF sk i]
  have bo: "branch_ok f0 p" using inv tm unfolding cf_inv_def by auto
  then show "term_ok (jump_tables f0) (dfg_insts f0 ! i)" using tm unfolding branch_ok_def by auto
  show "targets f0 p = map bc_block (data_calls (jump_tables f0) (dfg_insts f0 ! i))" using tm by (simp add: targets_calls calls_of_def)
  assume j: "j \<in> set (branch_of f0 q)" and t: "table_of (dfg_insts f0 ! i) = Some t" "table_of (dfg_insts f0 ! j) = Some t"
  obtain v w where "dfg_insts f0 ! i = BranchTable v t" "dfg_insts f0 ! j = BranchTable w t"
    using t by (auto elim!: table_of.elims)
  then show "p = q" using bo tm branch_of_term(2) [OF sk j] unfolding branch_ok_def by auto
qed

lemma filled_linked:
  assumes inv: "filled f0 en dm T (set (blocks_of f0)) f defs" and cf: "cf_inv f0 en ex"
  shows "\<exists>bodies. linked f0 en dm bodies (\<lambda>_. {}) f" and "recorded_all UNIV f defs"
    and "b \<in> set (blocks_of f0) \<Longrightarrow> b \<noteq> en \<Longrightarrow> dfg_blocks f ! b = []"
proof -
  have f: "frame_ok f" "blocks_of f = blocks_of f0" "jump_tables f = jump_tables f0" "fn_sig f = fn_sig f0" "fn_name f = fn_name f0 \<and> ext_funcs f = ext_funcs f0 \<and> signatures f = signatures f0"
    "length (dfg_blocks f) = length (dfg_blocks f0)" "\<And>b. block_filled f0 en dm (set (blocks_of f0)) f b"
    "\<And>b i. i \<in> set (branch_of f0 b) \<Longrightarrow> branch_kept f0 f i" "recorded_all {en} f defs"
    "en \<in> set (blocks_of f0) \<Longrightarrow> params_wf f en \<and> types_of f (dfg_blocks f ! en) (sig_params (fn_sig f0))"
    using inv unfolding filled_def by blast+
  have en: "en \<in> set (blocks_of f0)" and sk: "skel_ok f0" and tg: "\<And>b. set (targets f0 b) \<subseteq> set (blocks_of f0) - {en, b}"
    using cf unfolding cf_inv_def by (auto intro: hd_in_set)
  show rec: "recorded_all UNIV f defs" by (rule recorded_wider [OF f(9)]) simp
  obtain bodies where bd: "\<And>b. lo_insts (fn_layout f) b = bodies b @ branch_of f0 b \<and> body_ok {en} dm f b (bodies b) \<and>
     (b \<in> set (blocks_of f0) \<longrightarrow> lo_insts (fn_layout f) b \<noteq> [] \<and> (b \<noteq> en \<longrightarrow> dfg_blocks f ! b = []) \<and>
        (\<forall>i \<in> set (branch_of f0 b). cond_ok {en} dm f b (bodies b) (dfg_insts f ! i)))"
    using f(7) unfolding block_filled_def by metis
  show empty: "dfg_blocks f ! b = []" if "b \<in> set (blocks_of f0)" "b \<noteq> en" for b using bd that by blast
  have kept: "dfg_results f ! i = [] \<and> (\<exists>v. dfg_insts f ! i = set_condition v (dfg_insts f0 ! i))" if "i \<in> set (branch_of f0 b)" for b i
    using f(8) [OF that] by (simp add: branch_kept_def)
  have br: "branch_typed dm f {} b (bodies b) (targets f0 b) (dfg_insts f ! i)" if b: "b \<in> set (blocks_of f0)" and i: "i \<in> set (branch_of f0 b)" for b i
  proof -
    note tm = cf_inv_term [OF cf i] and tc = term_ok_targets [OF cf_inv_term(1) [OF cf i]]
    obtain v where d: "dfg_insts f ! i = set_condition v (dfg_insts f0 ! i)" using kept [OF i] by blast
    have "call_typed dm f {} b (bodies b) bc" if bc: "bc \<in> set (data_calls (jump_tables f0) (dfg_insts f0 ! i))" for bc
    proof -
      have "bc_block bc \<in> set (targets f0 b)" using tm(2) bc by simp
      then have "bc_block bc \<in> set (blocks_of f0)" "bc_block bc \<noteq> en" using tg by blast+
      then show ?thesis using tc(3) [OF bc] empty f(2) by (simp add: call_typed_def)
    qed
    moreover have "value_type f w = Some I32 \<and> avail UNIV dm f b (bodies b) w" if "w \<in> set (arguments (dfg_insts f ! i))" for w
    proof -
      have "is_conditional (dfg_insts f ! i)" using that tc(1) d by (cases "dfg_insts f0 ! i") auto
      then show ?thesis using bd [of b] b i that avail_mono [of "{en}" dm f b "bodies b" w UNIV] unfolding cond_ok_def by blast
    qed
    ultimately show ?thesis using tc(1,2) tm(2) d f(3) by (auto simp: branch_typed_def)
  qed
  have pw: "params_wf f b" if "b \<in> set (blocks_of f0)" for b
  proof (cases "b = en")
    case False
    then show ?thesis using empty [OF that] f(6) cf_inv_branch(4) [OF cf that] by (simp add: params_wf_def)
  qed (use f(10) [OF en] in simp)
  have "p = q" if "i \<in> set (branch_of f0 p)" "j \<in> set (branch_of f0 q)" "table_of (dfg_insts f ! i) = Some t" "table_of (dfg_insts f ! j) = Some t" for p q i j t
    using cf_inv_term(3) [OF cf that(1,2), of t] kept [OF that(1)] kept [OF that(2)] that(3,4) by auto
  then have "linked f0 en dm bodies (\<lambda>_. {}) f"
    using f(1,2,4,5) f(10) [OF en] pw br kept bd body_ok_wider [of "{en}" dm f _ _ UNIV] unfolding linked_def by blast
  then show "\<exists>bodies. linked f0 en dm bodies (\<lambda>_. {}) f" by blast
qed

subsection \<open>Parameters of a join\<close>

lemma join_params:
  assumes "params_wf (cur_func c) b" and "types_of (cur_func c) (dfg_blocks (cur_func c) ! b) us" and "dfg_blocks (cur_func c) ! b = ps"
    and "map_of defs b \<noteq> None" and "recorded_all UNIV (cur_func c) defs"
  shows "\<exists>c' defs'. foldM (join_param b) ts (c, defs, ps) = Some (c', defs', dfg_blocks (cur_func c') ! b) \<and>
    same_code b (cur_func c) (cur_func c') \<and> grows UNIV (cur_func c) (cur_func c') \<and> params_wf (cur_func c') b \<and>
    types_of (cur_func c') (dfg_blocks (cur_func c') ! b) (us @ ts) \<and> recorded_all UNIV (cur_func c') defs' \<and>
    (\<forall>d tvs. map_of defs d = Some tvs \<longrightarrow> (\<exists>tvs'. map_of defs' d = Some tvs' \<and> set tvs \<subseteq> set tvs')) \<and>
    (\<forall>d. map_of defs' d \<noteq> None \<longleftrightarrow> map_of defs d \<noteq> None)"
  using assms
proof (induction ts arbitrary: c us ps defs)
  case Nil
  then show ?case by (auto intro!: exI)
next
  case (Cons t ts)
  obtain v f1 where v: "append_block_param b t (cur_func c) = Some (v, f1)"
    using append_block_param_ex Cons.prems(1) by (metis params_wf_def)
  note eff = append_block_param_put [OF v Cons.prems(1,2)]
  obtain nd where nd: "map_of defs b = Some nd" using Cons.prems(4) by blast
  define c1 where "c1 = c\<lparr>cur_func := f1\<rparr>"
  define defs1 where "defs1 = AList.update b (List.insert (TypedValue v t) nd) defs"
  have step: "join_param b t (c, defs, ps) = Some (c1, defs1, ps @ [v])" by (simp add: join_param_def v nd c1_def defs1_def)
  have layout: "fn_layout f1 = fn_layout (cur_func c)" using eff(2) by (simp add: same_code_def)
  have rec1: "recorded_all UNIV f1 defs1" unfolding recorded_all_def
  proof (intro allI impI)
    fix d tvs assume m: "map_of defs1 d = Some tvs"
    have old: "recorded UNIV f1 d (lo_insts (fn_layout f1) d) ws" if "map_of defs d = Some ws" for ws
      using Cons.prems(5) that recorded_mono [OF _ eff(1) subset_refl] layout unfolding recorded_all_def by simp
    show "recorded UNIV f1 d (lo_insts (fn_layout f1) d) tvs"
    proof (cases "d = b")
      case True
      then have "tvs = List.insert (TypedValue v t) nd" using m by (simp add: defs1_def update_conv')
      then show ?thesis using old [of nd] nd True eff(6,7) by simp
    next
      case False
      then show ?thesis using old m by (simp add: defs1_def update_conv')
    qed
  qed
  have "\<exists>c' defs'. foldM (join_param b) ts (c1, defs1, ps @ [v]) = Some (c', defs', dfg_blocks (cur_func c') ! b) \<and>
    same_code b (cur_func c1) (cur_func c') \<and> grows UNIV (cur_func c1) (cur_func c') \<and> params_wf (cur_func c') b \<and>
    types_of (cur_func c') (dfg_blocks (cur_func c') ! b) ((us @ [t]) @ ts) \<and> recorded_all UNIV (cur_func c') defs' \<and>
    (\<forall>d tvs. map_of defs1 d = Some tvs \<longrightarrow> (\<exists>tvs'. map_of defs' d = Some tvs' \<and> set tvs \<subseteq> set tvs')) \<and>
    (\<forall>d. map_of defs' d \<noteq> None \<longleftrightarrow> map_of defs1 d \<noteq> None)"
    by (rule Cons.IH) (use eff rec1 Cons.prems(3) in \<open>auto simp: c1_def defs1_def update_conv'\<close>)
  then obtain c' defs' where IH: "foldM (join_param b) ts (c1, defs1, ps @ [v]) = Some (c', defs', dfg_blocks (cur_func c') ! b)"
    "same_code b f1 (cur_func c')" "grows UNIV f1 (cur_func c')" "params_wf (cur_func c') b"
    "types_of (cur_func c') (dfg_blocks (cur_func c') ! b) (us @ t # ts)" "recorded_all UNIV (cur_func c') defs'"
    "\<And>d tvs. map_of defs1 d = Some tvs \<Longrightarrow> \<exists>tvs'. map_of defs' d = Some tvs' \<and> set tvs \<subseteq> set tvs'"
    "\<And>d. map_of defs' d \<noteq> None \<longleftrightarrow> map_of defs1 d \<noteq> None" by (auto simp: c1_def)
  have "\<exists>tvs'. map_of defs' d = Some tvs' \<and> set tvs \<subseteq> set tvs'" if "map_of defs d = Some tvs" for d tvs
  proof (cases "d = b")
    case True
    then have "map_of defs1 d = Some (List.insert (TypedValue v t) nd)" "tvs = nd" using that nd by (simp_all add: defs1_def update_conv')
    then show ?thesis using IH(7) by fastforce
  qed (use that IH(7) in \<open>simp add: defs1_def update_conv'\<close>)
  moreover have "map_of defs' d \<noteq> None \<longleftrightarrow> map_of defs d \<noteq> None" for d using IH(8) nd by (simp add: defs1_def update_conv')
  ultimately show ?case
    using step IH(1,4-6) same_code_trans [OF eff(2) IH(2)] grows_trans [OF eff(1) IH(3)]
    by (intro exI [of _ c'] exI [of _ defs']) simp
qed

text \<open>The parameters leave only the calls to the block untyped.\<close>

lemma avail_bound: "avail B dm f b pre v \<Longrightarrow> v < length (dfg_values f)"
  by (auto simp: avail_def def_at_def split: option.splits)

lemma grows_value_type_eq: "grows B f f' \<Longrightarrow> v < length (dfg_values f) \<Longrightarrow> value_type f' v = value_type f v"
  by (auto simp: grows_def value_type_def nth_opt_def nth_append)

lemma params_bound: "params_wf f b \<Longrightarrow> v \<in> set (dfg_blocks f ! b) \<Longrightarrow> v < length (dfg_values f)"
  by (auto simp: params_wf_def in_set_conv_nth)

lemma call_typed_grows:
  assumes ct: "call_typed dm f S p body bc" and gr: "grows UNIV f f'" and bl: "blocks_of f' = blocks_of f" and pw: "params_wf f (bc_block bc)"
    and S: "S \<subseteq> S'" and par: "bc_block bc \<notin> S' \<Longrightarrow> dfg_blocks f' ! bc_block bc = dfg_blocks f ! bc_block bc"
  shows "call_typed dm f' S' p body bc"
proof -
  have bc: "bc_block bc \<in> set (blocks_of f)" "\<And>v. v \<in> set (bc_args bc) \<Longrightarrow> avail UNIV dm f p body v"
    "bc_block bc \<notin> S' \<Longrightarrow> map (value_type f) (bc_args bc) = map (value_type f) (dfg_blocks f ! bc_block bc)"
    using ct S unfolding call_typed_def by blast+
  have "map (value_type f') (bc_args bc) = map (value_type f) (bc_args bc)"
    using grows_value_type_eq [OF gr avail_bound [OF bc(2)]] by simp
  moreover have "map (value_type f') (dfg_blocks f ! bc_block bc) = map (value_type f) (dfg_blocks f ! bc_block bc)"
    using grows_value_type_eq [OF gr params_bound [OF pw]] by simp
  ultimately have "map (value_type f') (bc_args bc) = map (value_type f') (dfg_blocks f' ! bc_block bc)" if "bc_block bc \<notin> S'"
    using bc(3) [OF that] par [OF that] by metis
  then show ?thesis using bc(1) grows_avail [OF gr bc(2) subset_refl] bl by (simp add: call_typed_def)
qed

lemma linked_params:
  assumes inv: "linked f0 en dm bodies (\<lambda>_. {}) f" and sc: "same_code b f f'" and gr: "grows UNIV f f'" and pw: "params_wf f' b"
    and b: "b \<noteq> en"
  shows "linked f0 en dm bodies (\<lambda>_. {b}) f'"
proof -
  have e: "fn_layout f' = fn_layout f" "dfg_insts f' = dfg_insts f" "dfg_results f' = dfg_results f" "jump_tables f' = jump_tables f"
    "fn_sig f' = fn_sig f" "fn_name f' = fn_name f \<and> ext_funcs f' = ext_funcs f \<and> signatures f' = signatures f" "\<And>c. c \<noteq> b \<Longrightarrow> dfg_blocks f' ! c = dfg_blocks f ! c"
    using sc by (simp_all add: same_code_def)
  have f: "frame_ok f" "blocks_of f = blocks_of f0" "types_of f (dfg_blocks f ! en) (sig_params (fn_sig f0))"
    using inv by (simp_all add: linked_def)
  have blk: "params_wf f c" "lo_insts (fn_layout f) c = bodies c @ branch_of f0 c" "lo_insts (fn_layout f) c \<noteq> []" "body_ok UNIV dm f c (bodies c)"
    "\<And>i. i \<in> set (branch_of f0 c) \<Longrightarrow> dfg_results f ! i = [] \<and> branch_typed dm f {} c (bodies c) (targets f0 c) (dfg_insts f ! i)"
    if "c \<in> set (blocks_of f0)" for c
    using inv that unfolding linked_def by blast+
  have "params_wf f' c" if "c \<in> set (blocks_of f0)" for c
    using params_wf_grows [OF blk(1) [OF that] gr] pw e(7) by (cases "c = b") auto
  moreover have "body_ok UNIV dm f' c (bodies c)" if "c \<in> set (blocks_of f0)" for c
    by (rule body_ok_mono [OF blk(4) [OF that] gr]) (simp add: e)
  moreover have "branch_typed dm f' {b} c (bodies c) (targets f0 c) (dfg_insts f ! i)"
    if c: "c \<in> set (blocks_of f0)" and i: "i \<in> set (branch_of f0 c)" for c i
  proof -
    have bt: "branch_typed dm f {} c (bodies c) (targets f0 c) (dfg_insts f ! i)" using blk(5) [OF c i] by blast
    have "call_typed dm f' {b} c (bodies c) bc" if "call_typed dm f {} c (bodies c) bc" for bc
      by (rule call_typed_grows [OF that gr _ blk(1)]) (use that f(2) e(1,7) in \<open>auto simp: call_typed_def\<close>)
    then show ?thesis using bt grows_value_type [OF gr] grows_avail [OF gr _ subset_refl] unfolding branch_typed_def e(4) by blast
  qed
  moreover have "frame_ok f'" using f(1) e by (simp add: frame_ok_def)
  moreover have "types_of f' (dfg_blocks f' ! en) (sig_params (fn_sig f0))" using grows_types_of [OF gr f(3)] e(7) b by simp
  ultimately show ?thesis using inv blk e(1-6) unfolding linked_def by simp
qed

subsection \<open>Arguments of the predecessors\<close>

lemma branch_typed_same_env:
  assumes "same_env f f'" and "data_calls (jump_tables f') d = data_calls (jump_tables f) d" and "length (jump_tables f') = length (jump_tables f)"
  shows "branch_typed dm f' S p body ts d = branch_typed dm f S p body ts d"
proof -
  have "dfg_blocks f' = dfg_blocks f" "fn_layout f' = fn_layout f" using assms(1) by (simp_all add: same_env_def)
  then show ?thesis unfolding branch_typed_def call_typed_def assms(2,3) same_env_eqs [OF assms(1)] by simp
qed

lemma data_calls_table:
  assumes "\<And>t. table_of d = Some t \<Longrightarrow> jts' ! t = jts ! t" and "length jts' = length jts"
  shows "data_calls jts' d = data_calls jts d"
  using assms by (cases d) auto

lemma linked_branch:
  assumes inv: "linked f0 en dm bodies S f" and se: "same_env f f'" and p: "p \<in> set (blocks_of f0)" and i: "branch_of f0 p = [i]"
    and others: "\<And>j. j \<noteq> i \<Longrightarrow> dfg_insts f' ! j = dfg_insts f ! j" and len: "length (jump_tables f') = length (jump_tables f)"
    and tabs: "\<And>t. table_of (dfg_insts f ! i) \<noteq> Some t \<Longrightarrow> jump_tables f' ! t = jump_tables f ! t"
    and same: "table_of (dfg_insts f' ! i) = table_of (dfg_insts f ! i)"
    and bt: "branch_typed dm f' S' p (bodies p) (targets f0 p) (dfg_insts f' ! i)"
  shows "linked f0 en dm bodies (S(p := S')) f'"
proof -
  note eqs = same_env_eqs [OF se]
  have e: "fn_layout f' = fn_layout f" "dfg_results f' = dfg_results f" "dfg_blocks f' = dfg_blocks f" "fn_sig f' = fn_sig f" "fn_name f' = fn_name f \<and> ext_funcs f' = ext_funcs f \<and> signatures f' = signatures f"
    "length (dfg_insts f') = length (dfg_insts f)" using se by (simp_all add: same_env_def)
  have blk: "params_wf f c" "lo_insts (fn_layout f) c = bodies c @ branch_of f0 c" "lo_insts (fn_layout f) c \<noteq> []" "body_ok UNIV dm f c (bodies c)"
    "\<And>i. i \<in> set (branch_of f0 c) \<Longrightarrow> dfg_results f ! i = [] \<and> branch_typed dm f (S c) c (bodies c) (targets f0 c) (dfg_insts f ! i)"
    if "c \<in> set (blocks_of f0)" for c
    using inv that unfolding linked_def by blast+
  have fr: "frame_ok f" "wf_layout (fn_layout f)" and uniq: "\<And>p q i j t. p \<in> set (blocks_of f0) \<Longrightarrow> q \<in> set (blocks_of f0) \<Longrightarrow> i \<in> set (branch_of f0 p) \<Longrightarrow> j \<in> set (branch_of f0 q) \<Longrightarrow>
      table_of (dfg_insts f ! i) = Some t \<Longrightarrow> table_of (dfg_insts f ! j) = Some t \<Longrightarrow> p = q"
    using inv unfolding linked_def frame_ok_def by blast+
  have ip: "i \<in> set (lo_insts (fn_layout f) p)" using blk(2) [OF p] i by simp
  have only: "c = p" if "j \<in> set (lo_insts (fn_layout f) c)" "j = i" for c j using wf_disjoint [OF fr(2)] ip that by blast
  have notbody: "i \<notin> set (bodies c)" if c: "c \<in> set (blocks_of f0)" for c
  proof (cases "c = p")
    case True
    then show ?thesis using wf_distinct [OF fr(2) blk(2) [OF p]] i by auto
  qed (use only [of i c] blk(2) [OF c] in auto)
  have body: "body_ok UNIV dm f' c (bodies c)" if c: "c \<in> set (blocks_of f0)" for c
  proof (rule body_ok_mono [OF blk(4) [OF c] same_env_grows [OF se]])
    fix j assume "j \<in> set (bodies c)"
    then have "j \<noteq> i" using notbody [OF c] by blast
    then show "nth_opt (dfg_insts f') j = nth_opt (dfg_insts f) j" using others e(6) by (simp add: nth_opt_def)
  qed
  have br: "branch_typed dm f' ((S(p := S')) c) c (bodies c) (targets f0 c) (dfg_insts f' ! j)"
    if c: "c \<in> set (blocks_of f0)" and j: "j \<in> set (branch_of f0 c)" for c j
  proof (cases "c = p")
    case True
    then show ?thesis using bt i j by simp
  next
    case False
    then have "j \<noteq> i" using only [of j c] blk(2) [OF c] j by auto
    then have d: "dfg_insts f' ! j = dfg_insts f ! j" by (rule others)
    have "data_calls (jump_tables f') (dfg_insts f ! j) = data_calls (jump_tables f) (dfg_insts f ! j)"
    proof (rule data_calls_table [OF _ len])
      fix t assume t: "table_of (dfg_insts f ! j) = Some t"
      show "jump_tables f' ! t = jump_tables f ! t"
      proof (rule tabs)
        show "table_of (dfg_insts f ! i) \<noteq> Some t" using uniq [OF c p j _ t, of i] i False by auto
      qed
    qed
    then show ?thesis using branch_typed_same_env [OF se _ len] blk(5) [OF c j] False d by simp
  qed
  have "table_of (dfg_insts f' ! j) = table_of (dfg_insts f ! j)" for j using same others by (cases "j = i") auto
  then show ?thesis using inv body br blk e(1-5) unfolding linked_def eqs by simp
qed

lemma pick_values_ex:
  assumes R: "rand_ok R" and env: "env_ok D f" and "\<forall>t \<in> set ts. get_dominator_values_with_type D t \<noteq> []"
  shows "\<exists>vs g'. pick_values R D ts g = Some (vs, g') \<and> types_of f vs ts \<and> set vs \<subseteq> candidates D \<and> global_rng g' = global_rng g"
  using assms(3)
proof (induction ts arbitrary: g)
  case Nil
  then show ?case by (simp add: types_of_def)
next
  case (Cons t ts)
  obtain v g1 where v: "pick R (get_dominator_values_with_type D t) g = Some (v, g1)" "v \<in> set (get_dominator_values_with_type D t)"
    "global_rng g1 = global_rng g" using pick_ex [OF R, of "get_dominator_values_with_type D t" g] Cons.prems by auto
  have "value_type f v = Some t" "v \<in> candidates D" using candidate_type [OF v(2) env] candidate_in [OF v(2)] by auto
  then show ?case using Cons.IH [of g1] Cons.prems v by (auto simp: types_of_def)
qed

lemma table_args_skip: "b \<notin> bc_block ` set bcs \<Longrightarrow> table_args R D b ts acc bcs g = Some (bcs, g)"
  by (induction bcs) auto

lemma table_args_ex:
  assumes R: "rand_ok R" and env: "env_ok D f" and ts: "\<forall>t \<in> set ts. get_dominator_values_with_type D t \<noteq> []"
    and "distinct (map bc_block bcs)" and "b \<in> bc_block ` set bcs"
  shows "\<exists>vs g'. table_args R D b ts [] bcs g = Some (map (\<lambda>bc. if bc_block bc = b then BlockCall b vs else bc) bcs, g') \<and>
    types_of f vs ts \<and> set vs \<subseteq> candidates D \<and> global_rng g' = global_rng g"
  using assms(4,5)
proof (induction bcs)
  case (Cons bc bcs)
  show ?case
  proof (cases "bc_block bc = b")
    case True
    obtain vs g' where vs: "pick_values R D ts g = Some (vs, g')" "types_of f vs ts" "set vs \<subseteq> candidates D" "global_rng g' = global_rng g"
      using pick_values_ex [OF R env ts] by blast
    have no: "b \<notin> bc_block ` set bcs" using Cons.prems(1) True by auto
    then have "map (\<lambda>bc. if bc_block bc = b then BlockCall b vs else bc) bcs = bcs" by (intro map_idI) auto
    then show ?thesis using vs True by (intro exI [of _ vs] exI [of _ g']) (simp add: table_args_skip [OF no])
  next
    case False
    then show ?thesis using Cons by (auto simp: rev_image_eqI)
  qed
qed simp

abbreviation call_with :: "block \<Rightarrow> val list \<Rightarrow> block_call \<Rightarrow> block_call" where
  "call_with b vs bc \<equiv> (if bc_block bc = b then BlockCall b vs else bc)"

lemma branch_typed_pass:
  assumes bt: "branch_typed dm f S p body ts d" and S: "S \<subseteq> {b}" and se: "same_env f f'"
    and d': "is_branch d'" "arguments d' = arguments d" "table_of d' = table_of d" "length (jump_tables f') = length (jump_tables f)"
    and calls: "data_calls (jump_tables f') d' = map (call_with b vs) (data_calls (jump_tables f) d)"
    and vs: "types_of f vs us" "types_of f (dfg_blocks f ! b) us" "\<forall>v \<in> set vs. avail UNIV dm f p body v"
  shows "branch_typed dm f' {} p body ts d'"
proof -
  have e: "dfg_blocks f' = dfg_blocks f" "fn_layout f' = fn_layout f" using se by (simp_all add: same_env_def)
  have "call_typed dm f' {} p body (call_with b vs bc)" if "call_typed dm f S p body bc" for bc
    using that S vs unfolding call_typed_def e same_env_eqs [OF se] types_of_def by auto
  then have "\<forall>bc \<in> set (map (call_with b vs) (data_calls (jump_tables f) d)). call_typed dm f' {} p body bc"
    using bt unfolding branch_typed_def set_map by blast
  moreover have "map bc_block (map (call_with b vs) bcs) = map bc_block bcs" for bcs by simp
  ultimately show ?thesis using bt d' unfolding branch_typed_def calls same_env_eqs [OF se] by (simp del: set_map map_map map_eq_conv)
qed

lemma pass_args_linked:
  assumes R: "rand_ok R" and inv: "linked f0 en dm bodies S (cur_func c)" and rec: "recorded_all UNIV (cur_func c) defs"
    and doms: "doms_ok doms dm f0" and cf: "cf_inv f0 en ex" and p: "p \<in> set (blocks_of f0)" "b \<in> set (targets f0 p)" "S p \<subseteq> {b}"
    and ts: "types_of (cur_func c) (dfg_blocks (cur_func c) ! b) ts"
    and cands: "\<forall>t \<in> set ts. get_dominator_values_with_type (env_at doms defs p) t \<noteq> []"
  shows "\<exists>c' g'. pass_args R doms defs b ts p (c, g) = Some (c', g') \<and> same_env (cur_func c) (cur_func c') \<and>
    linked f0 en dm bodies (S(p := {})) (cur_func c') \<and> global_rng g' = global_rng g"
proof -
  let ?f = "cur_func c" and ?D = "env_at doms defs p"
  have sk: "skel_ok f0" using cf by (simp add: cf_inv_def)
  obtain i where i: "i \<in> set (branch_of f0 p)" using p(2)
    by (cases "branch_of f0 p") (auto simp: targets_calls calls_of_def term_of_def last_inst_def)
  note br = branch_of_term(1) [OF sk i]
  have f: "frame_ok ?f" "blocks_of ?f = blocks_of f0" "lo_insts (fn_layout ?f) p = bodies p @ [i]" "dfg_results ?f ! i = []"
    "branch_typed dm ?f (S p) p (bodies p) (targets f0 p) (dfg_insts ?f ! i)"
    using inv p(1) i br unfolding linked_def by simp_all
  have bound: "i < length (dfg_insts ?f)" using frame_bound [OF f(1), of p] f(3) by auto
  have goto: "goto_last_inst p c = Some (c\<lparr>cur_pos := At i\<rparr>)" using goto_last_inst_eq [OF f(1)] f(3) by simp
  have env: "env_ok ?D ?f" by (rule env_at_ok [OF rec])
  have "recorded UNIV ?f p (bodies p) tvs" if "map_of defs p = Some tvs" for tvs
  proof (rule recorded_no_results)
    show "recorded UNIV ?f p (bodies p @ [i]) tvs" using rec that f(3) unfolding recorded_all_def by metis
  qed (use f(4) in simp)
  then have av: "\<forall>v \<in> candidates ?D. avail UNIV dm ?f p (bodies p) v"
    using env_avail [OF _ _ rec, of doms dm p "bodies p"] doms p(1) f(2) by (simp add: doms_ok_def)
  have dist: "distinct (targets f0 p)" using term_ok_targets(4) [OF cf_inv_term(1) [OF cf i]] cf_inv_term(2) [OF cf i] by simp
  have tg: "map bc_block (data_calls (jump_tables ?f) (dfg_insts ?f ! i)) = targets f0 p" and isb: "is_branch (dfg_insts ?f ! i)"
    and tbl: "\<And>t. table_of (dfg_insts ?f ! i) = Some t \<Longrightarrow> t < length (jump_tables ?f)"
    using f(5) by (simp_all add: branch_typed_def)
  have upd: "linked f0 en dm bodies (S(p := {})) f'"
    if "same_env ?f f'" "\<And>j. j \<noteq> i \<Longrightarrow> dfg_insts f' ! j = dfg_insts ?f ! j" "length (jump_tables f') = length (jump_tables ?f)"
      "\<And>t. table_of (dfg_insts ?f ! i) \<noteq> Some t \<Longrightarrow> jump_tables f' ! t = jump_tables ?f ! t"
      "is_branch (dfg_insts f' ! i)" "arguments (dfg_insts f' ! i) = arguments (dfg_insts ?f ! i)"
      "table_of (dfg_insts f' ! i) = table_of (dfg_insts ?f ! i)"
      "data_calls (jump_tables f') (dfg_insts f' ! i) = map (call_with b vs) (data_calls (jump_tables ?f) (dfg_insts ?f ! i))"
      "types_of ?f vs ts" "set vs \<subseteq> candidates ?D" for f' vs
  proof (rule linked_branch [OF inv that(1) p(1) br that(2,3,4,7)])
    show "branch_typed dm f' {} p (bodies p) (targets f0 p) (dfg_insts f' ! i)"
      by (rule branch_typed_pass [OF f(5) p(3) that(1,5,6,7,3,8,9) ts]) (use av that(10) in blast)
  qed
  obtain vs g1 where vs: "pick_values R ?D ts g = Some (vs, g1)" "types_of ?f vs ts" "set vs \<subseteq> candidates ?D" "global_rng g1 = global_rng g"
    using pick_values_ex [OF R env cands] by blast
  show ?thesis
  proof (cases "dfg_insts ?f ! i")
    case (Jump bc)
    then have b: "bc_block bc = b" using tg [symmetric] p(2) by simp
    have "linked f0 en dm bodies (S(p := {})) (set_inst i (Jump (BlockCall b vs)) ?f)"
      by (rule upd [OF same_env_set_inst _ _ _ _ _ _ _ vs(2,3)]) (use Jump b bound in \<open>auto simp: set_inst_def\<close>)
    then show ?thesis using goto bound Jump vs b by (simp add: pass_args_def)
  next
    case (Brif v b1 b2)
    then have b: "bc_block b1 \<noteq> bc_block b2" "b = bc_block b1 \<or> b = bc_block b2" using tg [symmetric] p(2) dist by simp_all
    define d' where "d' = (if bc_block b2 = b then Brif v b1 (BlockCall (bc_block b2) vs) else Brif v (BlockCall (bc_block b1) vs) b2)"
    have "linked f0 en dm bodies (S(p := {})) (set_inst i d' ?f)"
      by (rule upd [OF same_env_set_inst _ _ _ _ _ _ _ vs(2,3)]) (use Brif b bound in \<open>auto simp: set_inst_def d'_def\<close>)
    then show ?thesis using goto bound Brif vs by (simp add: pass_args_def d'_def Let_def)
  next
    case (BranchTable v t)
    have t: "t < length (jump_tables ?f)" using tbl BranchTable by simp
    let ?jt = "jump_tables ?f ! t"
    have calls: "data_calls (jump_tables ?f) (dfg_insts ?f ! i) = all_branches ?jt" using BranchTable t by simp
    have "b \<in> bc_block ` set (all_branches ?jt)" using tg p(2) unfolding calls by (metis list.set_map)
    then obtain ws g2 where ws: "table_args R ?D b ts [] (all_branches ?jt) g = Some (map (call_with b ws) (all_branches ?jt), g2)"
      "types_of ?f ws ts" "set ws \<subseteq> candidates ?D" "global_rng g2 = global_rng g"
      using table_args_ex [OF R env cands, of "all_branches ?jt" b g] tg dist unfolding calls by auto
    define jt' where "jt' = \<lparr>jt_default = hd (map (call_with b ws) (all_branches ?jt)), jt_table = tl (map (call_with b ws) (all_branches ?jt))\<rparr>"
    have jt': "all_branches jt' = map (call_with b ws) (all_branches ?jt)" by (simp add: jt'_def all_branches_def)
    have "linked f0 en dm bodies (S(p := {})) (?f\<lparr>jump_tables := (jump_tables ?f)[t := jt']\<rparr>)"
      by (rule upd [OF same_env_tables _ _ _ _ _ _ _ ws(2,3)]) (use BranchTable t jt' in auto)
    then show ?thesis using goto bound BranchTable ws t by (simp add: pass_args_def jt'_def Let_def)
  qed (use isb in auto)
qed

subsection \<open>Replaced operands\<close>

lemma replace_arg_ex:
  assumes "rand_ok R"
  shows "\<exists>v g'. replace_arg R odds t ps arg g = Some (v, g') \<and> (v = arg \<or> (t, v) \<in> set ps) \<and> global_rng g' = global_rng g"
proof (induction ps arbitrary: arg g)
  case (Cons p ps)
  obtain n g1 where n: "thread_gen_range R 0 10 g = Some (n, g1)" "global_rng g1 = global_rng g"
    using thread_gen_range_ex [OF assms, of 0 10 g] by auto
  obtain q v where p: "p = (q, v)" by force
  show ?case
  proof (cases "q = t")
    case True
    then show ?thesis using Cons.IH [of "if n < odds then v else arg" g1] n p by (auto split: if_splits)
  next
    case False
    then show ?thesis using Cons.IH [of arg g] p by auto
  qed
qed simp

lemma replace_args_ex:
  assumes R: "rand_ok R" and ps: "\<forall>(t, v) \<in> set ps. value_type f v = Some t" and "types_of f args ts"
  shows "\<exists>vs g'. replace_args R odds f ps args g = Some (vs, g') \<and> types_of f vs ts \<and> set vs \<subseteq> set args \<union> snd ` set ps \<and>
    global_rng g' = global_rng g"
  using assms(3)
proof (induction args arbitrary: ts g)
  case (Cons arg args)
  obtain t us where t: "ts = t # us" "value_type f arg = Some t" "types_of f args us"
    using Cons.prems by (cases ts) (auto simp: types_of_def)
  obtain v g1 where v: "replace_arg R odds t ps arg g = Some (v, g1)" "v = arg \<or> (t, v) \<in> set ps" "global_rng g1 = global_rng g"
    using replace_arg_ex [OF R] by blast
  obtain vs g' where vs: "replace_args R odds f ps args g1 = Some (vs, g')" "types_of f vs us" "set vs \<subseteq> set args \<union> snd ` set ps"
    "global_rng g' = global_rng g1" using Cons.IH [OF t(3)] by blast
  have "value_type f v = Some t" using v(2) t(2) ps by auto
  moreover have "v \<in> insert arg (snd ` set ps)" using v(2) by force
  ultimately show ?case using v vs t by (auto simp: types_of_def)
qed simp

lemma linked_set_op:
  assumes inv: "linked f0 en dm bodies S f" and b: "b \<in> set (blocks_of f0)" and split: "bodies b = pre @ i # post"
    and d: "dfg_insts f ! i = Op m imms vs"
    and av: "\<forall>v \<in> set ws. v \<in> set vs \<or> avail UNIV dm f b pre v"
    and ty: "map (value_type f) ws = map (value_type f) vs"
  shows "linked f0 en dm bodies S (set_inst i (Op m imms ws) f)"
proof -
  let ?f' = "set_inst i (Op m imms ws) f"
  have se: "same_env f ?f'" by simp
  note eqs = same_env_eqs [OF se]
  have e: "fn_layout ?f' = fn_layout f" "dfg_results ?f' = dfg_results f" "dfg_blocks ?f' = dfg_blocks f" "fn_sig ?f' = fn_sig f" "fn_name ?f' = fn_name f \<and> ext_funcs ?f' = ext_funcs f \<and> signatures ?f' = signatures f"
    "jump_tables ?f' = jump_tables f" by (simp_all add: set_inst_def)
  have others: "dfg_insts ?f' ! j = dfg_insts f ! j" "nth_opt (dfg_insts ?f') j = nth_opt (dfg_insts f) j" if "j \<noteq> i" for j
    using that by (simp_all add: set_inst_def nth_opt_def)
  have blk: "params_wf f c" "lo_insts (fn_layout f) c = bodies c @ branch_of f0 c" "lo_insts (fn_layout f) c \<noteq> []" "body_ok UNIV dm f c (bodies c)"
    "\<And>i. i \<in> set (branch_of f0 c) \<Longrightarrow> dfg_results f ! i = [] \<and> branch_typed dm f (S c) c (bodies c) (targets f0 c) (dfg_insts f ! i)"
    if "c \<in> set (blocks_of f0)" for c
    using inv that unfolding linked_def by blast+
  have fr: "frame_ok f" "wf_layout (fn_layout f)" using inv unfolding linked_def frame_ok_def by blast+
  have i: "i \<in> set (lo_insts (fn_layout f) b)" using blk(2) [OF b] split by simp
  have only: "c = b" if "i \<in> set (lo_insts (fn_layout f) c)" for c using wf_disjoint [OF fr(2)] i that by blast
  have nb: "j \<noteq> i" if "c \<in> set (blocks_of f0)" "j \<in> set (branch_of f0 c)" for c j
    using wf_distinct [OF fr(2) blk(2) [OF b]] only [of c] blk(2) [OF that(1)] that split by auto
  have body: "body_ok UNIV dm ?f' c (bodies c)" if c: "c \<in> set (blocks_of f0)" for c
  proof (cases "c = b")
    case False
    then have "i \<notin> set (bodies c)" using only [of c] blk(2) [OF c] by auto
    then show ?thesis using others(2) by (intro body_ok_mono [OF blk(4) [OF c] same_env_grows [OF se]]) metis
  next
    case True
    have dist: "distinct (bodies b)" using wf_distinct [OF fr(2) blk(2) [OF b]] by simp
    show ?thesis unfolding True body_ok_def
    proof (intro allI impI)
      fix pr k po assume sp: "bodies b = pr @ k # po"
      then have k: "inst_ok UNIV dm f b pr k" "is_op f k" using blk(4) [OF b] unfolding body_ok_def by blast+
      show "inst_ok UNIV dm ?f' b pr k \<and> is_op ?f' k"
      proof (cases "k = i")
        case False
        then show ?thesis using op_mono [OF k same_env_grows [OF se] others(2) [OF False] subset_refl] by blast
      next
        case True
        have "distinct (pre @ i # post)" using dist split by metis
        then have "i \<notin> set pre" "i \<notin> set post" by simp_all
        then have pr: "pr = pre" using append_Cons_eq_iff [of i pre post pr po] sp split True by simp
        have ii: "i < length (dfg_insts f)" using frame_bound [OF fr(1)] i by blast
        then have nth: "nth_opt (dfg_insts f) i = Some (Op m imms vs)" "nth_opt (dfg_insts ?f') i = Some (Op m imms ws)"
          using d by (simp_all add: set_inst_def)
        obtain ty us rs where t: "types_of f vs us" "op_types m ty us = Some rs" "results_ok f i rs" "\<forall>v \<in> set vs. avail UNIV dm f b pre v"
          using k(1) nth(1) unfolding True pr inst_ok_def by (auto simp: inst_uses_def)
        have "types_of f ws us" using t(1) ty unfolding types_of_def by simp
        then have "inst_typed ?f' i (Op m imms ws)" using t(2,3) eqs by auto
        moreover have "\<forall>v \<in> set ws. avail UNIV dm ?f' b pre v" using t(4) av unfolding eqs by blast
        ultimately show ?thesis using nth(2) unfolding True pr inst_ok_def is_op_def by (simp add: inst_uses_def)
      qed
    qed
  qed
  have br: "branch_typed dm ?f' (S c) c (bodies c) (targets f0 c) (dfg_insts ?f' ! j)"
    if c: "c \<in> set (blocks_of f0)" and j: "j \<in> set (branch_of f0 c)" for c j
    using branch_typed_same_env [OF se] blk(5) [OF c j] others(1) [OF nb [OF c j]] e(6) by simp
  have "table_of (dfg_insts ?f' ! j) = table_of (dfg_insts f ! j)" if "c \<in> set (blocks_of f0)" "j \<in> set (branch_of f0 c)" for c j
    using others(1) [OF nb [OF that]] by simp
  then show ?thesis using inv body br blk e unfolding linked_def eqs by simp
qed

lemma next_of_split: "i \<notin> set xs \<Longrightarrow> next_of i (xs @ i # ys) = (case ys of [] \<Rightarrow> None | j # _ \<Rightarrow> Some j)"
proof (induction xs)
  case (Cons x xs)
  then show ?case by (cases xs) auto
qed (cases ys; simp)

lemma next_inst_at:
  assumes "wf_layout (cur_layout c)" and "lo_insts (cur_layout c) b = pre @ i # post" and "cur_pos c = At i"
  shows "next_inst c = (case post of [] \<Rightarrow> Some (None, c\<lparr>cur_pos := After b\<rparr>) | j # _ \<Rightarrow> Some (Some j, c\<lparr>cur_pos := At j\<rparr>))"
proof -
  have "inst_block (cur_layout c) i = Some b" unfolding inst_block_iff [OF assms(1)] assms(2) by simp
  moreover have "i \<notin> set pre" using wf_distinct [OF assms(1,2)] by simp
  ultimately show ?thesis
    using assms(2,3) by (auto simp: next_inst_def next_inst_position_def layout_next_inst_def next_of_split split: list.splits)
qed

text \<open>One replaced instruction, at any place of the block.\<close>

lemma linked_replace:
  assumes R: "rand_ok R" and inv: "linked f0 en dm bodies S f" and cf: "cf_inv f0 en ex" and b: "b \<in> set (blocks_of f0)"
    and at: "lo_insts (fn_layout f) b = pre @ i # post" and ps: "\<forall>(t, v) \<in> set ps. value_type f v = Some t \<and> def_at UNIV f b [] v"
  shows "\<exists>d args g'. nth_opt (dfg_insts f) i = Some d \<and> replace_args R 3 f ps (arguments d) g = Some (args, g') \<and>
    linked f0 en dm bodies S (set_inst i (set_inline_arguments args d) f) \<and> global_rng g' = global_rng g"
proof -
  have sk: "skel_ok f0" using cf by (simp add: cf_inv_def)
  have f: "frame_ok f" "wf_layout (fn_layout f)" "lo_insts (fn_layout f) b = bodies b @ branch_of f0 b" "body_ok UNIV dm f b (bodies b)"
    "\<And>i. i \<in> set (branch_of f0 b) \<Longrightarrow> branch_typed dm f (S b) b (bodies b) (targets f0 b) (dfg_insts f ! i)"
    using inv b unfolding linked_def frame_ok_def by blast+
  have i: "i < length (dfg_insts f)" using frame_bound [OF f(1), of b] at by auto
  define d where "d = dfg_insts f ! i"
  have nth: "nth_opt (dfg_insts f) i = Some d" using i by (simp add: d_def)
  have ps': "\<forall>(t, v) \<in> set ps. value_type f v = Some t" using ps by auto
  have pav: "avail UNIV dm f b xs v" if "v \<in> snd ` set ps" for v xs
    using ps that def_at_mono [of UNIV f b "[]" v UNIV xs] unfolding avail_def by auto
  show ?thesis
  proof (cases "i \<in> set (bodies b)")
    case True
    then obtain pr po where sp: "bodies b = pr @ i # po" by (meson split_list)
    then have ok: "inst_ok UNIV dm f b pr i" "is_op f i" using f(4) unfolding body_ok_def by blast+
    obtain m imms vs where op: "d = Op m imms vs" using ok(2) nth by (auto simp: is_op_def)
    obtain us where us: "types_of f vs us" using ok(1) nth op unfolding inst_ok_def by auto
    obtain ws g' where ws: "replace_args R 3 f ps vs g = Some (ws, g')" "types_of f ws us" "set ws \<subseteq> set vs \<union> snd ` set ps"
      "global_rng g' = global_rng g" using replace_args_ex [OF R ps' us] by blast
    have "linked f0 en dm bodies S (set_inst i (Op m imms ws) f)"
    proof (rule linked_set_op [OF inv b sp])
      show "dfg_insts f ! i = Op m imms vs" using op by (simp add: d_def)
      show "\<forall>v \<in> set ws. v \<in> set vs \<or> avail UNIV dm f b pr v" using ws(3) pav by blast
      show "map (value_type f) ws = map (value_type f) vs" using us ws(2) by (simp add: types_of_def)
    qed
    then show ?thesis using nth op ws by auto
  next
    case False
    then have ib: "i \<in> set (branch_of f0 b)" using at f(3) by (metis Un_iff in_set_conv_decomp set_append)
    note bt = f(5) [OF ib, folded d_def]
    have isb: "is_branch d" and args: "\<forall>v \<in> set (arguments d). value_type f v = Some I32 \<and> avail UNIV dm f b (bodies b) v"
      using bt unfolding branch_typed_def by blast+
    have "types_of f (arguments d) (map (\<lambda>_. I32) (arguments d))" using args by (auto simp: types_of_def)
    then obtain ws g' where ws: "replace_args R 3 f ps (arguments d) g = Some (ws, g')" "types_of f ws (map (\<lambda>_. I32) (arguments d))"
      "set ws \<subseteq> set (arguments d) \<union> snd ` set ps" "global_rng g' = global_rng g" using replace_args_ex [OF R ps'] by blast
    let ?d' = "set_inline_arguments ws d"
    have len: "length ws = length (arguments d)" using ws(2) by (auto simp: types_of_def dest: map_eq_imp_length_eq)
    have d': "is_branch ?d'" "table_of ?d' = table_of d" "data_calls jts ?d' = data_calls jts d" "set (arguments ?d') \<subseteq> set ws" for jts
      using isb len by (cases d; cases ws; auto)+
    have wt: "value_type f v = Some I32 \<and> avail UNIV dm f b (bodies b) v" if "v \<in> set ws" for v
    proof -
      have "map (value_type f) ws = map (\<lambda>_. Some I32) (arguments d)" using ws(2) by (simp add: types_of_def)
      then have "value_type f v \<in> set (map (\<lambda>_. Some I32) (arguments d))" using that by (metis image_eqI list.set_map)
      then have "value_type f v = Some I32" by auto
      then show ?thesis using ws(3) that args pav by blast
    qed
    have "linked f0 en dm bodies (S(b := S b)) (set_inst i ?d' f)"
    proof (rule linked_branch [OF inv same_env_set_inst b branch_of_term(1) [OF sk ib]])
      show "branch_typed dm (set_inst i ?d' f) (S b) b (bodies b) (targets f0 b) (dfg_insts (set_inst i ?d' f) ! i)"
      proof -
        have "branch_typed dm f (S b) b (bodies b) (targets f0 b) ?d'" using bt d' wt unfolding branch_typed_def by (simp add: subset_iff)
        moreover have "dfg_insts (set_inst i ?d' f) ! i = ?d'" "jump_tables (set_inst i ?d' f) = jump_tables f" using i by (simp_all add: set_inst_def)
        ultimately show ?thesis using branch_typed_same_env [of f "set_inst i ?d' f"] by simp
      qed
    qed (use d' i in \<open>auto simp: set_inst_def d_def\<close>)
    then show ?thesis using nth ws by auto
  qed
qed

text \<open>The loop over the rest of the block ends.\<close>

lemma replace_uses_linked:
  assumes R: "rand_ok R" and cf: "cf_inv f0 en ex" and b: "b \<in> set (blocks_of f0)" and "linked f0 en dm bodies S (cur_func c)"
    and "lo_insts (cur_layout c) b = pre @ i # post" and "cur_pos c = At i"
    and "\<forall>(t, v) \<in> set ps. value_type (cur_func c) v = Some t \<and> def_at UNIV (cur_func c) b [] v"
  shows "\<exists>c' g'. replace_uses R ps c g = Some (c', g') \<and> same_env (cur_func c) (cur_func c') \<and>
    linked f0 en dm bodies S (cur_func c') \<and> global_rng g' = global_rng g"
  using assms(4-7)
proof (induction post arbitrary: pre i c g)
  case Nil
  have wf: "wf_layout (cur_layout c)" using Nil.prems(1) by (simp add: linked_def frame_ok_def)
  show ?case using next_inst_at [OF wf Nil.prems(2,3)] Nil.prems(1) by (subst replace_uses.simps) auto
next
  case (Cons j post)
  have wf: "wf_layout (cur_layout c)" using Cons.prems(1) by (simp add: linked_def frame_ok_def)
  define c1 where "c1 = c\<lparr>cur_pos := At j\<rparr>"
  have nxt: "next_inst c = Some (Some j, c1)" using next_inst_at [OF wf Cons.prems(2,3)] by (simp add: c1_def)
  have c1: "cur_func c1 = cur_func c" "lo_insts (cur_layout c1) b = (pre @ [i]) @ j # post" "cur_pos c1 = At j"
    using Cons.prems(2) by (simp_all add: c1_def)
  obtain d args g1 where d: "nth_opt (dfg_insts (cur_func c)) j = Some d" "replace_args R 3 (cur_func c) ps (arguments d) g = Some (args, g1)"
    "linked f0 en dm bodies S (set_inst j (set_inline_arguments args d) (cur_func c))" "global_rng g1 = global_rng g"
    using linked_replace [OF R Cons.prems(1) cf b _ Cons.prems(4), of "pre @ [i]" j post g] Cons.prems(2) by auto
  show ?case
  proof (cases "inst_opcode d \<in> set memory_opcodes")
    case True
    then have "replace_uses R ps c g = replace_uses R ps c1 g" using nxt d c1(1) by (subst replace_uses.simps) simp
    moreover have "\<exists>c' g'. replace_uses R ps c1 g = Some (c', g') \<and> same_env (cur_func c1) (cur_func c') \<and>
      linked f0 en dm bodies S (cur_func c') \<and> global_rng g' = global_rng g"
      using Cons.IH [OF _ c1(2,3), of g] Cons.prems(1,4) c1(1) by simp
    ultimately show ?thesis using c1(1) by simp
  next
    case False
    let ?f2 = "set_inst j (set_inline_arguments args d) (cur_func c)"
    define c2 where "c2 = c1\<lparr>cur_func := ?f2\<rparr>"
    have se: "same_env (cur_func c) ?f2" by simp
    have run: "replace_uses R ps c g = replace_uses R ps c2 g1" using nxt d c1(1) False by (subst replace_uses.simps) (simp add: c2_def)
    have "def_at UNIV ?f2 b [] v" if "def_at UNIV (cur_func c) b [] v" for v
      using grows_def_at [OF same_env_grows [OF se] that] by simp
    then have ps: "\<forall>(t, v) \<in> set ps. value_type (cur_func c2) v = Some t \<and> def_at UNIV (cur_func c2) b [] v"
      using Cons.prems(4) same_env_eqs(1) [OF se] by (auto simp: c2_def)
    have lay: "lo_insts (cur_layout c2) b = (pre @ [i]) @ j # post" using Cons.prems(2) by (simp add: c2_def set_inst_def)
    have "\<exists>c' g'. replace_uses R ps c2 g1 = Some (c', g') \<and> same_env (cur_func c2) (cur_func c') \<and>
      linked f0 en dm bodies S (cur_func c') \<and> global_rng g' = global_rng g1"
      by (rule Cons.IH [OF _ lay _ ps]) (use d(3) c1(3) in \<open>simp_all add: c2_def\<close>)
    then show ?thesis using run same_env_trans [OF se] d(4) by (auto simp: c2_def)
  qed
qed

end
