(* ===== verification/Join_Loop.thy ===== *)
theory Join_Loop
  imports Join_Sound
begin

text \<open>
  The second loop of the function generator as a whole: joining one block always succeeds and keeps
  the function well typed (\<open>linked\<close> without exceptions); so does the loop over all blocks.
\<close>

subsection \<open>The control flow is kept\<close>

lemma linked_last:
  assumes inv: "linked f0 en dm bodies S f" and cf: "cf_inv f0 en ex" and b: "b \<in> set (blocks_of f0)"
  obtains (branch) i where "branch_of f0 b = [i]" and "last_inst (fn_layout f) b = Some i" and "i < length (dfg_insts f)"
    and "branch_typed dm f (S b) b (bodies b) (targets f0 b) (dfg_insts f ! i)"
  | (op) i where "branch_of f0 b = []" and "last_inst (fn_layout f) b = Some i" and "is_op f i" and "targets f0 b = []"
proof -
  have sk: "skel_ok f0" using cf by (simp add: cf_inv_def)
  have f: "frame_ok f" "lo_insts (fn_layout f) b = bodies b @ branch_of f0 b" "lo_insts (fn_layout f) b \<noteq> []" "body_ok UNIV dm f b (bodies b)"
    "\<And>i. i \<in> set (branch_of f0 b) \<Longrightarrow> branch_typed dm f (S b) b (bodies b) (targets f0 b) (dfg_insts f ! i)"
    using inv b unfolding linked_def by blast+
  show thesis
  proof (cases "branch_of f0 b")
    case Nil
    then have body: "lo_insts (fn_layout f) b = bodies b" "bodies b \<noteq> []" using f(2,3) by simp_all
    have "targets f0 b = []" using Nil by (simp add: targets_calls calls_of_def term_of_def last_inst_def)
    moreover have "last_inst (fn_layout f) b = Some (last (bodies b))" using body by (simp add: last_inst_def)
    moreover have "is_op f (last (bodies b))" by (rule body_op [OF f(4) last_in_set [OF body(2)]])
    ultimately show thesis using op Nil by blast
  next
    case (Cons i xs)
    then have i: "branch_of f0 b = [i]" using branch_of_term(1) [OF sk, of i b] by simp
    then have "last_inst (fn_layout f) b = Some i" using f(2) by (simp add: last_inst_def)
    moreover have "i < length (dfg_insts f)" using frame_bound [OF f(1), of b] f(2) i by auto
    ultimately show thesis using branch i f(5) by simp
  qed
qed

lemma linked_targets:
  assumes inv: "linked f0 en dm bodies S f" and cf: "cf_inv f0 en ex" and b: "b \<in> set (blocks_of f0)"
  shows "targets f b = targets f0 b" and "visit_block_succs f b \<noteq> None"
proof -
  show "targets f b = targets f0 b"
    using assms
  proof (cases rule: linked_last)
    case (branch i)
    then show ?thesis by (simp add: targets_calls calls_of_def term_of_def branch_typed_def)
  next
    case (op i)
    then show ?thesis by (auto simp: targets_calls calls_of_def term_of_def is_op_def)
  qed
  show "visit_block_succs f b \<noteq> None"
    using assms
  proof (cases rule: linked_last)
    case (branch i)
    then show ?thesis by (cases "dfg_insts f ! i") (auto simp: visit_block_succs_def branch_typed_def)
  next
    case (op i)
    then show ?thesis by (auto simp: visit_block_succs_def is_op_def)
  qed
qed

lemma linked_flow:
  assumes inv: "linked f0 en dm bodies S f" and cf: "cf_inv f0 en ex"
  shows "wf_flow f" and "flow_edges f = flow_edges f0" and "flow_entry f = en" and "flow_nodes f = set (blocks_of f0)"
proof -
  have lay: "wf_layout (fn_layout f)" "blocks_of f = blocks_of f0" using inv by (simp_all add: linked_def frame_ok_def)
  note wf0 = cf_inv_flow [OF cf]
  have "flow_ok f" using lay linked_targets(2) [OF inv cf] by (simp add: flow_ok_def list_all_iff)
  then show "wf_flow f" using wf0(1) lay linked_targets(1) [OF inv cf] by (simp add: wf_flow_def list_all_iff flow_nodes_def)
  show "flow_edges f = flow_edges f0" using lay linked_targets(1) [OF inv cf] by (auto simp: flow_edges_def)
  show "flow_entry f = en" "flow_nodes f = set (blocks_of f0)" using wf0(2) lay by (simp_all add: flow_entry_def flow_nodes_def)
qed

subsection \<open>One join\<close>

lemma pass_all_linked:
  assumes R: "rand_ok R" and doms: "doms_ok doms dm f0" and cf: "cf_inv f0 en ex"
    and "linked f0 en dm bodies S (cur_func c)" and "recorded_all UNIV (cur_func c) defs"
    and ps: "\<forall>p \<in> set ps. p \<in> set (blocks_of f0) \<and> b \<in> set (targets f0 p) \<and>
      (\<forall>t \<in> set ts. get_dominator_values_with_type (env_at doms defs p) t \<noteq> [])"
    and "\<forall>p. S p \<subseteq> {b}" and "types_of (cur_func c) (dfg_blocks (cur_func c) ! b) ts"
  shows "\<exists>c' g'. foldM (pass_args R doms defs b ts) ps (c, g) = Some (c', g') \<and> same_env (cur_func c) (cur_func c') \<and>
    linked f0 en dm bodies (\<lambda>q. if q \<in> set ps then {} else S q) (cur_func c') \<and> global_rng g' = global_rng g"
  using assms(4-8)
proof (induction ps arbitrary: S c g)
  case (Cons p ps)
  obtain c1 g1 where s: "pass_args R doms defs b ts p (c, g) = Some (c1, g1)" "same_env (cur_func c) (cur_func c1)"
    "linked f0 en dm bodies (S(p := {})) (cur_func c1)" "global_rng g1 = global_rng g"
    using pass_args_linked [OF R Cons.prems(1,2) doms cf, of p b ts g] Cons.prems(3-5) by auto
  have S1: "\<forall>q. (S(p := {})) q \<subseteq> {b}" using Cons.prems(4) by simp
  have "dfg_blocks (cur_func c1) = dfg_blocks (cur_func c)" using s(2) by (simp add: same_env_def)
  then obtain c' g' where IH: "foldM (pass_args R doms defs b ts) ps (c1, g1) = Some (c', g')" "same_env (cur_func c1) (cur_func c')"
    "linked f0 en dm bodies (\<lambda>q. if q \<in> set ps then {} else (S(p := {})) q) (cur_func c')" "global_rng g' = global_rng g1"
    using Cons.IH [OF s(3) _ _ S1, of g1] Cons.prems(2,3,5) same_env_eqs(3,6) [OF s(2)] by auto
  have "(\<lambda>q. if q \<in> set ps then {} else (S(p := {})) q) = (\<lambda>q. if q \<in> set (p # ps) then {} else S q)" by (rule ext) simp
  with IH(3) have "linked f0 en dm bodies (\<lambda>q. if q \<in> set (p # ps) then {} else S q) (cur_func c')" by (simp only:)
  then show ?case using s(1,4) IH(1,4) same_env_trans [OF s(2) IH(2)] by (intro exI [of _ c'] exI [of _ g']) simp
qed auto

lemma linked_no_exception:
  assumes inv: "linked f0 en dm bodies S f" and "\<And>p c. p \<in> set (blocks_of f0) \<Longrightarrow> c \<in> S p \<Longrightarrow> c \<notin> set (targets f0 p)"
  shows "linked f0 en dm bodies (\<lambda>_. {}) f"
proof -
  have "branch_typed dm f {} p body (targets f0 p) d" if "branch_typed dm f (S p) p body (targets f0 p) d" "p \<in> set (blocks_of f0)" for p body d
  proof -
    have "call_typed dm f {} p body bc" if bc: "bc \<in> set (data_calls (jump_tables f) d)" "call_typed dm f (S p) p body bc" for bc
    proof -
      have "bc_block bc \<in> set (targets f0 p)" using \<open>branch_typed dm f (S p) p body (targets f0 p) d\<close> bc(1)
        unfolding branch_typed_def by (metis image_eqI list.set_map)
      then show ?thesis using bc(2) assms(2) that(2) \<open>p \<in> set (blocks_of f0)\<close> unfolding call_typed_def by blast
    qed
    then show ?thesis using that(1) unfolding branch_typed_def by blast
  qed
  then show ?thesis using inv unfolding linked_def by blast
qed

lemma params_def_at: "params_wf f b \<Longrightarrow> v \<in> set (dfg_blocks f ! b) \<Longrightarrow> b \<in> B \<Longrightarrow> def_at B f b is v"
  by (fastforce simp: params_wf_def in_set_conv_nth def_at_def)

definition join_inv :: "func \<Rightarrow> block \<Rightarrow> (block \<Rightarrow> block \<Rightarrow> bool) \<Rightarrow> (block \<Rightarrow> inst list) \<Rightarrow> clif_type set \<Rightarrow> block_map \<Rightarrow> func \<Rightarrow> block_map \<Rightarrow> bool" where
  "join_inv f0 en dm bodies T refs f defs \<longleftrightarrow> linked f0 en dm bodies (\<lambda>_. {}) f \<and> recorded_all UNIV f defs \<and>
     refs_ok en dm (set (blocks_of f0)) defs refs \<and> (\<forall>b. map_of defs b \<noteq> None \<longleftrightarrow> b \<in> set (blocks_of f0)) \<and>
     (\<forall>tvs. map_of defs en = Some tvs \<longrightarrow> T \<subseteq> get_type ` set tvs)"

lemma refs_ok_grows:
  assumes "refs_ok en dm P defs refs" and "\<And>d tvs. map_of defs d = Some tvs \<Longrightarrow> \<exists>tvs'. map_of defs' d = Some tvs' \<and> set tvs \<subseteq> set tvs'"
  shows "refs_ok en dm P defs' refs"
  using assms unfolding refs_ok_def by (meson subsetD)

lemma types_of_zip: "types_of f vs ts \<Longrightarrow> (t, v) \<in> set (zip ts vs) \<Longrightarrow> value_type f v = Some t"
proof -
  assume t: "types_of f vs ts" and "(t, v) \<in> set (zip ts vs)"
  then obtain n where n: "n < length ts" "n < length vs" "t = ts ! n" "v = vs ! n" by (auto simp: in_set_zip)
  have "map (value_type f) vs ! n = map Some ts ! n" using t by (simp add: types_of_def)
  then show "value_type f v = Some t" using n by simp
qed

lemma join_block_linked:
  assumes R: "rand_ok R" and cf: "cf_inv f0 en ex" and dm: "dm = dominates (flow_edges f0) en" and doms: "doms_ok doms dm f0"
    and inv: "join_inv f0 en dm bodies T refs (cur_func c) defs" and b: "b \<in> set (blocks_of f0)"
    and empty: "b \<noteq> en \<Longrightarrow> dfg_blocks (cur_func c) ! b = []"
  shows "\<exists>c' defs' g'. join_block R doms refs b (c, defs, g) = Some (c', defs', g') \<and> join_inv f0 en dm bodies T refs (cur_func c') defs' \<and>
    (\<forall>d. d \<noteq> b \<longrightarrow> dfg_blocks (cur_func c') ! d = dfg_blocks (cur_func c) ! d) \<and> global_rng g' = global_rng g"
proof -
  let ?f = "cur_func c"
  have lk: "linked f0 en dm bodies (\<lambda>_. {}) ?f" and rec: "recorded_all UNIV ?f defs" and refs: "refs_ok en dm (set (blocks_of f0)) defs refs"
    and keys: "\<And>d. map_of defs d \<noteq> None \<longleftrightarrow> d \<in> set (blocks_of f0)" and T: "\<forall>tvs. map_of defs en = Some tvs \<longrightarrow> T \<subseteq> get_type ` set tvs"
    using inv unfolding join_inv_def by blast+
  note flow = linked_flow [OF lk cf]
  have wf: "wf_layout (fn_layout ?f)" "blocks_of ?f = blocks_of f0" using lk by (simp_all add: linked_def frame_ok_def)
  obtain G where G: "with_function ?f = Some G" "cfg_of ?f (flow_nodes ?f) G" using with_function_flow [OF flow(1)] by blast
  define preds where "preds = map fst (pred_iter G b)"
  have preds: "p \<in> set (blocks_of f0) \<and> b \<in> set (targets f0 p)" if "p \<in> set preds" for p
    using that pred_iter_iff [OF G(2)] linked_targets(1) [OF lk cf] flow(4) unfolding preds_def by auto
  have all_preds: "p \<in> set preds" if "p \<in> set (blocks_of f0)" "b \<in> set (targets f0 p)" for p
  proof -
    have "targets ?f p \<noteq> []" using that linked_targets(1) [OF lk cf that(1)] by auto
    then obtain i where "last_inst (fn_layout ?f) p = Some i"
      by (cases "last_inst (fn_layout ?f) p") (auto simp: targets_calls calls_of_def term_of_def)
    then have "(p, i) \<in> set (pred_iter G b)" using pred_iter_iff [OF G(2)] that linked_targets(1) [OF lk cf that(1)] flow(4) by simp
    then show ?thesis unfolding preds_def by force
  qed
  show ?thesis
  proof (cases "2 \<le> length preds")
    case False
    then show ?thesis using inv G by (simp add: join_block_def preds_def Let_def)
  next
    case True
    then obtain p where "p \<in> set preds" by (cases preds) auto
    then have ben: "b \<noteq> en" using preds cf unfolding cf_inv_def by blast
    obtain us where us: "map_of refs b = Some us" using refs b unfolding refs_ok_def by blast
    define types0 where "types0 = remdups (map get_type us)"
    obtain types g1 where tg: "thread_choose_multiple R types0 (length types0) g = (types, g1)" by force
    note tp = thread_choose_multiple_props [OF R tg]
    have pw: "params_wf ?f b" using lk b unfolding linked_def by blast
    have "types_of ?f (dfg_blocks ?f ! b) []" using empty [OF ben] by (simp add: types_of_def)
    then obtain c1 defs1 where j: "foldM (join_param b) types (c, defs, []) = Some (c1, defs1, dfg_blocks (cur_func c1) ! b)"
      "same_code b ?f (cur_func c1)" "grows UNIV ?f (cur_func c1)" "params_wf (cur_func c1) b"
      "types_of (cur_func c1) (dfg_blocks (cur_func c1) ! b) types" "recorded_all UNIV (cur_func c1) defs1"
      "\<And>d tvs. map_of defs d = Some tvs \<Longrightarrow> \<exists>tvs'. map_of defs1 d = Some tvs' \<and> set tvs \<subseteq> set tvs'"
      "\<And>d. map_of defs1 d \<noteq> None \<longleftrightarrow> map_of defs d \<noteq> None"
      using join_params [OF pw _ empty [OF ben] _ rec, of "[]" types] keys b by auto
    have lk1: "linked f0 en dm bodies (\<lambda>_. {b}) (cur_func c1)" by (rule linked_params [OF lk j(2-4) ben])
    have refs1: "refs_ok en dm (set (blocks_of f0)) defs1 refs" by (rule refs_ok_grows [OF refs j(7)])
    have cands: "get_dominator_values_with_type (env_at doms defs1 p) t \<noteq> []" if p: "p \<in> set preds" and t: "t \<in> set types" for p t
    proof -
      have "t \<in> get_type ` set us" using t tp(2) by (auto simp: types0_def)
      then obtain d v tvs where d: "d \<noteq> b" "dm d b" "map_of defs1 d = Some tvs" "TypedValue v t \<in> set tvs"
        using refs1 us ben unfolding refs_ok_def by blast
      have "(p, b) \<in> flow_edges f0" using preds [OF p] by (simp add: flow_edges_def)
      then have "dm d p" using dominates_pred d(1,2) unfolding dm by metis
      moreover have "d \<in> set (blocks_of f0)" using d(3) j(8) keys by (metis option.distinct(1))
      ultimately have "d \<in> set (dom_list doms p)" using dom_list_iff [OF doms] preds [OF p] by simp
      then have "v \<in> set (get_dominator_values_with_type (env_at doms defs1 p) t)" using d(3,4) env_candidate by blast
      then show ?thesis by auto
    qed
    obtain c2 g2 where p: "foldM (pass_args R doms defs1 b types) preds (c1, g1) = Some (c2, g2)" "same_env (cur_func c1) (cur_func c2)"
      "linked f0 en dm bodies (\<lambda>q. if q \<in> set preds then {} else {b}) (cur_func c2)" "global_rng g2 = global_rng g1"
      using pass_all_linked [OF R doms cf lk1 j(6) _ _ j(5), of preds g1] preds cands by auto
    have lk2: "linked f0 en dm bodies (\<lambda>_. {}) (cur_func c2)"
      by (rule linked_no_exception [OF p(3)]) (use all_preds in \<open>auto split: if_splits\<close>)
    then have "lo_insts (cur_layout c2) b \<noteq> []" and wf2: "wf_layout (cur_layout c2)" using b unfolding linked_def frame_ok_def by blast+
    then obtain i post where ip: "lo_insts (cur_layout c2) b = [] @ i # post" by (auto simp: neq_Nil_conv)
    define c3 where "c3 = c2\<lparr>cur_pos := At i\<rparr>"
    have "inst_block (cur_layout c2) i = Some b" unfolding inst_block_iff [OF wf2] ip by simp
    then have goto: "goto_first_inst b c2 = Some c3" using ip by (simp add: goto_first_inst_def first_inst_def goto_inst_def c3_def)
    have blk2: "dfg_blocks (cur_func c2) = dfg_blocks (cur_func c1)" using p(2) by (simp add: same_env_def)
    have "value_type (cur_func c2) v = Some t \<and> def_at UNIV (cur_func c2) b [] v" if "(t, v) \<in> set (zip types (dfg_blocks (cur_func c1) ! b))" for t v
    proof -
      have pw2: "params_wf (cur_func c2) b" and ty2: "types_of (cur_func c2) (dfg_blocks (cur_func c1) ! b) types"
        using j(4,5) same_env_eqs(3,5) [OF p(2)] by simp_all
      have "v \<in> set (dfg_blocks (cur_func c2) ! b)" using that blk2 by (auto dest: set_zip_rightD)
      then show ?thesis using types_of_zip [OF ty2 that] params_def_at [OF pw2] by simp
    qed
    then have ps: "\<forall>(t, v) \<in> set (zip types (dfg_blocks (cur_func c1) ! b)). value_type (cur_func c3) v = Some t \<and> def_at UNIV (cur_func c3) b [] v"
      by (auto simp: c3_def)
    have c3: "linked f0 en dm bodies (\<lambda>_. {}) (cur_func c3)" "lo_insts (cur_layout c3) b = [] @ i # post" "cur_pos c3 = At i"
      using lk2 ip by (simp_all add: c3_def)
    obtain c4 g4 where r: "replace_uses R (zip types (dfg_blocks (cur_func c1) ! b)) c3 g2 = Some (c4, g4)" "same_env (cur_func c3) (cur_func c4)"
      "linked f0 en dm bodies (\<lambda>_. {}) (cur_func c4)" "global_rng g4 = global_rng g2"
      using replace_uses_linked [OF R cf b c3 ps] by blast
    have run: "join_block R doms refs b (c, defs, g) = Some (c4, defs1, g4)"
      using True G us tg j(1) p(1) goto r(1) by (simp add: join_block_def preds_def Let_def get_value_type_intersection_def types0_def)
    have se: "same_env (cur_func c1) (cur_func c4)" using same_env_trans [OF p(2)] r(2) by (simp add: c3_def)
    have rec4: "recorded_all UNIV (cur_func c4) defs1" using j(6) same_env_eqs(6) [OF se] by simp
    have T4: "T \<subseteq> get_type ` set tvs" if tvs: "map_of defs1 en = Some tvs" for tvs
    proof -
      obtain ws where ws: "map_of defs en = Some ws" using j(8) [of en] tvs by auto
      then have "set ws \<subseteq> set tvs" using j(7) [OF ws] tvs by simp
      moreover have "T \<subseteq> get_type ` set ws" using T ws by simp
      ultimately show ?thesis by blast
    qed
    have "map_of defs1 d \<noteq> None \<longleftrightarrow> d \<in> set (blocks_of f0)" for d using j(8) [of d] keys [of d] by simp
    then have "join_inv f0 en dm bodies T refs (cur_func c4) defs1"
      unfolding join_inv_def using r(3) rec4 refs1 T4 by (intro conjI allI impI)
    moreover have "dfg_blocks (cur_func c4) ! d = dfg_blocks ?f ! d" if "d \<noteq> b" for d
      using that j(2) se by (simp add: same_env_def same_code_def)
    ultimately show ?thesis using run r(4) p(4) tp(4) by auto
  qed
qed

subsection \<open>The loop\<close>

theorem join_loop:
  assumes R: "rand_ok R" and cf: "cf_inv f0 en ex" and dm: "dm = dominates (flow_edges f0) en" and doms: "doms_ok doms dm f0"
    and "join_inv f0 en dm bodies T refs (cur_func c) defs" and "distinct bs" and "set bs \<subseteq> set (blocks_of f0)"
    and "\<forall>b \<in> set bs. b \<noteq> en \<longrightarrow> dfg_blocks (cur_func c) ! b = []"
  shows "\<exists>c' defs' g'. foldM (join_block R doms refs) bs (c, defs, g) = Some (c', defs', g') \<and>
    join_inv f0 en dm bodies T refs (cur_func c') defs' \<and> global_rng g' = global_rng g"
  using assms(5-8)
proof (induction bs arbitrary: c defs g)
  case (Cons b bs)
  obtain c1 defs1 g1 where s: "join_block R doms refs b (c, defs, g) = Some (c1, defs1, g1)" "join_inv f0 en dm bodies T refs (cur_func c1) defs1"
    "\<And>d. d \<noteq> b \<Longrightarrow> dfg_blocks (cur_func c1) ! d = dfg_blocks (cur_func c) ! d" "global_rng g1 = global_rng g"
    using join_block_linked [OF R cf dm doms Cons.prems(1), of b g] Cons.prems(3,4) by auto
  have "\<forall>d \<in> set bs. d \<noteq> en \<longrightarrow> dfg_blocks (cur_func c1) ! d = []"
  proof (intro ballI impI)
    fix d assume d: "d \<in> set bs" "d \<noteq> en"
    then have "d \<noteq> b" using Cons.prems(2) by auto
    then show "dfg_blocks (cur_func c1) ! d = []" using s(3) Cons.prems(4) d by simp
  qed
  from Cons.IH [OF s(2) _ _ this, of g1] Cons.prems(2,3) s(1,4) show ?case by auto
qed auto

end
