(* ===== verification/Function_Sound.thy ===== *)
theory Function_Sound
  imports Join_Loop
begin

text \<open>
  The function generator as a whole. With a control flow skeleton of the constructor, a legal
  configuration whose types cover the returns, and a first loop that returns, the generator returns a
  function that satisfies \<open>valid_func\<close>.
\<close>

subsection \<open>From the invariant to well-formed functions\<close>

lemma block_okI:
  assumes "params_wf f b" and lay: "lo_insts (fn_layout f) b = body @ [t]" and body: "body_ok UNIV dm f b body"
    and t: "inst_ok UNIV dm f b body t" "is_terminator (dfg_insts f ! t)"
  shows "block_ok dm f b"
  unfolding block_ok_def
proof (intro conjI allI impI)
  show "b < length (dfg_blocks f)" using assms(1) by (simp add: params_wf_def)
  show "\<exists>u. nth_opt (dfg_values f) (dfg_blocks f ! b ! k) = Some (ValParam u k b)" if "k < length (dfg_blocks f ! b)" for k
    using assms(1) that by (simp add: params_wf_def)
  fix pre i post assume "lo_insts (fn_layout f) b = pre @ i # post"
  then have sp: "body @ [t] = pre @ i # post" using lay by simp
  show "inst_ok UNIV dm f b pre i" and "is_terminator (dfg_insts f ! i) = (post = [])"
  proof -
    have "inst_ok UNIV dm f b pre i \<and> is_terminator (dfg_insts f ! i) = (post = [])"
    proof (cases post rule: rev_cases)
      case Nil
      then show ?thesis using sp t by simp
    next
      case (snoc ys y)
      then have bd: "body = pre @ i # ys" using sp by simp
      then have "inst_ok UNIV dm f b pre i" "is_op f i" using body unfolding body_ok_def by blast+
      then show ?thesis using snoc by (auto simp: is_op_def)
    qed
    then show "inst_ok UNIV dm f b pre i" and "is_terminator (dfg_insts f ! i) = (post = [])" by blast+
  qed
qed

lemma branch_typed_inst_ok:
  assumes "branch_typed dm f {} b body ts (dfg_insts f ! i)" and "i < length (dfg_insts f)" and "frame_ok f" and "dfg_results f ! i = []"
  shows "inst_ok UNIV dm f b body i" and "is_terminator (dfg_insts f ! i)"
proof -
  have res: "results_ok f i []" using assms(2-4) by (simp add: results_ok_def frame_ok_def)
  have I32: "ts_contains tv_iB I32" by code_simp
  have calls: "\<And>bc. bc \<in> set (data_calls (jump_tables f) (dfg_insts f ! i)) \<Longrightarrow> call_ok f bc \<and> (\<forall>v \<in> set (bc_args bc). avail UNIV dm f b body v)"
    using assms(1) unfolding branch_typed_def call_typed_def call_ok_def by blast
  have args: "\<And>v. v \<in> set (arguments (dfg_insts f ! i)) \<Longrightarrow> value_type f v = Some I32 \<and> avail UNIV dm f b body v"
    using assms(1) unfolding branch_typed_def by blast
  have kind: "is_branch (dfg_insts f ! i)" "\<And>t. table_of (dfg_insts f ! i) = Some t \<Longrightarrow> t < length (jump_tables f)"
    using assms(1) unfolding branch_typed_def by blast+
  have "inst_typed f i (dfg_insts f ! i)"
  proof (cases "dfg_insts f ! i")
    case (Jump bc)
    then show ?thesis using res calls by simp
  next
    case (Brif v b1 b2)
    then show ?thesis using res calls args I32 by simp
  next
    case (BranchTable v t)
    then show ?thesis using res calls args kind by simp
  qed (use kind in auto)
  then show "inst_ok UNIV dm f b body i" using assms(2) calls args unfolding inst_ok_def inst_uses_def by auto
  show "is_terminator (dfg_insts f ! i)" using kind(1) by (cases "dfg_insts f ! i") auto
qed

subsection \<open>The return\<close>

text \<open>A function whose blocks consist of operations and a terminator, with the control flow of \<open>f0\<close>.\<close>

abbreviation flow_dom :: "func \<Rightarrow> block \<Rightarrow> block \<Rightarrow> bool" where
  "flow_dom f \<equiv> dominates (flow_edges f) (flow_entry f)"

text \<open>A complete function with its dominators and its recorded definitions: what the insertion of calls
  starts from. The entry block has a value of each type in \<open>T\<close>.\<close>

definition callable :: "clif_type set \<Rightarrow> dom_map \<Rightarrow> block_map \<Rightarrow> func \<Rightarrow> bool" where
  "callable T doms defs f \<longleftrightarrow> valid_func f \<and> frame_ok f \<and> doms_ok doms (flow_dom f) f \<and> map fst doms = blocks_of f \<and>
     recorded_all UNIV f defs \<and> 2 \<le> length (blocks_of f) \<and>
     (\<exists>tvs. map_of defs (flow_entry f) = Some tvs \<and> T \<subseteq> get_type ` set tvs)"

lemma valid_funcI:
  assumes wf: "wf_layout (fn_layout f)" and cf: "cf_inv f0 en ex" and bl: "blocks_of f = blocks_of f0"
    and tg: "\<And>b. b \<in> set (blocks_of f0) \<Longrightarrow> visit_block_succs f b \<noteq> None \<and> targets f b = targets f0 b"
    and blk: "\<And>b. b \<in> set (blocks_of f0) \<Longrightarrow> \<exists>body t. params_wf f b \<and> lo_insts (fn_layout f) b = body @ [t] \<and>
      body_ok UNIV (dominates (flow_edges f0) en) f b body \<and> inst_ok UNIV (dominates (flow_edges f0) en) f b body t \<and> is_terminator (dfg_insts f ! t)"
    and en: "types_of f (dfg_blocks f ! en) (sig_params (fn_sig f))"
  shows "valid_func f" and "flow_edges f = flow_edges f0" and "flow_entry f = en"
proof -
  note wf0 = cf_inv_flow [OF cf]
  have "flow_ok f" using wf tg bl by (simp add: flow_ok_def list_all_iff)
  then have flow: "wf_flow f" using wf0(1) bl tg by (simp add: wf_flow_def list_all_iff flow_nodes_def)
  have e: "flow_edges f = flow_edges f0" "flow_entry f = en" using bl tg wf0(2) by (auto simp: flow_edges_def flow_entry_def)
  have "lo_insts (fn_layout f) b \<noteq> [] \<and> block_ok (dominates (flow_edges f0) en) f b" if b: "b \<in> set (blocks_of f0)" for b
  proof -
    obtain body t where "params_wf f b" "lo_insts (fn_layout f) b = body @ [t]" "body_ok UNIV (dominates (flow_edges f0) en) f b body"
      "inst_ok UNIV (dominates (flow_edges f0) en) f b body t" "is_terminator (dfg_insts f ! t)" using blk [OF b] by blast
    then show ?thesis using block_okI [of f b body t] by simp
  qed
  then show "valid_func f" using flow e bl en unfolding valid_func_def by simp
  show "flow_edges f = flow_edges f0" "flow_entry f = en" by (rule e)+
qed

lemma exit_branch:
  assumes cf: "cf_inv f0 en ex"
  shows "branch_of f0 ex = []"
proof (rule ccontr)
  assume "branch_of f0 ex \<noteq> []"
  then obtain i where i: "i \<in> set (branch_of f0 ex)" using hd_in_set by blast
  have "ex \<in> set (blocks_of f0)" using cf by (simp add: cf_inv_def)
  then have "targets f0 ex = []" using cf_inv_exit [OF cf] by blast
  then show False using cf_inv_term(1,2) [OF cf i] by (cases "dfg_insts f0 ! i") (auto simp: all_branches_def split: if_splits)
qed

lemma linked_return:
  assumes inv: "linked f0 en dm bodies (\<lambda>_. {}) f" and cf: "cf_inv f0 en ex" and dm: "dm = dominates (flow_edges f0) en"
    and sg: "sig_params sg = sig_params (fn_sig f0)" and vs: "types_of f vs (sig_returns sg)" "\<forall>v \<in> set vs. avail UNIV dm f ex (bodies ex) v"
    and f': "f' = put_inst ex (bodies ex) [] (Return vs) [] (f\<lparr>fn_sig := sg\<rparr>)"
  shows "valid_func f'" and "frame_ok f'" and "grows UNIV f f'" and "flow_edges f' = flow_edges f0" and "flow_entry f' = en"
proof -
  let ?f1 = "f\<lparr>fn_sig := sg\<rparr>" let ?n = "length (dfg_insts f)"
  have ex: "ex \<in> set (blocks_of f0)" using cf by (simp add: cf_inv_def)
  have f: "frame_ok f" "blocks_of f = blocks_of f0" "types_of f (dfg_blocks f ! en) (sig_params (fn_sig f0))"
    using inv by (simp_all add: linked_def)
  have blk: "params_wf f c" "lo_insts (fn_layout f) c = bodies c @ branch_of f0 c" "body_ok UNIV dm f c (bodies c)"
    "\<And>i. i \<in> set (branch_of f0 c) \<Longrightarrow> dfg_results f ! i = []"
    if "c \<in> set (blocks_of f0)" for c
    using inv that unfolding linked_def by blast+
  note exit = exit_branch [OF cf]
  have lay: "lo_insts (fn_layout f) ex = bodies ex" using blk(2) [OF ex] exit by simp
  show gr: "grows UNIV f f'" using grows_put [of ?f1 ex "bodies ex" "[]" UNIV "Return vs" "[]"] lay unfolding f' grows_def by simp
  have fr1: "frame_ok ?f1" using f(1) by (simp add: frame_ok_def)
  show fr': "frame_ok f'" unfolding f' by (rule frame_put [OF fr1]) (use lay ex f(2) in simp_all)
  have old: "nth_opt (dfg_insts f') i = nth_opt (dfg_insts f) i" "dfg_insts f' ! i = dfg_insts f ! i" "dfg_results f' ! i = dfg_results f ! i" if "i < ?n" for i
    using that f(1) by (simp_all add: f' nth_opt_def nth_append frame_ok_def)
  have body: "body_ok UNIV dm f' c (bodies c)" if c: "c \<in> set (blocks_of f0)" for c
    by (rule body_ok_mono [OF blk(3) [OF c] gr old(1)]) (use frame_bound [OF f(1), of c] blk(2) [OF c] in auto)
  have pw: "params_wf f' c" if "c \<in> set (blocks_of f0)" for c by (rule params_wf_grows [OF blk(1) [OF that] gr]) (simp add: f')
  have dm': "types_of f' (dfg_blocks f' ! en) (sig_params (fn_sig f'))" using grows_types_of [OF gr f(3)] sg by (simp add: f')
  have key: "(visit_block_succs f' b \<noteq> None \<and> targets f' b = targets f0 b) \<and>
    (\<exists>body t. params_wf f' b \<and> lo_insts (fn_layout f') b = body @ [t] \<and> body_ok UNIV dm f' b body \<and> inst_ok UNIV dm f' b body t \<and>
      is_terminator (dfg_insts f' ! t))" if b: "b \<in> set (blocks_of f0)" for b
    using inv cf b
  proof (cases rule: linked_last)
    case (branch i)
    then have bx: "b \<noteq> ex" using exit by auto
    then have l': "lo_insts (fn_layout f') b = bodies b @ [i]" using blk(2) [OF b] branch(1) by (simp add: f')
    have bt: "branch_typed dm f' {} b (bodies b) (targets f0 b) (dfg_insts f' ! i)"
    proof -
      have "call_typed dm f' {} b (bodies b) bc" if "call_typed dm f {} b (bodies b) bc" for bc
        by (rule call_typed_grows [OF that gr _ blk(1)]) (use that f(2) in \<open>auto simp: call_typed_def f'\<close>)
      moreover have "jump_tables f' = jump_tables f" by (simp add: f')
      ultimately show ?thesis using branch(4) old(2) [OF branch(3)] grows_value_type [OF gr] grows_avail [OF gr _ subset_refl]
        unfolding branch_typed_def by (metis (no_types, lifting))
    qed
    have i': "i < length (dfg_insts f')" "dfg_results f' ! i = []" using branch(1,3) blk(4) [OF b] old(3) by (simp_all add: f')
    have "visit_block_succs f' b \<noteq> None" "targets f' b = targets f0 b"
      using bt l' i'(1) by (cases "dfg_insts f' ! i"; auto simp: visit_block_succs_def last_inst_def branch_typed_def targets_calls calls_of_def term_of_def)+
    then show ?thesis using branch_typed_inst_ok [OF bt i'(1) fr' i'(2)] pw [OF b] body [OF b] l' by blast
  next
    case (op i)
    then have bx: "b = ex" using cf_inv_exit [OF cf b] by simp
    have l': "lo_insts (fn_layout f') b = bodies b @ [?n]" using bx by (simp add: f')
    have nth: "nth_opt (dfg_insts f') ?n = Some (Return vs)" "dfg_insts f' ! ?n = Return vs" by (simp_all add: f' nth_append)
    have "results_ok f' ?n []" using put_results [OF fr1, of ex "bodies ex" "[]" "Return vs" "[]"] by (simp add: f')
    moreover have "types_of f' vs (sig_returns (fn_sig f'))" using grows_types_of [OF gr vs(1)] by (simp add: f')
    moreover have "\<forall>v \<in> set vs. avail UNIV dm f' b (bodies b) v" using vs(2) grows_avail [OF gr _ subset_refl] bx by blast
    ultimately have "inst_ok UNIV dm f' b (bodies b) ?n" using nth(1) by (simp add: inst_ok_def inst_uses_def)
    moreover have "visit_block_succs f' b \<noteq> None" "targets f' b = targets f0 b"
      using l' nth(1) op(4) by (auto simp: visit_block_succs_def last_inst_def targets_calls calls_of_def term_of_def)
    ultimately show ?thesis using pw [OF b] body [OF b] l' nth(2) by auto
  qed
  have wl: "wf_layout (fn_layout f')" using fr' by (simp add: frame_ok_def)
  have bl: "blocks_of f' = blocks_of f0" using f(2) by (simp add: f')
  note v = valid_funcI [OF wl cf bl conjunct1 [OF key] conjunct2 [OF key [unfolded dm]] dm']
  show "valid_func f'" by (rule v(1))
  show "flow_edges f' = flow_edges f0" by (rule v(2))
  show "flow_entry f' = en" by (rule v(3))
qed

subsection \<open>The generator\<close>

lemma visit_block_succs_sig [simp]: "visit_block_succs (f\<lparr>fn_sig := sg\<rparr>) b = visit_block_succs f b"
  by (simp add: visit_block_succs_def split: option.split)

lemma find_only: "x \<in> set xs \<Longrightarrow> (\<And>y. y \<in> set xs \<Longrightarrow> P y \<longleftrightarrow> y = x) \<Longrightarrow> find P xs = Some x"
  by (induction xs) auto

lemma add_return_valid:
  assumes R: "rand_ok R" and inv: "join_inv f0 en dm bodies T refs (cur_func c) defs" and cf: "cf_inv f0 en ex"
    and dm: "dm = dominates (flow_edges f0) en" and doms: "doms_ok doms dm f0" and sg: "sig_params sg = sig_params (fn_sig f0)"
    and ret: "sig_returns sg \<noteq> []" "set (sig_returns sg) \<subseteq> T" and bs: "set bs = set (blocks_of f0)" and fst: "map fst doms = blocks_of f0"
    and c1: "cur_func c1 = (cur_func c)\<lparr>fn_sig := sg\<rparr>"
  shows "\<exists>c' g'. add_return R doms defs sg bs c1 g = Some (c', g') \<and> callable T doms defs (cur_func c') \<and> fn_sig (cur_func c') = sg \<and>
    fn_name (cur_func c') = fn_name f0 \<and> ext_funcs (cur_func c') = ext_funcs f0 \<and> signatures (cur_func c') = signatures f0 \<and> blocks_of (cur_func c') = blocks_of f0 \<and> global_rng g' = global_rng g"
proof -
  let ?f = "cur_func c" let ?f1 = "?f\<lparr>fn_sig := sg\<rparr>"
  have lk: "linked f0 en dm bodies (\<lambda>_. {}) ?f" and rec: "recorded_all UNIV ?f defs"
    and T: "\<forall>tvs. map_of defs en = Some tvs \<longrightarrow> T \<subseteq> get_type ` set tvs" and keys: "\<And>d. map_of defs d \<noteq> None \<longleftrightarrow> d \<in> set (blocks_of f0)"
    using inv unfolding join_inv_def by blast+
  have ex: "ex \<in> set (blocks_of f0)" and en: "en \<in> set (blocks_of f0)" using cf unfolding cf_inv_def by (auto intro: hd_in_set)
  have f: "frame_ok ?f" "blocks_of ?f = blocks_of f0" "fn_name ?f = fn_name f0 \<and> ext_funcs ?f = ext_funcs f0 \<and> signatures ?f = signatures f0" "lo_insts (fn_layout ?f) ex = bodies ex @ branch_of f0 ex"
    using lk ex unfolding linked_def by blast+
  have tg: "targets ?f1 b = targets f0 b" "visit_block_succs ?f1 b \<noteq> None" if "b \<in> set (blocks_of f0)" for b
    using linked_targets [OF lk cf that] unfolding targets_def by simp_all
  have "flow_ok ?f1" using f(1,2) tg(2) by (simp add: flow_ok_def list_all_iff frame_ok_def)
  then obtain G where G: "with_function ?f1 = Some G" "cfg_of ?f1 (set (blocks_of ?f1)) G" using with_function_correct [of ?f1] by auto
  have "succ_iter G b = [] \<longleftrightarrow> b = ex" if "b \<in> set bs" for b
  proof -
    have b: "b \<in> set (blocks_of f0)" using that bs by simp
    then have "set (succ_iter G b) = set (targets f0 b)" using G(2) tg(1) [OF b] f(2) by (simp add: cfg_of_def succ_iter_def)
    then show ?thesis using cf_inv_exit [OF cf b] by (metis set_empty)
  qed
  then have last: "last_block_of ?f1 bs = Some ex" using G(1) ex bs find_only [of ex bs] by (simp add: last_block_of_def)
  have lay: "lo_insts (fn_layout ?f) ex = bodies ex" using f(4) exit_branch [OF cf] by simp
  let ?D = "env_at doms defs ex"
  have cands: "\<forall>t \<in> set (sig_returns sg). get_dominator_values_with_type ?D t \<noteq> []"
  proof
    fix t assume t: "t \<in> set (sig_returns sg)"
    obtain tvs where tvs: "map_of defs en = Some tvs" using keys en by blast
    then obtain tv where tv: "tv \<in> set tvs" "get_type tv = t" using T t ret(2) by blast
    have "en \<in> set (dom_list doms ex)" using dom_list_iff [OF doms ex] en dm by simp
    then have "get_value tv \<in> set (get_dominator_values_with_type ?D t)" using env_candidate tvs tv by (metis typed_value.collapse)
    then show "get_dominator_values_with_type ?D t \<noteq> []" by auto
  qed
  obtain vs g1 where vs: "pick_values R ?D (sig_returns sg) g = Some (vs, g1)" "types_of ?f vs (sig_returns sg)" "set vs \<subseteq> candidates ?D"
    "global_rng g1 = global_rng g" using pick_values_ex [OF R env_at_ok [OF rec] cands] by blast
  have dms: "doms_ok doms dm ?f" using doms f(2) by (simp add: doms_ok_def)
  have "\<forall>v \<in> candidates ?D. avail UNIV dm ?f ex (bodies ex) v"
  proof (rule env_avail [OF dms _ rec])
    show "ex \<in> set (blocks_of ?f)" using ex f(2) by simp
    show "recorded UNIV ?f ex (bodies ex) tvs" if "map_of defs ex = Some tvs" for tvs
      using rec that lay unfolding recorded_all_def by metis
  qed
  then have av: "\<forall>v \<in> set vs. avail UNIV dm ?f ex (bodies ex) v" using vs(3) by blast
  let ?c2 = "c1\<lparr>cur_pos := After ex\<rparr>"
  have goto: "goto_bottom ex c1 = Some ?c2" using ex f(2) c1 by (simp add: goto_bottom_def is_block_inserted_def)
  have "ins_at ?c2 ex (bodies ex) []" using f(1,2) lay ex c1 by (simp add: ins_at_def frame_ok_def)
  then have ins: "ins_return vs ?c2 = Some (?c2\<lparr>cur_func := put_inst ex (bodies ex) [] (Return vs) [] ?f1\<rparr>)"
    using build_inst_put [of ?c2 ex "bodies ex" "[]" "Return vs" "[]"] c1 by (simp add: ins_return_def)
  let ?f' = "put_inst ex (bodies ex) [] (Return vs) [] ?f1"
  note lr = linked_return [OF lk cf dm sg vs(2) av refl]
  have "{en, ex} \<subseteq> set (blocks_of f0)" "en \<noteq> ex" using en ex cf by (simp_all add: cf_inv_def)
  then have two: "2 \<le> length (blocks_of f0)" by (metis card_2_iff card_length card_mono finite_set le_trans)
  have "recorded UNIV ?f' b (lo_insts (fn_layout ?f') b) tvs" if "recorded UNIV ?f b (lo_insts (fn_layout ?f) b) tvs" for b tvs
    using recorded_mono [OF that lr(3)] lr(3) by (simp add: grows_def)
  then have "recorded_all UNIV ?f' defs" using rec unfolding recorded_all_def by blast
  moreover have "\<exists>tvs. map_of defs en = Some tvs \<and> T \<subseteq> get_type ` set tvs" using keys en T by blast
  ultimately have "callable T doms defs ?f'" using lr(1,2,4,5) doms fst two f(2) dm by (simp add: callable_def doms_ok_def)
  then show ?thesis using last vs(1,4) goto ins ret(1) c1 f(2,3) by (simp add: add_return_def)
qed

lemma main_signature_ex:
  assumes R: "rand_ok R"
  shows "\<exists>sg g'. main_signature R g = Some (sg, g') \<and> sig_params sg = [] \<and> sig_returns sg \<noteq> [] \<and>
    set (sig_returns sg) \<subseteq> set candidate_types \<and> global_rng g' = global_rng g"
proof -
  obtain n g1 where n: "thread_gen_range R 8 10 g = Some (n, g1)" "8 \<le> n" "global_rng g1 = global_rng g"
    using thread_gen_range_ex [OF R, of 8 10 g] by auto
  obtain ts g2 where ts: "thread_choose_multiple R candidate_types n g1 = (ts, g2)" by force
  note props = thread_choose_multiple_props [OF R ts]
  have "ts \<noteq> []" using props(1) n(2) by (auto simp: candidate_types_def)
  then show ?thesis using n(1,3) ts props(2,4) by (auto simp: main_signature_def generate_random_signature_def)
qed

lemma dfs_starts:
  assumes "wf_flow f" and "cfg_of f (flow_nodes f) G" and "dfs G (flow_entry f) = Some order"
  shows "\<exists>rest. order = flow_entry f # rest"
proof -
  have U: "finite (flow_nodes f)" "\<And>x. x \<in> flow_nodes f \<Longrightarrow> set (succ_iter G x) \<subseteq> flow_nodes f"
    using assms(1,2) by (auto simp: flow_nodes_def wf_flow_def list_all_iff cfg_of_def succ_iter_def)
  have "flow_entry f \<in> flow_nodes f" using assms(1) by (auto simp: flow_nodes_def flow_entry_def wf_flow_def)
  from visit_correct [OF U(1) U(2) U(2) [OF this], of True "{flow_entry f}" "[flow_entry f]"]
  show ?thesis using assms(3) by (auto simp: dfs_def visit_Cons)
qed

lemma fill_blocks_filled:
  assumes R: "rand_ok R" and cfg: "legal_config cfg" and cf: "cf_inv f0 en ex" and dm: "dm = dominates (flow_edges f0) en"
    and T: "T = set (sig_params (fn_sig f0)) \<union> to_cranelift_type ` set (cfg_operand_types cfg)"
    and run: "fill_blocks R cfg f0 g = Some (bs, doms, c, defs, refs, g')"
  shows "\<exists>bodies. join_inv f0 en dm bodies T refs (cur_func c) defs" and "doms_ok doms dm f0" and "distinct bs"
    and "set bs = set (blocks_of f0)" and "\<forall>b \<in> set bs. b \<noteq> en \<longrightarrow> dfg_blocks (cur_func c) ! b = []" and "global_rng g' = global_rng g"
    and "map fst doms = blocks_of f0"
proof -
  note wf = cf_inv_flow [OF cf]
  obtain G where G: "with_function f0 = Some G" "cfg_of f0 (flow_nodes f0) G" using with_function_flow [OF wf(1)] by blast
  have s: "dfs G en = Some bs" "compute_dominators f0 = Some doms"
    "foldM (fill_block R cfg (fn_sig f0) doms) (enumerate 0 bs) (cursor_new f0, [], [], g) = Some (c, defs, refs, g')"
    using run entry_block_flow [OF wf(1)] wf(2) G(1) by (auto simp: fill_blocks_def elim!: bindE)
  obtain rest where bs: "bs = en # rest" using dfs_starts [OF wf(1) G(2)] s(1) wf(2) by auto
  have reach: "(flow_edges f0)\<^sup>* `` {en} = set (blocks_of f0)"
    using reachable_nodes [OF wf(1)] cf wf unfolding cf_inv_def flow_nodes_def by auto
  show dist: "distinct bs" and set: "set bs = set (blocks_of f0)" using dfs_flow [OF wf(1) G(2)] s(1) wf(2) reach by auto
  show doms: "doms_ok doms dm f0" using compute_dominators_flow [OF wf(1)] s(2) wf(2)
    by (auto simp: doms_ok_def flow.dom_set_def flow_nodes_def dm)
  show "map fst doms = blocks_of f0" using compute_dominators_flow [OF wf(1)] s(2) by auto
  note loop = fill_loop [OF R cfg cf doms T, of rest g c defs refs g']
  have lp: "filled f0 en dm T (set (blocks_of f0)) (cur_func c) defs" "refs_ok en dm (set (blocks_of f0)) defs refs" "global_rng g' = global_rng g"
    using loop dist set s(3) unfolding bs by blast+
  show "global_rng g' = global_rng g" by (rule lp(3))
  show "\<forall>b \<in> set bs. b \<noteq> en \<longrightarrow> dfg_blocks (cur_func c) ! b = []" using filled_linked(3) [OF lp(1) cf] set by blast
  obtain bodies where "linked f0 en dm bodies (\<lambda>_. {}) (cur_func c)" using filled_linked(1) [OF lp(1) cf] by blast
  moreover have "en \<in> set (blocks_of f0)" using cf unfolding cf_inv_def by (auto intro: hd_in_set)
  then have "(\<forall>b. map_of defs b \<noteq> None \<longleftrightarrow> b \<in> set (blocks_of f0)) \<and> (\<forall>tvs. map_of defs en = Some tvs \<longrightarrow> T \<subseteq> get_type ` set tvs)"
    using lp(1) unfolding filled_def by blast
  ultimately show "\<exists>bodies. join_inv f0 en dm bodies T refs (cur_func c) defs"
    using filled_linked(2) [OF lp(1) cf] lp(2) unfolding join_inv_def by blast
qed

text \<open>The types that must be available for the returns: those of the random signature of the root
  function, and those of the signature of any other function.\<close>

definition returns_covered :: "bool \<Rightarrow> arch_config \<Rightarrow> signature \<Rightarrow> bool" where
  "returns_covered is_root cfg sg \<longleftrightarrow>
     (if is_root then sig_params sg = [] \<and> set candidate_types \<subseteq> to_cranelift_type ` set (cfg_operand_types cfg)
      else sig_returns sg \<noteq> [] \<and> set (sig_returns sg) \<subseteq> set (sig_params sg) \<union> to_cranelift_type ` set (cfg_operand_types cfg))"

lemma function_generator_sound:
  assumes R: "rand_ok R" and cfg: "legal_config cfg" and cf: "cf_inv f0 en ex" and cov: "returns_covered r cfg (fn_sig f0)"
    and run: "fill_blocks R cfg f0 g \<noteq> None"
  shows "\<exists>f' doms defs g'. function_generator R cfg r f0 g = Some (f', doms, defs, g') \<and>
    callable (set (sig_params (fn_sig f0)) \<union> to_cranelift_type ` set (cfg_operand_types cfg)) doms defs f' \<and> fn_name f' = fn_name f0 \<and> ext_funcs f' = ext_funcs f0 \<and> signatures f' = signatures f0 \<and>
    blocks_of f' = blocks_of f0 \<and> (\<not> r \<longrightarrow> fn_sig f' = fn_sig f0) \<and> sig_params (fn_sig f') = sig_params (fn_sig f0) \<and>
    global_rng g' = global_rng g"
proof -
  let ?dm = "dominates (flow_edges f0) en" let ?T = "set (sig_params (fn_sig f0)) \<union> to_cranelift_type ` set (cfg_operand_types cfg)"
  obtain bs doms c defs refs g1 where fill: "fill_blocks R cfg f0 g = Some (bs, doms, c, defs, refs, g1)"
    using run by (metis not_Some_eq prod_cases6)
  note fb = fill_blocks_filled [OF R cfg cf refl refl fill]
  obtain bodies where inv: "join_inv f0 en ?dm bodies ?T refs (cur_func c) defs" using fb(1) by blast
  obtain c1 defs1 g2 where join: "foldM (join_block R doms refs) bs (c, defs, g1) = Some (c1, defs1, g2)"
    "join_inv f0 en ?dm bodies ?T refs (cur_func c1) defs1" "global_rng g2 = global_rng g1"
    using join_loop [OF R cf refl fb(2) inv fb(3) _ fb(5)] fb(4) by blast
  have sg0: "fn_sig (cur_func c1) = fn_sig f0" using join(2) by (simp add: join_inv_def linked_def)
  have "\<exists>sg c2 g3. (if r then do { (sg, g) \<leftarrow> main_signature R g2; Some (sg, c1\<lparr>cur_func := (cur_func c1)\<lparr>fn_sig := sg\<rparr>\<rparr>, g) }
      else Some (fn_sig f0, c1, g2)) = Some (sg, c2, g3) \<and> cur_func c2 = (cur_func c1)\<lparr>fn_sig := sg\<rparr> \<and> sig_params sg = sig_params (fn_sig f0) \<and>
      sig_returns sg \<noteq> [] \<and> set (sig_returns sg) \<subseteq> ?T \<and> (\<not> r \<longrightarrow> sg = fn_sig f0) \<and> global_rng g3 = global_rng g2"
  proof (cases r)
    case True
    then show ?thesis using main_signature_ex [OF R, of g2] cov by (auto simp: returns_covered_def)
  next
    case False
    have "cur_func c1 = (cur_func c1)\<lparr>fn_sig := fn_sig f0\<rparr>" using sg0 [symmetric] by simp
    then show ?thesis using False cov by (auto simp: returns_covered_def)
  qed
  then obtain sg c2 g3 where sg: "(if r then do { (sg, g) \<leftarrow> main_signature R g2; Some (sg, c1\<lparr>cur_func := (cur_func c1)\<lparr>fn_sig := sg\<rparr>\<rparr>, g) }
      else Some (fn_sig f0, c1, g2)) = Some (sg, c2, g3)" "cur_func c2 = (cur_func c1)\<lparr>fn_sig := sg\<rparr>" "sig_params sg = sig_params (fn_sig f0)"
      "sig_returns sg \<noteq> []" "set (sig_returns sg) \<subseteq> ?T" "\<not> r \<longrightarrow> sg = fn_sig f0" "global_rng g3 = global_rng g2" by blast
  obtain c3 g4 where ret: "add_return R doms defs1 sg bs c2 g3 = Some (c3, g4)" "callable ?T doms defs1 (cur_func c3)" "fn_sig (cur_func c3) = sg"
    "fn_name (cur_func c3) = fn_name f0 \<and> ext_funcs (cur_func c3) = ext_funcs f0 \<and> signatures (cur_func c3) = signatures f0" "blocks_of (cur_func c3) = blocks_of f0" "global_rng g4 = global_rng g3"
    using add_return_valid [OF R join(2) cf refl fb(2) sg(3-5) fb(4) fb(7) sg(2)] by blast
  have "function_generator R cfg r f0 g = Some (cur_func c3, doms, defs1, g4)"
    using fill join(1) sg(1) ret(1) unfolding function_generator_def by simp
  then show ?thesis using ret sg(3,6,7) join(3) fb(6) by auto
qed

end
