(* ===== verification/Invoke_Sound.thy ===== *)
theory Invoke_Sound
  imports Function_Sound
begin

text \<open>
  The insertion of calls keeps functions well formed: importing a function, putting the call before
  the branch of a block, and using its results in a dominated block. The invariant \<open>callable\<close> holds
  after the function generator and after every inserted call, and insertion never fails under it.
\<close>

subsection \<open>Extensions of a function\<close>

text \<open>Instructions, values and imported functions are added; nothing else changes.\<close>

definition extends :: "func \<Rightarrow> func \<Rightarrow> bool" where
  "extends f f' \<longleftrightarrow> grows UNIV f f' \<and> dfg_blocks f' = dfg_blocks f \<and> jump_tables f' = jump_tables f \<and> fn_sig f' = fn_sig f \<and>
     fn_name f' = fn_name f \<and> blocks_of f' = blocks_of f \<and> (\<exists>es. ext_funcs f' = ext_funcs f @ es) \<and> (\<exists>ss. signatures f' = signatures f @ ss)"

lemma extends_refl [simp]: "extends f f"
  by (simp add: extends_def)

lemma extends_trans: "extends f f' \<Longrightarrow> extends f' f'' \<Longrightarrow> extends f f''"
  by (auto simp: extends_def intro: grows_trans)

lemma extends_call_ok:
  assumes "extends f f'" and "call_ok f bc" and "\<forall>v \<in> set (bc_args bc). v < length (dfg_values f)" and "params_wf f (bc_block bc)"
  shows "call_ok f' bc"
proof -
  have gr: "grows UNIV f f'" using assms(1) by (simp add: extends_def)
  have "map (value_type f') (bc_args bc) = map (value_type f) (bc_args bc)" using grows_value_type_eq [OF gr] assms(3) by simp
  moreover have "map (value_type f') (dfg_blocks f ! bc_block bc) = map (value_type f) (dfg_blocks f ! bc_block bc)"
    using grows_value_type_eq [OF gr params_bound [OF assms(4)]] by simp
  ultimately show ?thesis using assms(1,2) unfolding call_ok_def extends_def by metis
qed

lemma inst_typed_extends:
  assumes ext: "extends f f'" and ty: "inst_typed f i d" and bound: "\<forall>v \<in> set (inst_uses f d). v < length (dfg_values f)"
    and pw: "\<forall>b \<in> set (blocks_of f). params_wf f b"
  shows "inst_typed f' i d"
proof -
  have gr: "grows UNIV f f'" and jt: "jump_tables f' = jump_tables f" and sg: "fn_sig f' = fn_sig f" using ext by (simp_all add: extends_def)
  note res = grows_results_ok [OF gr] and types = grows_types_of [OF gr] and vt = grows_value_type [OF gr]
  have call: "call_ok f' bc" if "call_ok f bc" "bc \<in> set (data_calls (jump_tables f) d)" for bc
  proof (rule extends_call_ok [OF ext that(1)])
    show "\<forall>v \<in> set (bc_args bc). v < length (dfg_values f)" using bound that(2) unfolding inst_uses_def by auto
    show "params_wf f (bc_block bc)" using that(1) pw unfolding call_ok_def by blast
  qed
  show ?thesis
  proof (cases d)
    case (Jump bc)
    then show ?thesis using ty call res by simp
  next
    case (Brif v b1 b2)
    then show ?thesis using ty call res vt by auto
  next
    case (BranchTable v t)
    then show ?thesis using ty call res vt jt by auto
  next
    case (Call fr vs)
    then obtain ef sg where ef: "nth_opt (ext_funcs f) fr = Some ef" "nth_opt (signatures f) (ef_sig ef) = Some sg" "types_of f vs (sig_params sg)"
      "results_ok f i (sig_returns sg)" using ty by auto
    have "nth_opt (ext_funcs f') fr = Some ef" "nth_opt (signatures f') (ef_sig ef) = Some sg"
      using ef(1,2) ext unfolding extends_def by (auto simp: nth_append)
    then show ?thesis using ef(3,4) Call res types by auto
  next
    case (Return vs)
    then show ?thesis using ty res types sg by simp
  next
    case (Op m imms vs)
    then obtain u us rs where "types_of f vs us" "op_types m u us = Some rs" "results_ok f i rs" using ty by auto
    then have "types_of f' vs us \<and> op_types m u us = Some rs \<and> results_ok f' i rs" using res types by blast
    then show ?thesis using Op by auto
  qed
qed

lemma inst_ok_extends:
  assumes ext: "extends f f'" and ok: "inst_ok UNIV dm f b pre i" and pw: "\<forall>b \<in> set (blocks_of f). params_wf f b"
    and same: "nth_opt (dfg_insts f') i = nth_opt (dfg_insts f) i" and pre: "set pre \<subseteq> set pre'"
  shows "inst_ok UNIV dm f' b pre' i"
proof -
  obtain d where d: "nth_opt (dfg_insts f) i = Some d" "inst_typed f i d" "\<forall>v \<in> set (inst_uses f d). avail UNIV dm f b pre v"
    using ok unfolding inst_ok_def by blast
  have gr: "grows UNIV f f'" and jt: "jump_tables f' = jump_tables f" using ext by (simp_all add: extends_def)
  have "inst_typed f' i d" using inst_typed_extends [OF ext d(2) _ pw] d(3) avail_bound by blast
  moreover have "\<forall>v \<in> set (inst_uses f' d). avail UNIV dm f' b pre' v" using d(3) grows_avail [OF gr _ pre] jt by (simp add: inst_uses_def)
  ultimately show ?thesis using d(1) same unfolding inst_ok_def by auto
qed

lemma block_ok_params: "block_ok dm f b \<Longrightarrow> params_wf f b"
  by (simp add: block_ok_def params_wf_def)

subsection \<open>A new instruction before the branch\<close>

lemma valid_blocks:
  assumes "valid_func f" and "b \<in> set (blocks_of f)"
  shows "lo_insts (fn_layout f) b \<noteq> []" and "block_ok (dominates (flow_edges f) (flow_entry f)) f b" and "params_wf f b"
  using assms block_ok_params unfolding valid_func_def by blast+

text \<open>Functions with the same last instructions have the same control flow.\<close>

lemma same_flow:
  assumes valid: "valid_func f" and bl: "blocks_of f' = blocks_of f" and jt: "jump_tables f' = jump_tables f" and wf: "wf_layout (fn_layout f')"
    and last: "\<And>b i. b \<in> set (blocks_of f) \<Longrightarrow> last_inst (fn_layout f) b = Some i \<Longrightarrow> last_inst (fn_layout f') b = Some i \<and>
      (\<exists>d d'. nth_opt (dfg_insts f) i = Some d \<and> nth_opt (dfg_insts f') i = Some d' \<and> (d' = d \<or> (\<exists>vs. d' = set_arguments vs d)))"
  shows "wf_flow f'" and "flow_edges f' = flow_edges f" and "flow_entry f' = flow_entry f"
proof -
  have vs: "visit_block_succs f' b = visit_block_succs f b" if b: "b \<in> set (blocks_of f)" for b
  proof -
    obtain i where i: "last_inst (fn_layout f) b = Some i" using valid_blocks(1) [OF valid b] by (auto simp: last_inst_def split: list.splits)
    then obtain d d' where d: "last_inst (fn_layout f') b = Some i" "nth_opt (dfg_insts f) i = Some d" "nth_opt (dfg_insts f') i = Some d'"
      "d' = d \<or> (\<exists>vs. d' = set_arguments vs d)" using last [OF b i] by blast
    then show ?thesis using i jt by (cases d) (auto simp: visit_block_succs_def simp del: nth_opt_eq_Some)
  qed
  then have tg: "targets f' b = targets f b" if "b \<in> set (blocks_of f)" for b using that by (simp add: targets_def)
  have flow: "wf_flow f" using valid by (simp add: valid_func_def)
  then show "wf_flow f'" using vs tg wf bl by (simp add: wf_flow_def flow_ok_def list_all_iff flow_nodes_def)
  show "flow_edges f' = flow_edges f" using tg bl by (auto simp: flow_edges_def)
  show "flow_entry f' = flow_entry f" using bl by (simp add: flow_entry_def)
qed

lemma valid_put:
  assumes valid: "valid_func f" and fr: "frame_ok f" and b: "b \<in> set (blocks_of f)" and lay: "lo_insts (fn_layout f) b = body @ [t]"
    and f': "f' = put_inst b body [t] d tys f" and ty: "inst_typed f' (length (dfg_insts f)) d" and nt: "\<not> is_terminator d"
    and av: "\<forall>v \<in> set (inst_uses f d). avail UNIV (dominates (flow_edges f) (flow_entry f)) f b body v"
  shows "valid_func f'" and "frame_ok f'" and "extends f f'" and "flow_edges f' = flow_edges f" and "flow_entry f' = flow_entry f"
proof -
  let ?dm = "dominates (flow_edges f) (flow_entry f)" let ?n = "length (dfg_insts f)"
  have lay': "lo_insts (fn_layout f) b = body @ [t]" by (rule lay)
  show fr': "frame_ok f'" unfolding f' by (rule frame_put [OF fr lay b])
  have gr: "grows UNIV f f'" unfolding f' by (rule grows_put [OF lay])
  show ext: "extends f f'" using gr by (simp add: extends_def f')
  have old: "nth_opt (dfg_insts f') i = nth_opt (dfg_insts f) i" if "i \<in> set (lo_insts (fn_layout f) c)" for i c
  proof -
    have "i < ?n" using frame_bound [OF fr] that by blast
    then show ?thesis by (simp add: f' nth_opt_def nth_append)
  qed
  have pw: "\<forall>c \<in> set (blocks_of f). params_wf f c" using valid_blocks(3) [OF valid] by blast
  have last: "last_inst (fn_layout f') c = last_inst (fn_layout f) c" for c using lay by (simp add: f' last_inst_def)
  have flow: "wf_flow f'" "flow_edges f' = flow_edges f" "flow_entry f' = flow_entry f"
  proof -
    have l: "last_inst (fn_layout f') c = Some i \<and>
      (\<exists>d d'. nth_opt (dfg_insts f) i = Some d \<and> nth_opt (dfg_insts f') i = Some d' \<and> (d' = d \<or> (\<exists>vs. d' = set_arguments vs d)))"
      if c: "c \<in> set (blocks_of f)" "last_inst (fn_layout f) c = Some i" for c i
    proof -
      have i: "i \<in> set (lo_insts (fn_layout f) c)" using c(2) by (auto simp: last_inst_def split: if_splits list.splits)
      then have "i < ?n" using frame_bound [OF fr] by blast
      then show ?thesis using c last old [OF i] by (auto simp: nth_opt_def)
    qed
    have "blocks_of f' = blocks_of f" "jump_tables f' = jump_tables f" "wf_layout (fn_layout f')" using fr' by (simp_all add: f' frame_ok_def)
    from same_flow [OF valid this l] show "wf_flow f'" "flow_edges f' = flow_edges f" "flow_entry f' = flow_entry f" by blast+
  qed
  then show "flow_edges f' = flow_edges f" "flow_entry f' = flow_entry f" by blast+
  have new: "inst_ok UNIV ?dm f' b body ?n" using ty av grows_avail [OF gr _ subset_refl]
    by (auto simp: inst_ok_def f' inst_uses_def)
  have keep: "inst_ok UNIV ?dm f' c pre' i \<and> is_terminator (dfg_insts f' ! i) = (post = [])"
    if c: "c \<in> set (blocks_of f)" and sp: "lo_insts (fn_layout f) c = pre @ i # post" and sub: "set pre \<subseteq> set pre'" for c pre i post pre'
  proof -
    have i: "i \<in> set (lo_insts (fn_layout f) c)" using sp by simp
    have ok: "inst_ok UNIV ?dm f c pre i" "is_terminator (dfg_insts f ! i) = (post = [])"
      using valid_blocks(2) [OF valid c] sp unfolding block_ok_def by blast+
    have "i < ?n" using frame_bound [OF fr] i by blast
    then show ?thesis using inst_ok_extends [OF ext ok(1) pw old [OF i] sub] ok(2) by (simp add: f' nth_append)
  qed
  have "block_ok ?dm f' c" if c: "c \<in> set (blocks_of f)" for c
  proof -
    have "inst_ok UNIV ?dm f' c pre i \<and> is_terminator (dfg_insts f' ! i) = (post = [])" if sp: "lo_insts (fn_layout f') c = pre @ i # post" for pre i post
    proof (cases "c = b")
      case False
      then show ?thesis using keep [OF c _ subset_refl] sp by (simp add: f')
    next
      case True
      then have sp: "body @ [?n, t] = pre @ i # post" using sp by (simp add: f')
      show ?thesis
      proof (cases post rule: rev_cases)
        case Nil
        then have "i = t" "pre = body @ [?n]" using sp by (simp_all add: append_eq_append_conv2 butlast_append)
        then show ?thesis using keep [OF b lay, of pre] True Nil by auto
      next
        case (snoc ys y)
        then have y: "body @ [?n] = pre @ i # ys" using sp by (metis append.assoc append_Cons append_Nil butlast_snoc)
        show ?thesis
        proof (cases ys rule: rev_cases)
          case Nil
          then have "i = ?n" "pre = body" using y by simp_all
          then show ?thesis using new nt True snoc by (simp add: f')
        next
          case (snoc zs z)
          then have "body = pre @ i # zs" using y by (metis append.assoc append_Cons butlast_snoc)
          then show ?thesis using keep [OF b, of pre i "zs @ [t]" pre] lay True \<open>post = ys @ [y]\<close> by simp
        qed
      qed
    qed
    moreover have "params_wf f' c" by (rule params_wf_grows [OF _ gr]) (use pw c in \<open>simp_all add: f'\<close>)
    ultimately show ?thesis unfolding block_ok_def params_wf_def by blast
  qed
  moreover have "types_of f' (dfg_blocks f' ! flow_entry f) (sig_params (fn_sig f'))"
    using grows_types_of [OF gr] valid unfolding valid_func_def by (simp add: f')
  moreover have "lo_insts (fn_layout f') c \<noteq> []" if "c \<in> set (blocks_of f)" for c using valid_blocks(1) [OF valid that] by (simp add: f')
  ultimately show "valid_func f'" using flow unfolding valid_func_def by (simp add: f')
qed

subsection \<open>Changed operands\<close>

lemma set_arguments_simps [simp]:
  "is_terminator (set_arguments vs d) = is_terminator d" "data_calls jts (set_arguments vs d) = data_calls jts d"
  by (cases d; simp)+

lemma set_arguments_typed:
  assumes "inst_typed f i d" and "map (value_type f) vs = map (value_type f) (arguments d)"
  shows "inst_typed f i (set_arguments vs d)" and "set (arguments (set_arguments vs d)) \<subseteq> set vs"
proof -
  have len: "length vs = length (arguments d)" using assms(2) map_eq_imp_length_eq by blast
  have types: "types_of f vs ts = types_of f (arguments d) ts" for ts using assms(2) by (simp add: types_of_def)
  show "inst_typed f i (set_arguments vs d)"
  proof (cases d)
    case (Brif v b1 b2)
    then obtain w where "vs = [w]" using len by (cases vs) auto
    then show ?thesis using assms Brif by simp
  next
    case (BranchTable v t)
    then obtain w where "vs = [w]" using len by (cases vs) auto
    then show ?thesis using assms BranchTable by simp
  qed (use assms(1) types in simp_all)
  show "set (arguments (set_arguments vs d)) \<subseteq> set vs" using len by (cases d; cases vs) auto
qed

lemma valid_set_args:
  assumes valid: "valid_func f" and fr: "frame_ok f" and b: "b \<in> set (blocks_of f)" and sp: "lo_insts (fn_layout f) b = pre @ i # post"
    and d: "nth_opt (dfg_insts f) i = Some d" and vs: "map (value_type f) vs = map (value_type f) (arguments d)"
    and av: "\<forall>v \<in> set vs. v \<in> set (arguments d) \<or> avail UNIV (dominates (flow_edges f) (flow_entry f)) f b pre v"
    and f': "f' = set_inst i (set_arguments vs d) f"
  shows "valid_func f'" and "frame_ok f'" and "same_env f f'" and "flow_edges f' = flow_edges f" and "flow_entry f' = flow_entry f"
proof -
  let ?dm = "dominates (flow_edges f) (flow_entry f)"
  show se: "same_env f f'" by (simp add: f')
  then show fr': "frame_ok f'" using fr same_env_eqs(4) by blast
  note eqs = same_env_eqs [OF se]
  have e: "fn_layout f' = fn_layout f" "dfg_blocks f' = dfg_blocks f" "fn_sig f' = fn_sig f" "jump_tables f' = jump_tables f"
    "ext_funcs f' = ext_funcs f" "signatures f' = signatures f" "dfg_results f' = dfg_results f" by (simp_all add: f' set_inst_def)
  have i: "i < length (dfg_insts f)" "d = dfg_insts f ! i" using d by simp_all
  have other: "dfg_insts f' ! j = dfg_insts f ! j" "nth_opt (dfg_insts f') j = nth_opt (dfg_insts f) j" if "j \<noteq> i" for j
    using that by (simp_all add: f' set_inst_def nth_opt_def)
  have self: "nth_opt (dfg_insts f') i = Some (set_arguments vs d)" "dfg_insts f' ! i = set_arguments vs d" using i by (simp_all add: f' set_inst_def)
  have vt: "value_type f' = value_type f" by (rule ext) (rule eqs)
  have co: "call_ok f' = call_ok f" by (rule ext) (simp add: call_ok_def e vt)
  have typed: "inst_typed f' j k = inst_typed f j k" for j k
    by (cases k) (simp_all only: inst_typed.simps eqs co e)
  have flow: "wf_flow f'" "flow_edges f' = flow_edges f" "flow_entry f' = flow_entry f"
  proof -
    have l: "last_inst (fn_layout f') c = Some j \<and>
      (\<exists>d d'. nth_opt (dfg_insts f) j = Some d \<and> nth_opt (dfg_insts f') j = Some d' \<and> (d' = d \<or> (\<exists>vs. d' = set_arguments vs d)))"
      if c: "c \<in> set (blocks_of f)" "last_inst (fn_layout f) c = Some j" for c j
    proof (cases "j = i")
      case True
      then show ?thesis using c(2) e(1) d self(1) by auto
    next
      case False
      have "j \<in> set (lo_insts (fn_layout f) c)" using c(2) by (auto simp: last_inst_def split: if_splits)
      then have "j < length (dfg_insts f)" using frame_bound [OF fr] by blast
      then show ?thesis using c(2) e(1) other [OF False] by (auto simp: nth_opt_def)
    qed
    have "blocks_of f' = blocks_of f" "wf_layout (fn_layout f')" using fr' e(1) by (simp_all add: frame_ok_def)
    from same_flow [OF valid this(1) e(4) this(2) l] show "wf_flow f'" "flow_edges f' = flow_edges f" "flow_entry f' = flow_entry f" by blast+
  qed
  then show "flow_edges f' = flow_edges f" "flow_entry f' = flow_entry f" by blast+
  have wf: "wf_layout (fn_layout f)" using fr by (simp add: frame_ok_def)
  have "block_ok ?dm f' c" if c: "c \<in> set (blocks_of f)" for c
  proof -
    have bo: "block_ok ?dm f c" by (rule valid_blocks(2) [OF valid c])
    have "inst_ok UNIV ?dm f' c pr j \<and> is_terminator (dfg_insts f' ! j) = (po = [])" if sp': "lo_insts (fn_layout f') c = pr @ j # po" for pr j po
    proof -
      have ok: "inst_ok UNIV ?dm f c pr j" "is_terminator (dfg_insts f ! j) = (po = [])" using bo sp' e(1) unfolding block_ok_def by auto
      show ?thesis
      proof (cases "j = i")
        case False
        then show ?thesis using ok other [OF False] unfolding inst_ok_def inst_uses_def e typed eqs by simp
      next
        case True
        then have cb: "c = b" using wf_disjoint [OF wf, of i c b] sp sp' e(1) by simp
        have "distinct (pre @ i # post)" by (rule wf_distinct [OF wf sp])
        then have pr: "pr = pre" using append_Cons_eq_iff [of i pre post pr po] sp sp' e(1) cb True by simp
        have ok': "inst_typed f i d" "\<forall>v \<in> set (inst_uses f d). avail UNIV ?dm f b pre v"
          using ok(1) d unfolding inst_ok_def True cb pr by auto
        have "\<forall>v \<in> set (inst_uses f (set_arguments vs d)). avail UNIV ?dm f b pre v"
          using ok'(2) av set_arguments_typed(2) [OF ok'(1) vs] unfolding inst_uses_def by auto
        then have "inst_ok UNIV ?dm f' b pre i" using self(1) set_arguments_typed(1) [OF ok'(1) vs]
          unfolding inst_ok_def inst_uses_def e typed eqs by simp
        then show ?thesis using ok(2) self(2) i(2) unfolding True cb pr by simp
      qed
    qed
    then show ?thesis using bo e(2) se unfolding block_ok_def same_env_def by simp
  qed
  then show "valid_func f'" using valid flow unfolding valid_func_def e eqs by simp
qed

subsection \<open>Inserting calls\<close>

lemma those_map_Some [simp]: "those (map Some ts) = Some ts"
  by (induction ts) simp_all

text \<open>What every change made by the insertion keeps.\<close>

definition keeps :: "func \<Rightarrow> func \<Rightarrow> bool" where
  "keeps f f' \<longleftrightarrow> valid_func f' \<and> frame_ok f' \<and> extends f f' \<and> flow_edges f' = flow_edges f \<and> flow_entry f' = flow_entry f"

lemma keeps_trans: "keeps f f' \<Longrightarrow> keeps f' f'' \<Longrightarrow> keeps f f''"
  using extends_trans by (auto simp: keeps_def)

lemma callable_keeps:
  assumes "callable T doms defs f" and "keeps f f'"
  shows "callable T doms defs f'"
proof -
  have k: "valid_func f'" "frame_ok f'" "grows UNIV f f'" "blocks_of f' = blocks_of f" "flow_edges f' = flow_edges f" "flow_entry f' = flow_entry f"
    using assms(2) by (auto simp: keeps_def extends_def)
  have "recorded UNIV f' b (lo_insts (fn_layout f') b) tvs" if "recorded UNIV f b (lo_insts (fn_layout f) b) tvs" for b tvs
    using recorded_mono [OF that k(3)] k(3) by (simp add: grows_def)
  then show ?thesis using assms(1) k unfolding callable_def doms_ok_def recorded_all_def by simp
qed

lemma callable_keeps_refl: "callable T doms defs f \<Longrightarrow> keeps f f"
  by (simp add: keeps_def callable_def)

text \<open>The last instruction of a block of a well-formed function.\<close>

lemma valid_terminator:
  assumes valid: "valid_func f" and b: "b \<in> set (blocks_of f)"
  obtains body t where "lo_insts (fn_layout f) b = body @ [t]" and "dfg_results f ! t = []" and "is_terminator (dfg_insts f ! t)"
proof -
  obtain body t where lay: "lo_insts (fn_layout f) b = body @ [t]" using valid_blocks(1) [OF valid b] by (metis rev_exhaust)
  then have "inst_ok UNIV (flow_dom f) f b body t" "is_terminator (dfg_insts f ! t)"
    using valid_blocks(2) [OF valid b] unfolding block_ok_def by blast+
  then have "results_ok f t []" unfolding inst_ok_def by (cases "dfg_insts f ! t") auto
  then show thesis using that [OF lay] \<open>is_terminator (dfg_insts f ! t)\<close> by (simp add: results_ok_def)
qed

lemma entry_candidates:
  assumes call: "callable T doms defs f" and b: "b \<in> set (blocks_of f)" and t: "t \<in> T"
  shows "get_dominator_values_with_type (env_at doms defs b) t \<noteq> []"
proof -
  obtain tvs where tvs: "map_of defs (flow_entry f) = Some tvs" "T \<subseteq> get_type ` set tvs" using call unfolding callable_def by blast
  then obtain tv where tv: "tv \<in> set tvs" "get_type tv = t" using t by blast
  have "flow_entry f \<in> set (blocks_of f)" using call unfolding callable_def valid_func_def wf_flow_def flow_entry_def by (auto intro: hd_in_set)
  then have "flow_entry f \<in> set (dom_list doms b)" using dom_list_iff [OF _ b] call unfolding callable_def by auto
  then have "get_value tv \<in> set (get_dominator_values_with_type (env_at doms defs b) t)"
    using env_candidate tvs(1) tv by (metis typed_value.collapse)
  then show ?thesis by auto
qed

lemma use_results_valid:
  assumes R: "rand_ok R" and call: "callable T doms defs (cur_func c)" and b: "b \<in> set (blocks_of (cur_func c))"
    and res: "results_ok (cur_func c) n ts" and def: "n \<in> set (lo_insts (cur_layout c) p)" and dom: "flow_dom (cur_func c) p b" "p \<noteq> b"
  shows "\<exists>c' g'. use_results R n b c g = Some (c', g') \<and> keeps (cur_func c) (cur_func c') \<and>
    global_rng g' = global_rng g"
proof -
  let ?f = "cur_func c"
  have valid: "valid_func ?f" and fr: "frame_ok ?f" using call by (simp_all add: callable_def)
  have wf: "wf_layout (fn_layout ?f)" using fr by (simp add: frame_ok_def)
  obtain i0 rest where lay: "lo_insts (fn_layout ?f) b = [] @ i0 # rest" using valid_blocks(1) [OF valid b] by (auto simp: neq_Nil_conv)
  define c1 where "c1 = c\<lparr>cur_pos := At i0\<rparr>"
  have "inst_block (fn_layout ?f) i0 = Some b" unfolding inst_block_iff [OF wf] lay by simp
  then have goto: "goto_first_inst b c = Some c1" using lay by (simp add: goto_first_inst_def first_inst_def goto_inst_def c1_def)
  have nxt: "next_inst c1 = (case rest of [] \<Rightarrow> Some (None, c1\<lparr>cur_pos := After b\<rparr>) | j # _ \<Rightarrow> Some (Some j, c1\<lparr>cur_pos := At j\<rparr>))"
    by (rule next_inst_at) (use wf lay in \<open>simp_all add: c1_def\<close>)
  show ?thesis
  proof (cases rest)
    case Nil
    then show ?thesis using goto nxt callable_keeps_refl [OF call] by (simp add: use_results_def c1_def)
  next
    case (Cons i post)
    then have sp: "lo_insts (fn_layout ?f) b = [i0] @ i # post" using lay by simp
    have "inst_ok UNIV (flow_dom ?f) ?f b [i0] i" using valid_blocks(2) [OF valid b] sp unfolding block_ok_def by blast
    then obtain d where d: "nth_opt (dfg_insts ?f) i = Some d" "\<forall>v \<in> set (inst_uses ?f d). avail UNIV (flow_dom ?f) ?f b [i0] v"
      unfolding inst_ok_def by blast
    show ?thesis
    proof (cases "inst_opcode d \<in> set memory_opcodes")
      case True
      then show ?thesis using goto nxt Cons d(1) callable_keeps_refl [OF call] by (simp add: use_results_def c1_def)
    next
      case False
      let ?rs = "dfg_results ?f ! n"
      have rs: "n < length (dfg_results ?f)" "length ?rs = length ts"
        "\<And>k. k < length ts \<Longrightarrow> nth_opt (dfg_values ?f) (?rs ! k) = Some (ValInst (ts ! k) k n)" using res unfolding results_ok_def by blast+
      have vt: "map (value_type ?f) ?rs = map Some ts" using rs(2,3) by (auto simp: list_eq_iff_nth_eq value_type_def)
      then have those: "those (map (value_type ?f) ?rs) = Some ts" by simp
      have ps: "\<forall>(t, v) \<in> set (zip ts ?rs). value_type ?f v = Some t" using types_of_zip [of ?f ?rs ts] vt by (auto simp: types_of_def)
      have "v < length (dfg_values ?f)" if "v \<in> set (arguments d)" for v 
        by (rule avail_bound [OF bspec [OF d(2)]]) (use that in \<open>simp add: inst_uses_def\<close>)
      then have "types_of ?f (arguments d) (map (\<lambda>v. vd_type (dfg_values ?f ! v)) (arguments d))"
        by (simp add: types_of_def value_type_def nth_opt_def)
      then obtain us where us: "types_of ?f (arguments d) us" by blast
      obtain ws g' where ws: "replace_args R 2 ?f (zip ts ?rs) (arguments d) g = Some (ws, g')" "types_of ?f ws us" "set ws \<subseteq> set (arguments d) \<union> snd ` set (zip ts ?rs)" "global_rng g' = global_rng g" 
        using replace_args_ex [OF R ps us] by blast
      have mt: "map (value_type ?f) ws = map (value_type ?f) (arguments d)" using us ws(2) by (simp add: types_of_def)
      have av: "avail UNIV (flow_dom ?f) ?f b [i0] v" if v: "v \<in> set ?rs" for v
      proof -
        obtain k where "k < length ts" "v = ?rs ! k" using v rs(2) by (metis in_set_conv_nth)
        then have "def_at UNIV ?f p (lo_insts (fn_layout ?f) p) v" using rs def by (auto simp: def_at_def)
        then show ?thesis using dom unfolding avail_def by blast
      qed
      define f' where "f' = set_inst i (set_arguments ws d) ?f"
      have "snd ` set (zip ts ?rs) \<subseteq> set ?rs" by (auto dest: set_zip_rightD)
      then have "\<forall>v \<in> set ws. v \<in> set (arguments d) \<or> avail UNIV (flow_dom ?f) ?f b [i0] v" using ws(3) av by blast
      note va = valid_set_args [OF valid fr b sp d(1) _ this f'_def]
      have se: "same_env ?f f'" by (rule va(3) [OF mt])
      have "extends ?f f'" using same_env_grows [OF se] by (simp add: extends_def f'_def set_inst_def)
      then have "keeps ?f f'" using va [OF mt] by (simp add: keeps_def)
      moreover have "nth_opt (dfg_results ?f) n = Some ?rs" using rs(1) by simp
      ultimately show ?thesis using goto nxt Cons d(1) False those ws(1,4)
        by (simp add: use_results_def c1_def f'_def set_inst_def)
    qed
  qed
qed

lemma dominated_blocks:
  assumes call: "callable T doms defs f" and p: "p \<in> set (blocks_of f)" and b: "b \<in> set (removeAll p (get_dominated_blocks p doms))"
  shows "b \<in> set (blocks_of f)" and "flow_dom f p b" and "p \<noteq> b"
proof -
  obtain bs where bs: "(b, bs) \<in> set doms" "p \<in> bs" using b by (auto simp: get_dominated_blocks_def)
  have fst: "map fst doms = blocks_of f" and d: "doms_ok doms (flow_dom f) f" using call by (simp_all add: callable_def)
  have dist: "distinct (map fst doms)" using call fst by (simp add: callable_def frame_ok_def wf_layout_def)
  show bb: "b \<in> set (blocks_of f)" using bs(1) unfolding fst [symmetric] by force
  have "map_of doms b = Some bs" using bs(1) dist by simp
  then show "flow_dom f p b" using d bb bs(2) unfolding doms_ok_def by auto
  show "p \<noteq> b" using b by auto
qed

lemma insert_call_valid:
  assumes R: "rand_ok R" and call: "callable T doms defs (cur_func c)" and T: "set (sig_params sg) \<subseteq> T"
    and ef: "nth_opt (ext_funcs (cur_func c)) fr = Some ef" "nth_opt (signatures (cur_func c)) (ef_sig ef) = Some sg"
    and nm: "fn_name (cur_func c) = fn_name function"
  shows "\<exists>c' g'. insert_call R sg fr (function, doms, defs) (c, g) = Some (c', g') \<and> keeps (cur_func c) (cur_func c') \<and>
    global_rng g' = global_rng g"
proof -
  let ?f = "cur_func c"
  have valid: "valid_func ?f" and fr: "frame_ok ?f" and fst: "map fst doms = blocks_of ?f" and doms: "doms_ok doms (flow_dom ?f) ?f"
    and rec: "recorded_all UNIV ?f defs" and two: "2 \<le> length (blocks_of ?f)" using call by (simp_all add: callable_def)
  have wf: "wf_layout (fn_layout ?f)" using fr by (simp add: frame_ok_def)
  have "length (sort (map fst doms)) = length (blocks_of ?f)" "set (sort (map fst doms)) = set (blocks_of ?f)" by (simp_all add: fst)
  then have tl: "sort (map fst doms) \<noteq> []" "tl (sort (map fst doms)) \<noteq> []" "set (tl (sort (map fst doms))) \<subseteq> set (blocks_of ?f)"
    using two by (cases "sort (map fst doms)"; auto)+
  obtain b g1 where b: "thread_choose R (tl (sort (map fst doms))) g = Some (b, g1)" "b \<in> set (blocks_of ?f)" "global_rng g1 = global_rng g"
    using thread_choose_ex [OF R tl(2)] tl(3) by blast
  obtain body t where lay: "lo_insts (fn_layout ?f) b = body @ [t]" and res: "dfg_results ?f ! t = []" by (rule valid_terminator [OF valid b(2)])
  define c1 where "c1 = c\<lparr>cur_pos := At t\<rparr>"
  have "inst_block (fn_layout ?f) t = Some b" unfolding inst_block_iff [OF wf] lay by simp
  then have goto: "goto_last_inst b c = Some c1" using lay by (simp add: goto_last_inst_def last_inst_def goto_inst_def c1_def)
  have at: "ins_at c1 b body [t]" using fr b(2) lay by (simp add: ins_at_def c1_def)
  have "\<forall>ty \<in> set (sig_params sg). get_dominator_values_with_type (env_at doms defs b) ty \<noteq> []" using entry_candidates [OF call b(2)] T by blast
  then obtain vs g2 where vs: "pick_values R (env_at doms defs b) (sig_params sg) g1 = Some (vs, g2)" "types_of ?f vs (sig_params sg)"
    "set vs \<subseteq> candidates (env_at doms defs b)" "global_rng g2 = global_rng g1"
    using pick_values_ex [OF R env_at_ok] doms rec b(2) by blast
  have own: "recorded UNIV ?f b body tvs" if "map_of defs b = Some tvs" for tvs
    by (rule recorded_no_results [of _ _ _ _ "[t]"]) (use rec that lay [symmetric] res in \<open>simp_all add: recorded_all_def\<close>)
  have av: "\<forall>v \<in> set (inst_uses ?f (Call fr vs)). avail UNIV (flow_dom ?f) ?f b body v"
    using env_avail [OF doms b(2) rec own] vs(3) by (auto simp: inst_uses_def)
  define n where "n = length (dfg_insts ?f)"
  define f' where "f' = put_inst b body [t] (Call fr vs) (sig_returns sg) ?f"
  have ins: "ins_call fr vs c1 = Some (n, c1\<lparr>cur_func := f'\<rparr>)" unfolding ins_call_def build_inst_put [OF at]
    using ef by (simp add: c1_def f'_def n_def)
  have gr: "grows UNIV ?f f'" unfolding f'_def by (rule grows_put [OF lay])
  have rok: "results_ok f' n (sig_returns sg)" unfolding f'_def n_def by (rule put_results [OF fr])
  have "inst_typed f' n (Call fr vs)" using ef rok grows_types_of [OF gr vs(2)] by (simp add: f'_def)
  note vp = valid_put [OF valid fr b(2) lay f'_def this [unfolded n_def] _ av, simplified]
  have k: "keeps ?f f'" using vp by (simp add: keeps_def)
  have call': "callable T doms defs f'" by (rule callable_keeps [OF call k])
  have n: "n \<in> set (lo_insts (fn_layout f') b)" by (simp add: f'_def n_def)
  let ?D = "removeAll b (get_dominated_blocks b doms)"
  show ?thesis
  proof (cases "?D = []")
    case True
    then show ?thesis using nm tl(1) b goto vs(1,4) ins k by (simp add: insert_call_def c1_def)
  next
    case False
    obtain mb g3 where mb: "thread_choose R ?D g2 = Some (mb, g3)" "mb \<in> set ?D" "global_rng g3 = global_rng g2" using thread_choose_ex [OF R False] by blast
    have "b \<in> set (blocks_of f')" using b(2) by (simp add: f'_def)
    note db = dominated_blocks [OF call' this mb(2)]
    obtain c' g' where u: "use_results R n mb (c1\<lparr>cur_func := f'\<rparr>) g3 = Some (c', g')" "keeps f' (cur_func c')"
      "global_rng g' = global_rng g3"
      using use_results_valid [OF R, of T doms defs "c1\<lparr>cur_func := f'\<rparr>" mb n "sig_returns sg" b g3] call' db rok n by auto
    have "keeps ?f (cur_func c')" by (rule keeps_trans [OF k u(2)])
    then show ?thesis using nm tl(1) b goto vs(1,4) ins False mb(1,3) u(1,3) by (simp add: insert_call_def c1_def)
  qed
qed

subsection \<open>Importing the callee\<close>

lemma import_keeps:
  assumes valid: "valid_func f" and fr: "frame_ok f" and imp: "import_function sg nm f = (r, f')"
  shows "keeps f f'" and "\<exists>ef. nth_opt (ext_funcs f') r = Some ef \<and> nth_opt (signatures f') (ef_sig ef) = Some sg"
proof -
  have f': "f' = f\<lparr>signatures := signatures f @ [sg], ext_funcs := ext_funcs f @ [\<lparr>ef_name = nm, ef_sig = length (signatures f)\<rparr>]\<rparr>"
    and r: "r = length (ext_funcs f)" using imp by (simp_all add: import_function_def)
  have e: "fn_layout f' = fn_layout f" "dfg_blocks f' = dfg_blocks f" "dfg_insts f' = dfg_insts f" "dfg_values f' = dfg_values f"
    "dfg_results f' = dfg_results f" "fn_sig f' = fn_sig f" "jump_tables f' = jump_tables f" "fn_name f' = fn_name f" by (simp_all add: f')
  have ext: "extends f f'" by (simp add: extends_def grows_def e) (simp add: f')
  have pw: "\<forall>b \<in> set (blocks_of f). params_wf f b" using valid_blocks(3) [OF valid] by blast
  have flow: "wf_flow f'" "flow_edges f' = flow_edges f" "flow_entry f' = flow_entry f"
  proof -
    have "\<exists>d. nth_opt (dfg_insts f) i = Some d" if "last_inst (fn_layout f) b = Some i" for b i
    proof -
      have "i \<in> set (lo_insts (fn_layout f) b)" using that by (auto simp: last_inst_def split: if_splits list.splits)
      then show ?thesis using frame_bound [OF fr] by (auto simp: nth_opt_def)
    qed
    then show "wf_flow f'" "flow_edges f' = flow_edges f" "flow_entry f' = flow_entry f"
      using same_flow [OF valid, of f'] fr unfolding e frame_ok_def by blast+
  qed
  have "block_ok (flow_dom f) f' b" if b: "b \<in> set (blocks_of f)" for b
  proof -
    have bo: "block_ok (flow_dom f) f b" by (rule valid_blocks(2) [OF valid b])
    have "inst_ok UNIV (flow_dom f) f' b pre i" if "inst_ok UNIV (flow_dom f) f b pre i" for pre i
      by (rule inst_ok_extends [OF ext that pw _ subset_refl]) (simp add: e)
    then show ?thesis using bo unfolding block_ok_def e by blast
  qed
  then have "valid_func f'" using valid flow unfolding valid_func_def types_of_def value_type_def e by simp
  then show "keeps f f'" using fr ext flow unfolding keeps_def frame_ok_def e by simp
  show "\<exists>ef. nth_opt (ext_funcs f') r = Some ef \<and> nth_opt (signatures f') (ef_sig ef) = Some sg" by (simp add: f' r nth_append)
qed

lemma keeps_callee:
  assumes "keeps f f'" and "nth_opt (ext_funcs f) r = Some ef" and "nth_opt (signatures f) (ef_sig ef) = Some sg"
  shows "nth_opt (ext_funcs f') r = Some ef" and "nth_opt (signatures f') (ef_sig ef) = Some sg"
  using assms by (auto simp: keeps_def extends_def nth_append)

text \<open>The list of generated functions, as far as it concerns the function \<open>f\<close>.\<close>

definition callables :: "clif_type set \<Rightarrow> generated list \<Rightarrow> func \<Rightarrow> bool" where
  "callables T entries f \<longleftrightarrow> valid_func f \<and> frame_ok f \<and>
     (\<forall>function doms defs. (function, doms, defs) \<in> set entries \<longrightarrow> fn_name f = fn_name function \<longrightarrow> callable T doms defs f)"

lemma callables_keeps: "callables T entries f \<Longrightarrow> keeps f f' \<Longrightarrow> callables T entries f'"
  using callable_keeps unfolding callables_def keeps_def extends_def by metis

lemma keeps_refl: "callables T entries f \<Longrightarrow> keeps f f"
  by (simp add: keeps_def callables_def)

lemma insert_calls_valid:
  assumes R: "rand_ok R" and T: "set (sig_params sg) \<subseteq> T"
  shows "callables T all (cur_func c) \<Longrightarrow> set entries \<subseteq> set all \<Longrightarrow> nth_opt (ext_funcs (cur_func c)) r = Some ef \<Longrightarrow>
    nth_opt (signatures (cur_func c)) (ef_sig ef) = Some sg \<Longrightarrow>
    \<exists>c' g'. foldM (insert_call R sg r) entries (c, g) = Some (c', g') \<and> keeps (cur_func c) (cur_func c') \<and> global_rng g' = global_rng g"
proof (induction entries arbitrary: c g)
  case Nil
  then show ?case using keeps_refl by auto
next
  case (Cons e es)
  obtain fu doms defs where e: "e = (fu, doms, defs)" by (cases e)
  obtain c1 g1 where c1: "insert_call R sg r e (c, g) = Some (c1, g1)" "keeps (cur_func c) (cur_func c1)" "global_rng g1 = global_rng g"
  proof (cases "fn_name (cur_func c) = fn_name fu")
    case True
    then have "callable T doms defs (cur_func c)" using Cons.prems(1,2) e unfolding callables_def by auto
    then show thesis using insert_call_valid [OF R _ T Cons.prems(3,4) True] that e by blast
  next
    case False
    then show thesis using that [of c g] keeps_refl [OF Cons.prems(1)] e by (simp add: insert_call_def)
  qed
  obtain c2 g2 where "foldM (insert_call R sg r) es (c1, g1) = Some (c2, g2)" "keeps (cur_func c1) (cur_func c2)" "global_rng g2 = global_rng g1"
    using Cons.IH [OF callables_keeps [OF Cons.prems(1) c1(2)] _ keeps_callee [OF c1(2) Cons.prems(3,4)]] Cons.prems(2) by force
  then show ?case using c1 keeps_trans by auto
qed

lemma invoke_child_valid:
  assumes R: "rand_ok R" and call: "callables T entries f" and T: "set (sig_params (fn_sig child)) \<subseteq> T" and nm: "fn_name child = User ns k"
  shows "\<exists>f' g'. invoke_child R entries child (f, g) = Some (f', g') \<and> keeps f f' \<and> global_rng g' = global_rng g"
proof -
  obtain r f1 where imp: "import_function (fn_sig child) (User ns k) f = (r, f1)" by fastforce
  have v: "valid_func f" "frame_ok f" using call by (simp_all add: callables_def)
  note k = import_keeps [OF v imp]
  then obtain ef where ef: "nth_opt (ext_funcs f1) r = Some ef" "nth_opt (signatures f1) (ef_sig ef) = Some (fn_sig child)" by blast
  obtain c' g' where "foldM (insert_call R (fn_sig child) r) entries (cursor_new f1, g) = Some (c', g')" "keeps f1 (cur_func c')" "global_rng g' = global_rng g"
    using insert_calls_valid [OF R T, of entries "cursor_new f1" entries r ef g] callables_keeps [OF call k(1)] ef by (auto simp: cursor_new_def)
  then show ?thesis using imp nm keeps_trans [OF k(1)] by (simp add: invoke_child_def)
qed

lemma invoke_children_valid:
  assumes R: "rand_ok R"
  shows "callables T entries f \<Longrightarrow> \<forall>h \<in> set hs. set (sig_params (fn_sig h)) \<subseteq> T \<and> (\<exists>ns k. fn_name h = User ns k) \<Longrightarrow>
    \<exists>f' g'. foldM (invoke_child R entries) hs (f, g) = Some (f', g') \<and> keeps f f' \<and> global_rng g' = global_rng g"
proof (induction hs arbitrary: f g)
  case Nil
  then show ?case using keeps_refl by auto
next
  case (Cons h hs)
  obtain f1 g1 where 1: "invoke_child R entries h (f, g) = Some (f1, g1)" "keeps f f1" "global_rng g1 = global_rng g"
    using invoke_child_valid [OF R Cons.prems(1)] Cons.prems(2) by (metis list.set_intros(1))
  moreover obtain f2 g2 where "foldM (invoke_child R entries) hs (f1, g1) = Some (f2, g2)" "keeps f1 f2" "global_rng g2 = global_rng g1"
    using Cons.IH [OF callables_keeps [OF Cons.prems(1) 1(2)]] Cons.prems(2) by force
  ultimately show ?case using keeps_trans by auto
qed

end
