(* ===== verification/Selector_Total.thy ===== *)
theory Selector_Total
  imports Clif_Verify
begin

text \<open>
  When the selector cannot panic. Every arm returns on a mode whose lists of types are present, not
  empty and offered by the dominating blocks where the arm unwraps its choice (\<open>answered\<close>), if the
  draws of \<open>fcmp\<close> end.
\<close>

subsection \<open>Computations that return\<close>

definition runs :: "'a option \<Rightarrow> bool" where
  "runs x \<longleftrightarrow> x \<noteq> None"

lemma runs_Some [simp]: "runs (Some x)" "\<not> runs None"
  by (simp_all add: runs_def)

lemma runsE: "runs x \<Longrightarrow> (\<And>y. x = Some y \<Longrightarrow> P) \<Longrightarrow> P"
  by (auto simp: runs_def)

lemma runs_bind: "runs x \<Longrightarrow> (\<And>y. x = Some y \<Longrightarrow> runs (f y)) \<Longrightarrow> runs (Option.bind x f)"
  by (auto simp: runs_def)

definition draws :: "operand_type list option \<Rightarrow> bool" where
  "draws types \<longleftrightarrow> (case types of None \<Rightarrow> False | Some ts \<Rightarrow> ts \<noteq> [])"

definition can_insert :: "cursor \<Rightarrow> bool" where
  "can_insert c \<longleftrightarrow> (\<exists>b body rest. ins_at c b body rest)"

lemma runs_pick: "rand_ok R \<Longrightarrow> xs \<noteq> [] \<Longrightarrow> runs (pick R xs g)"
  using pick_ex [of R xs g] by (auto simp: runs_def)

lemma runs_thread_choose: "rand_ok R \<Longrightarrow> xs \<noteq> [] \<Longrightarrow> runs (thread_choose R xs g)"
  using thread_choose_ex [of R xs g] by (auto simp: runs_def)

lemma runs_thread_gen_range: "rand_ok R \<Longrightarrow> n < k \<Longrightarrow> runs (thread_gen_range R n k g)"
  using thread_gen_range_ex [of R n k g] by (auto simp: runs_def)

lemma runs_two_operands: "rand_ok R \<Longrightarrow> xs \<noteq> [] \<Longrightarrow> runs (two_operands R t xs g)"
  unfolding two_operands_def by (auto intro!: runs_bind runs_pick)

lemma runs_choose_type: "rand_ok R \<Longrightarrow> draws types \<Longrightarrow> runs (choose_type R types g)"
  unfolding choose_type_def draws_def by (auto intro!: runs_bind runs_thread_choose split: option.splits)

lemma runs_random_intcc: "rand_ok R \<Longrightarrow> runs (random_intcc R g)"
  unfolding random_intcc_def by (rule runs_thread_choose) simp_all

lemma runs_shuffle_lanes: "rand_ok R \<Longrightarrow> runs (shuffle_lanes R n g)"
  by (induction n arbitrary: g) (auto intro!: runs_bind runs_thread_gen_range)

lemmas runs_draws = runs_pick runs_thread_choose runs_thread_gen_range runs_two_operands runs_choose_type runs_random_intcc runs_shuffle_lanes

lemma ins_op_runs:
  assumes "can_insert c" and "types_of (cur_func c) args ts" and "op_types m ty ts = Some rs"
  shows "\<exists>c'. ins_op m ty imms args c = Some ([length (dfg_values (cur_func c))..<length (dfg_values (cur_func c)) + length rs], c') \<and>
    can_insert c' \<and> stack_slots (cur_func c') = stack_slots (cur_func c)"
proof -
  obtain oc ct where oc: "constraints m = Some oc" "ctrl_type oc ty args (cur_func c) = Some ct" "result_types oc ct = Some rs"
    using assms(2,3) by (auto simp: op_types_def ctrl_type_types bind_eq_Some_conv split: if_splits)
  obtain b body rest where at: "ins_at c b body rest" using assms(1) by (auto simp: can_insert_def)
  then show ?thesis using oc ins_at_put [OF at, of "Op m (mask_immediates m ct imms) args" rs]
    by (auto simp: ins_op_def Let_def can_insert_def build_inst_put [OF at])
qed

lemma ins_value_runs:
  assumes "can_insert c" and "types_of (cur_func c) args ts" and "op_yields m ty ts (Some r)"
  shows "\<exists>v c'. ins_value m ty imms args c = Some (v, c') \<and> can_insert c' \<and> stack_slots (cur_func c') = stack_slots (cur_func c)"
proof -
  obtain rs where rs: "op_types m ty ts = Some rs" "nth_opt rs 0 = Some r" using assms(3) by (auto simp: op_yields_def split: option.splits)
  then have "0 < length rs" by (auto simp: nth_opt_def split: if_splits)
  then show ?thesis using ins_op_runs [OF assms(1,2) rs(1), of imms] by (auto simp: ins_value_def nth_opt_def)
qed

lemma ins_plain_runs:
  assumes "can_insert c" and "types_of (cur_func c) args ts" and "op_yields m ty ts r"
  shows "\<exists>c'. ins_plain m ty imms args c = Some c' \<and> can_insert c' \<and> stack_slots (cur_func c') = stack_slots (cur_func c)"
proof -
  obtain rs where rs: "op_types m ty ts = Some rs" using assms(3) by (auto simp: op_yields_def split: option.splits)
  then show ?thesis using ins_op_runs [OF assms(1,2) rs(1), of imms] by (auto simp: ins_plain_def)
qed

text \<open>The cursor of an arm, and what an emission needs: operands among the candidates, or among them
  and the address.\<close>

definition at_work :: "dom_env \<Rightarrow> cursor \<Rightarrow> bool" where
  "at_work D c \<longleftrightarrow> env_ok D (cur_func c) \<and> can_insert c \<and> 0 < length (stack_slots (cur_func c))"

lemma runs_value: "op_yields m ty ts (Some r) \<Longrightarrow> args_from D args ts \<Longrightarrow> at_work D c \<Longrightarrow> runs (ins_value m ty imms args c)"
  using ins_value_runs [of c args ts m ty r imms] args_from_types [of D args ts "cur_func c"] by (auto simp: at_work_def runs_def)

lemma runs_plain: "op_yields m ty ts r \<Longrightarrow> args_from D args ts \<Longrightarrow> at_work D c \<Longrightarrow> runs (ins_plain m ty imms args c)"
  using ins_plain_runs [of c args ts m ty r imms] args_from_types [of D args ts "cur_func c"] by (auto simp: at_work_def runs_def)

lemma runs_address:
  assumes "rand_ok R" and "at_work D c"
  shows "runs (slot_address R c g)" and "runs (random_stack_slot R c g)" and "runs (ins_value ''stack_addr'' I64 imms [] c)"
proof -
  show a: "runs (ins_value ''stack_addr'' I64 imms [] c)" for imms by (rule runs_value [OF stack_addr_yields _ assms(2)]) simp
  show "runs (random_stack_slot R c g)" unfolding random_stack_slot_def
    by (rule runs_thread_choose) (use assms in \<open>simp_all add: at_work_def\<close>)
  then show "runs (slot_address R c g)" unfolding slot_address_def by (auto intro!: runs_bind a)
qed

lemma address_types:
  assumes "ins_value ''stack_addr'' I64 imms [] c = Some (addr, c1)" and "at_work D c" and "args_at D addr args ts"
  shows "types_of (cur_func c1) args ts" and "can_insert c1"
proof -
  have env: "env_ok D (cur_func c)" and ci: "can_insert c" using assms(2) by (simp_all add: at_work_def)
  show "types_of (cur_func c1) args ts" by (rule address_emits [OF assms(1) env]) (use assms(3) in blast)
  show "can_insert c1" using ins_value_runs [OF ci _ stack_addr_yields, of "[]" imms] assms(1) by auto
qed

lemma runs_memory:
  assumes "ins_value ''stack_addr'' I64 imms' [] c = Some (addr, c1)" and "at_work D c" and "args_at D addr args ts"
  shows "op_yields m ty ts (Some r) \<Longrightarrow> runs (ins_value m ty imms args c1)" and "op_yields m ty ts r' \<Longrightarrow> runs (ins_plain m ty imms args c1)"
  using ins_value_runs [OF address_types(2,1) [OF assms], of m ty r imms] ins_plain_runs [OF address_types(2,1) [OF assms], of m ty r' imms]
  by (auto simp: runs_def)

subsection \<open>The schemes return\<close>

definition arm_total :: "dom_env \<Rightarrow> 'r arm \<Rightarrow> mode \<Rightarrow> bool" where
  "arm_total D arm md \<longleftrightarrow> (\<forall>c g. at_work D c \<longrightarrow> runs (arm md c g))"

lemma arm_totalI: "(\<And>c g. at_work D c \<Longrightarrow> runs (arm md c g)) \<Longrightarrow> arm_total D arm md"
  by (simp add: arm_total_def)

text \<open>The types of a mode are offered, and the arm knows the type of its result.\<close>

definition offers :: "dom_env \<Rightarrow> clif_type list \<Rightarrow> bool" where
  "offers D T \<longleftrightarrow> (\<forall>t \<in> set T. get_dominator_values_with_type D t \<noteq> [])"

definition asks :: "clif_type list \<Rightarrow> operand_type list option \<Rightarrow> bool" where
  "asks T types \<longleftrightarrow> draws types \<and> mode_types types \<subseteq> set T"

definition known :: "(clif_type \<Rightarrow> bool) \<Rightarrow> mode \<Rightarrow> bool" where
  "known P md \<longleftrightarrow> draws (mode_operand_types md) \<and> (\<forall>t \<in> mode_types (mode_operand_types md). P t)"

lemma asksD: "asks T types \<Longrightarrow> draws types"
  by (simp add: asks_def)

lemma asks_offered: "asks T types \<Longrightarrow> offers D T \<Longrightarrow> t \<in> mode_types types \<Longrightarrow> get_dominator_values_with_type D t \<noteq> []"
  by (auto simp: asks_def offers_def)

lemma knownD: "known P md \<Longrightarrow> draws (mode_operand_types md)" "known P md \<Longrightarrow> t \<in> mode_types (mode_operand_types md) \<Longrightarrow> P t"
  by (simp_all add: known_def)

lemma runs_known: "known (\<lambda>t. result t \<noteq> None) md \<Longrightarrow> t \<in> mode_types (mode_operand_types md) \<Longrightarrow> runs (result t)"
  by (auto simp: known_def runs_def)

lemma binary_arm_total:
  assumes R: "rand_ok R" and op: "uses m (\<lambda>t. [t, t]) result md" and k: "known (\<lambda>t. result t \<noteq> None) md"
  shows "arm_total D (binary_arm R D m imms result) md" and "arm_total D (binary_self_arm R D m result) md"
proof -
  have y: "runs (ins_value m t imms [x, y] c)"
    if t: "t \<in> mode_types (mode_operand_types md)" and "args_from D [x, y] [t, t]" "at_work D c" for t x y c imms
  proof -
    obtain r where "result t = Some r" using knownD(2) [OF k t] by blast
    then show ?thesis by (rule runs_value [OF usesD [OF op t] that(2,3)])
  qed
  show "arm_total D (binary_arm R D m imms result) md" and "arm_total D (binary_self_arm R D m result) md"
    by (rule arm_totalI, auto simp: binary_arm_def binary_self_arm_def Let_def knownD(1) [OF k] simp del: args_from_simps
        intro!: runs_bind runs_draws [OF R] y runs_known [OF k] dest!: choose_type_SomeD [OF _ R] two_operands_offered [OF _ R])+
qed

lemma unless_no_types_total: "draws (mode_operand_types md) \<Longrightarrow> arm_total D arm md \<Longrightarrow> arm_total D (unless_no_types arm) md"
  by (auto simp: arm_total_def unless_no_types_def draws_def split: option.splits)

lemma shift_arm_total:
  assumes R: "rand_ok R" and T: "offers D T" and op: "uses_pair m (\<lambda>t0 t1. [t0, t1]) md"
    and a: "asks T (mode_arg0_types md)" "asks T (mode_arg1_types md)"
  shows "arm_total D (shift_arm R D m) md"
  by (rule arm_totalI) (auto simp: shift_arm_def asksD [OF a(1)] asksD [OF a(2)] asks_offered [OF a(1) T] asks_offered [OF a(2) T]
      intro!: runs_bind runs_draws [OF R] runs_value [OF uses_pairD(1) [OF op]] dest!: choose_type_SomeD [OF _ R] pick_SomeD [OF _ R])

lemma select_arm_total:
  assumes R: "rand_ok R" and T: "offers D T" and op: "uses_select m md" and a: "asks T (mode_arg0_types md)"
  shows "arm_total D (select_arm R D m) md"
  by (rule arm_totalI) (auto simp: select_arm_def Let_def asksD [OF a(1)] asks_offered [OF a(1) T]
      intro!: runs_bind runs_draws [OF R] runs_value [OF uses_pairD(2) [OF op]] dest!: choose_type_SomeD [OF _ R] pick_SomeD [OF _ R])

lemma sel_bmask_total:
  assumes R: "rand_ok R" and T: "offers D T" and op: "uses_pair ''bmask'' (\<lambda>t0 t1. [t1]) md"
    and a: "draws (mode_arg0_types md)" "asks T (mode_arg1_types md)"
  shows "arm_total D (sel_bmask R D) md"
  by (rule arm_totalI) (auto simp: sel_bmask_def a(1) asksD [OF a(2)] asks_offered [OF a(2) T]
      intro!: runs_bind runs_draws [OF R] runs_value [OF uses_pairD(1) [OF op]] dest!: choose_type_SomeD [OF _ R] pick_SomeD [OF _ R])

text \<open>The arms that unwrap a candidate of the drawn type.\<close>

lemma asking_arms_total:
  assumes R: "rand_ok R" and T: "offers D T" and a: "asks T (mode_operand_types md)"
  shows "uses m (\<lambda>t. [t]) Some md \<Longrightarrow> arm_total D (imm_arm R D m) md"
    and "uses m (\<lambda>t. [t]) (\<lambda>t. Some (result t)) md \<Longrightarrow> arm_total D (unary_arm R D m result) md"
    and "uses ''icmp_imm'' (\<lambda>t. [t]) (\<lambda>_. Some I8) md \<Longrightarrow> arm_total D (sel_icmp_imm R D) md"
    and "uses ''bitselect'' (\<lambda>t. [t, t, t]) Some md \<Longrightarrow> arm_total D (sel_bitselect R D) md"
    and "uses m (\<lambda>t. [t, I64]) (\<lambda>_. None) md \<Longrightarrow> arm_total D (store_arm R D m imms) md"
    and "uses ''istore8'' (\<lambda>t. [t, I64]) (\<lambda>_. None) md \<Longrightarrow> arm_total D (sel_istore8 R D) md"
    and "uses ''atomic_rmw'' (\<lambda>t. [I64, t]) Some md \<Longrightarrow> arm_total D (sel_atomic_rmw R D) md"
proof -
  note a' [simp] = asksD [OF a] asks_offered [OF a T]
  note i = runs_bind runs_draws [OF R] runs_address [OF R]
  note d = choose_type_SomeD [OF _ R] pick_SomeD [OF _ R] slot_address_SomeD [OF _ R] random_intcc_SomeD [OF _ R]
  show "uses m (\<lambda>t. [t]) Some md \<Longrightarrow> arm_total D (imm_arm R D m) md"
    by (rule arm_totalI) (auto simp: imm_arm_def Let_def case_prod_unfold intro!: i runs_value [OF usesD] dest!: d)
  show "uses m (\<lambda>t. [t]) (\<lambda>t. Some (result t)) md \<Longrightarrow> arm_total D (unary_arm R D m result) md"
    by (rule arm_totalI) (auto simp: unary_arm_def intro!: i runs_value [OF usesD] dest!: d)
  show "uses ''icmp_imm'' (\<lambda>t. [t]) (\<lambda>_. Some I8) md \<Longrightarrow> arm_total D (sel_icmp_imm R D) md"
    by (rule arm_totalI) (auto simp: sel_icmp_imm_def Let_def case_prod_unfold intro!: i runs_value [OF usesD] dest!: d)
  show "uses ''bitselect'' (\<lambda>t. [t, t, t]) Some md \<Longrightarrow> arm_total D (sel_bitselect R D) md"
    by (rule arm_totalI) (auto simp: sel_bitselect_def Let_def intro!: i runs_value [OF usesD] dest!: d)
  show "uses m (\<lambda>t. [t, I64]) (\<lambda>_. None) md \<Longrightarrow> arm_total D (store_arm R D m imms) md"
    by (rule arm_totalI) (auto simp: store_arm_def intro!: i runs_memory(2) [OF _ _ _ uses_plainD] dest!: d)
  show "uses ''istore8'' (\<lambda>t. [t, I64]) (\<lambda>_. None) md \<Longrightarrow> arm_total D (sel_istore8 R D) md"
    by (rule arm_totalI) (auto simp: sel_istore8_def intro!: i runs_memory(2) [OF _ _ _ uses_plainD] dest!: d)
  show "uses ''atomic_rmw'' (\<lambda>t. [I64, t]) Some md \<Longrightarrow> arm_total D (sel_atomic_rmw R D) md"
    by (rule arm_totalI) (auto simp: sel_atomic_rmw_def simp del: list.set(2) intro!: i runs_memory(1) [OF _ _ _ usesD]
        dest!: d thread_choose_SomeD [OF _ R])
qed

text \<open>The arms that return without a candidate, or need none.\<close>

lemma drawing_arms_total:
  assumes R: "rand_ok R" and a: "draws (mode_operand_types md)"
  shows "uses m (\<lambda>t. [t]) Some md \<Longrightarrow> arm_total D (unary_guard_arm R D m) md"
    and "uses m (\<lambda>t. [t, t, I8]) Some md \<Longrightarrow> arm_total D (carry_arm R D m) md"
    and "uses ''icmp'' (\<lambda>t. [t, t]) (\<lambda>t. Some (icmp_result t)) md \<Longrightarrow> arm_total D (sel_icmp R D) md"
    and "uses ''shuffle'' (\<lambda>t. [t, t]) (\<lambda>_. Some I8X16) md \<Longrightarrow> arm_total D (sel_shuffle R D) md"
    and "uses ''fma'' (\<lambda>t. [t, t, t]) Some md \<Longrightarrow> arm_total D (sel_fma R D) md"
    and "uses ''isplit'' (\<lambda>t. [t]) half_width md \<Longrightarrow> arm_total D (sel_isplit R D) md"
    and "uses m (\<lambda>_. [I64]) Some md \<Longrightarrow> arm_total D (load_arm R m) md"
    and "uses m (\<lambda>_. [I64]) Some md \<Longrightarrow> arm_total D (load_typed_arm R m) md"
    and "uses ''atomic_load'' (\<lambda>_. [I64]) Some md \<Longrightarrow> arm_total D (sel_atomic_load R D) md"
    and "uses ''stack_load'' (\<lambda>_. []) Some md \<Longrightarrow> arm_total D (sel_stack_load R D) md"
    and "uses ''stack_store'' (\<lambda>t. [t]) (\<lambda>_. None) md \<Longrightarrow> arm_total D (sel_stack_store R D) md"
    and "uses ''store'' (\<lambda>t. [t, I64]) (\<lambda>_. None) md \<Longrightarrow> arm_total D (sel_store R D) md"
    and "uses ''atomic_cas'' (\<lambda>t. [I64, t, t]) Some md \<Longrightarrow> arm_total D (sel_atomic_cas R D) md"
proof -
  note i = runs_bind runs_draws [OF R] runs_address [OF R] a
  note d = choose_type_SomeD [OF _ R] pick_SomeD [OF _ R] slot_address_SomeD [OF _ R] random_intcc_SomeD [OF _ R]
    two_operands_offered [OF _ R] thread_choose_SomeD [OF _ R] random_stack_slot_SomeD [OF _ R]
  show "uses m (\<lambda>t. [t]) Some md \<Longrightarrow> arm_total D (unary_guard_arm R D m) md"
    by (rule arm_totalI) (auto simp: unary_guard_arm_def Let_def intro!: i runs_value [OF usesD] dest!: d)
  show "uses m (\<lambda>t. [t, t, I8]) Some md \<Longrightarrow> arm_total D (carry_arm R D m) md"
    by (rule arm_totalI) (auto simp: carry_arm_def Let_def intro!: i runs_value [OF usesD] dest!: d)
  show "uses ''icmp'' (\<lambda>t. [t, t]) (\<lambda>t. Some (icmp_result t)) md \<Longrightarrow> arm_total D (sel_icmp R D) md"
    by (rule arm_totalI) (auto simp: sel_icmp_def Let_def simp del: args_from_simps intro!: i runs_value [OF usesD] dest!: d)
  show "uses ''shuffle'' (\<lambda>t. [t, t]) (\<lambda>_. Some I8X16) md \<Longrightarrow> arm_total D (sel_shuffle R D) md"
    by (rule arm_totalI) (auto simp: sel_shuffle_def Let_def simp del: args_from_simps intro!: i runs_value [OF usesD] dest!: d)
  show "uses ''fma'' (\<lambda>t. [t, t, t]) Some md \<Longrightarrow> arm_total D (sel_fma R D) md"
    by (rule arm_totalI) (auto simp: sel_fma_def Let_def intro!: i runs_value [OF usesD] dest!: d)
  show "uses ''isplit'' (\<lambda>t. [t]) half_width md \<Longrightarrow> arm_total D (sel_isplit R D) md"
    by (rule arm_totalI) (auto simp: sel_isplit_def Let_def intro!: i runs_value [OF usesD] dest!: d split: option.split)
  show "uses m (\<lambda>_. [I64]) Some md \<Longrightarrow> arm_total D (load_arm R m) md"
    by (rule arm_totalI) (auto simp: load_arm_def intro!: i runs_memory(1) [OF _ _ _ usesD] dest!: d)
  show "uses m (\<lambda>_. [I64]) Some md \<Longrightarrow> arm_total D (load_typed_arm R m) md"
    by (rule arm_totalI) (auto simp: load_typed_arm_def intro!: i runs_memory(1) [OF _ _ _ usesD] dest!: d)
  show "uses ''atomic_load'' (\<lambda>_. [I64]) Some md \<Longrightarrow> arm_total D (sel_atomic_load R D) md"
    by (rule arm_totalI) (auto simp: sel_atomic_load_def intro!: i runs_memory(1) [OF _ _ _ usesD] dest!: d)
  show "uses ''stack_load'' (\<lambda>_. []) Some md \<Longrightarrow> arm_total D (sel_stack_load R D) md"
    by (rule arm_totalI) (auto simp: sel_stack_load_def intro!: i runs_value [OF usesD] dest!: d)
  show "uses ''stack_store'' (\<lambda>t. [t]) (\<lambda>_. None) md \<Longrightarrow> arm_total D (sel_stack_store R D) md"
    by (rule arm_totalI) (auto simp: sel_stack_store_def Let_def intro!: i runs_plain [OF uses_plainD] dest!: d)
  show "arm_total D (sel_store R D) md" if op: "uses ''store'' (\<lambda>t. [t, I64]) (\<lambda>_. None) md"
    by (rule arm_totalI) (auto simp: sel_store_def Let_def intro!: i runs_memory(2) [OF _ _ _ uses_plainD [OF op]] dest!: d)
  show "arm_total D (sel_atomic_cas R D) md" if op: "uses ''atomic_cas'' (\<lambda>t. [I64, t, t]) Some md"
    by (rule arm_totalI) (auto simp: sel_atomic_cas_def Let_def intro!: i runs_memory(1) [OF _ _ _ usesD [OF op]] dest!: d)
qed

text \<open>The draws of \<open>fcmp\<close> must end; the generator that always excluded codes would not return.\<close>

definition fcmp_ends :: "('r, 'x) rand_scheme \<Rightarrow> bool" where
  "fcmp_ends R \<longleftrightarrow> (\<forall>g. runs (fcmp_cond R g))"

lemma sel_fcmp_total:
  assumes R: "rand_ok R" and e: "fcmp_ends R" and a: "draws (mode_operand_types md)"
    and op: "uses ''fcmp'' (\<lambda>t. [t, t]) (\<lambda>t. Some (fcmp_result t)) md"
  shows "arm_total D (sel_fcmp R D) md"
  using e by (intro arm_totalI) (auto simp: sel_fcmp_def Let_def fcmp_ends_def a simp del: args_from_simps
      intro!: runs_bind runs_draws [OF R] runs_value [OF usesD [OF op]] dest!: choose_type_SomeD [OF _ R] two_operands_offered [OF _ R])

subsection \<open>Conversions and lanes return\<close>

lemma fixed_conv_arm_total:
  assumes R: "rand_ok R" and T: "offers D T" "from_t \<in> set T" and op: "op_yields m to_t [from_t] (Some to_t)"
  shows "arm_total D (fixed_conv_arm R D m from_t to_t) md"
  using T by (intro arm_totalI) (auto simp: fixed_conv_arm_def offers_def intro!: runs_bind runs_draws [OF R] runs_value [OF op] dest!: pick_SomeD [OF _ R])

definition resized :: "clif_type list \<Rightarrow> (clif_type \<times> clif_type list) list \<Rightarrow> clif_type \<Rightarrow> bool" where
  "resized T table t = (case map_of table t of None \<Rightarrow> False | Some froms \<Rightarrow> froms \<noteq> [] \<and> set froms \<subseteq> set T)"

lemma resize_arm_total:
  assumes R: "rand_ok R" and T: "offers D T" and k: "known (resized T table) md"
    and op: "list_all (\<lambda>(to_t, froms). list_all (\<lambda>from_t. op_yields m to_t [from_t] (Some to_t)) froms) table"
  shows "arm_total D (resize_arm R D m table) md"
proof -
  have ok: "op_yields m to_t [from_t] (Some to_t)" if "map_of table to_t = Some froms" "from_t \<in> set froms" for to_t froms from_t
    using op that by (auto simp: list_all_iff dest!: map_of_SomeD)
  have r: "\<exists>froms. map_of table t = Some froms \<and> froms \<noteq> [] \<and> (\<forall>u \<in> set froms. get_dominator_values_with_type D u \<noteq> [])"
    if "t \<in> mode_types (mode_operand_types md)" for t
    using knownD(2) [OF k that] T by (auto simp: resized_def offers_def split: option.splits)
  show ?thesis
  proof (rule arm_totalI)
    fix c :: cursor and g :: "'a genv"
    assume w: "at_work D c"
    show "runs (resize_arm R D m table md c g)"
      unfolding resize_arm_def random_type_def
    proof (rule runs_bind, goal_cases)
      case 1
      then show ?case by (rule runs_choose_type [OF R knownD(1) [OF k]])
    next
      case (2 y)
      obtain t g1 where y: "y = (t, g1)" by (cases y)
      then obtain froms where f: "map_of table t = Some froms" "froms \<noteq> []" "\<forall>u \<in> set froms. get_dominator_values_with_type D u \<noteq> []"
        using r 2 choose_type_SomeD [OF _ R] by blast
      show ?case unfolding y using f w ok [OF f(1)]
        by (auto intro!: runs_bind runs_draws [OF R] runs_value dest!: thread_choose_SomeD [OF _ R] pick_SomeD [OF _ R])
    qed
  qed
qed

lemma widen_arm_total:
  assumes R: "rand_ok R" and T: "offers D T"
    and k: "known (resized T [(I16X8, [I8X16]), (I32X4, [I16X8]), (I64X2, [I32X4])]) md"
    and op: "list_all (\<lambda>(to_t, from_t). op_yields m to_t [from_t] (Some to_t)) [(I16X8, I8X16), (I32X4, I16X8), (I64X2, I32X4)]"
  shows "arm_total D (widen_arm R D m) md"
proof -
  define table where "table = [(I16X8, I8X16), (I32X4, I16X8), (I64X2, I32X4)]"
  have ok: "op_yields m to_t [from_t] (Some to_t)" if "map_of table to_t = Some from_t" for to_t from_t
    using op map_of_SomeD [OF that] by (auto simp: list_all_iff table_def)
  have r: "runs (map_of table t)" and r2: "map_of table t = Some u \<Longrightarrow> get_dominator_values_with_type D u \<noteq> []"
    if "t \<in> mode_types (mode_operand_types md)" for t u
    using knownD(2) [OF k that] T by (auto simp: offers_def runs_def resized_def table_def split: option.splits if_splits)
  show ?thesis
    by (rule arm_totalI, auto simp: widen_arm_def [folded table_def] knownD(1) [OF k]
        intro!: runs_bind runs_draws [OF R] r runs_value [OF ok] dest: r2 dest!: choose_type_SomeD [OF _ R] pick_SomeD [OF _ R])
qed

lemma convert_arm_total:
  assumes R: "rand_ok R" and T: "offers D T" and a: "asks T (mode_operand_types md)"
    and op: "list_all (\<lambda>(from_t, to_t). op_yields m to_t [from_t] (Some to_t)) table"
  shows "arm_total D (convert_arm R D m table) md"
proof -
  have ok: "op_yields m to_t [from_t] (Some to_t)" if "map_of table from_t = Some to_t" for to_t from_t
    using op that by (auto simp: list_all_iff dest!: map_of_SomeD)
  show ?thesis
    by (rule arm_totalI) (auto simp: convert_arm_def asksD [OF a] asks_offered [OF a T]
        intro!: runs_bind runs_draws [OF R] runs_value dest!: choose_type_SomeD [OF _ R] pick_SomeD [OF _ R] ok split: option.split)
qed

lemma lane_arms_total:
  assumes R: "rand_ok R" and k: "known (\<lambda>t. extract_vector_type t \<noteq> None) md"
  shows "(\<And>t. ts_contains tv_TxN t \<Longrightarrow> op_yields m t [lane_type t] (Some t)) \<Longrightarrow> arm_total D (lane_to_vector_arm R D m) md"
    and "arm_total D (sel_extractlane R D) md"
proof -
  note i = runs_bind runs_draws [OF R] runs_known [OF k] knownD(1) [OF k]
  note d = choose_type_SomeD [OF _ R] extract_vector_typeD thread_choose_SomeD [OF _ R] thread_gen_range_SomeD [OF _ R]
  show "(\<And>t. ts_contains tv_TxN t \<Longrightarrow> op_yields m t [lane_type t] (Some t)) \<Longrightarrow> arm_total D (lane_to_vector_arm R D m) md"
    by (rule arm_totalI, auto simp: lane_to_vector_arm_def Let_def intro!: i runs_value dest!: d, (assumption | simp)+)
  show "arm_total D (sel_extractlane R D) md"
    by (rule arm_totalI) (auto simp: sel_extractlane_def Let_def intro!: i runs_value [OF lane_ops(3)] dest!: d)
qed

lemma sel_insertlane_total:
  assumes R: "rand_ok R" and T: "offers D T"
    and k: "known (\<lambda>t. extract_vector_type t \<noteq> None) md" and l: "known (\<lambda>t. lane_type t \<in> set T) md"
  shows "arm_total D (sel_insertlane R D) md"
proof -
  have o: "get_dominator_values_with_type D (lane_type t) \<noteq> []" if "t \<in> mode_types (mode_operand_types md)" for t
    using knownD(2) [OF l that] T by (simp add: offers_def)
  show ?thesis
    by (rule arm_totalI, auto simp: sel_insertlane_def Let_def
        intro!: runs_bind runs_draws [OF R] runs_known [OF k] knownD(1) [OF k] runs_value [OF lane_ops(4)] dest: o
        dest!: choose_type_SomeD [OF _ R] extract_vector_typeD thread_choose_SomeD [OF _ R] thread_gen_range_SomeD [OF _ R])
qed

lemma sel_vhigh_bits_total:
  assumes R: "rand_ok R" and a: "draws (mode_operand_types md)"
  shows "arm_total D (sel_vhigh_bits R D) md"
proof -
  define table where "table = [(I8X16, I8), (I16X8, I16), (I32X4, I32), (I64X2, I64)]"
  have ok: "op_yields ''vhigh_bits'' r [t] (Some r)" if "map_of table t = Some r" for t r
    using map_of_SomeD [OF that] by (auto simp: op_eval table_def)
  show ?thesis
    by (rule arm_totalI, auto simp: sel_vhigh_bits_def [folded table_def] Let_def a
        intro!: runs_bind runs_draws [OF R] runs_value dest!: choose_type_SomeD [OF _ R] pick_SomeD [OF _ R] ok split: option.split, (assumption | simp)+)
qed

lemma sel_bitcast_total:
  assumes R: "rand_ok R" and T: "offers D T" and a: "asks T (mode_operand_types md)"
    and k: "known (\<lambda>t. t \<in> {I16, I32, I64, F16, F32, F64, I128, I16X8, I32X4, I64X2, F16X8, F32X4, F64X2}) md"
  shows "arm_total D (sel_bitcast R D) md"
proof -
  have b: "runs (bitcast_type_mapping R t g)" if "t \<in> mode_types (mode_operand_types md)" for t g
    using knownD(2) [OF k that] unfolding bitcast_type_mapping_def random_type_def by (auto intro!: runs_draws [OF R])
  show ?thesis
    by (rule arm_totalI) (auto simp: sel_bitcast_def asksD [OF a] asks_offered [OF a T] intro!: runs_bind runs_draws [OF R] runs_value b
        dest!: choose_type_SomeD [OF _ R] pick_SomeD [OF _ R] bitcast_type_mappingD [OF _ R])
qed

subsection \<open>Arms that ask nothing\<close>

lemma load_fixed_arm_total: "rand_ok R \<Longrightarrow> op_yields m t [I64] (Some t) \<Longrightarrow> arm_total D (load_fixed_arm R m t) md"
  by (rule arm_totalI) (auto simp: load_fixed_arm_def intro!: runs_bind runs_draws runs_address runs_memory(1) dest!: slot_address_SomeD)

lemma register_arm_total: "op_yields m I64 [] (Some I64) \<Longrightarrow> arm_total D (register_arm m) md"
  by (rule arm_totalI) (auto simp: register_arm_def intro!: runs_bind runs_value)

lemma effect_arm_total: "op_yields m INVALID [] None \<Longrightarrow> arm_total D (effect_arm m) md"
  by (rule arm_totalI) (auto simp: effect_arm_def intro!: runs_bind runs_plain)

lemma sel_stack_addr_total: "rand_ok R \<Longrightarrow> arm_total D (sel_stack_addr R D) md"
  by (rule arm_totalI) (auto simp: sel_stack_addr_def intro!: runs_bind runs_address)

lemma sel_set_pinned_reg_total: "rand_ok R \<Longrightarrow> arm_total D (sel_set_pinned_reg R D) md"
proof -
  have op: "op_yields ''set_pinned_reg'' I64 [I64] None" by (simp add: op_eval)
  show "rand_ok R \<Longrightarrow> ?thesis"
    by (rule arm_totalI) (auto simp: sel_set_pinned_reg_def intro!: runs_bind runs_address runs_memory(2) [OF _ _ _ op] dest!: slot_address_SomeD)
qed

lemma const_total:
  "arm_total D (sel_f128const R D) md" "arm_total D (sel_f32const R D) md" "arm_total D (sel_f64const R D) md"
  by (rule arm_totalI, auto simp: sel_f128const_def sel_f32const_def sel_f64const_def Let_def case_prod_unfold
      intro!: runs_bind runs_value [OF const_yields(1)] runs_value [OF const_yields(2)] runs_value [OF const_yields(3)])+

lemma sel_iconst_total: "rand_ok R \<Longrightarrow> arm_total D (sel_iconst R D) md"
proof (rule arm_totalI)
  fix c g assume R: "rand_ok R" and w: "at_work D c"
  have "runs (ins_value ''iconst'' (if n = 0 then I8 else if n = 1 then I16 else if n = 2 then I32 else I64) imms [] c)" for n :: nat and imms
    by (rule runs_value [OF const_yields(4) _ w]) auto
  then show "runs (sel_iconst R D md c g)" unfolding sel_iconst_def Let_def case_prod_unfold
    by (intro runs_bind runs_thread_gen_range [OF R] runs_Some) simp_all
qed

subsection \<open>Answered modes\<close>

text \<open>For each arm, in the order of the table of the arms, what it needs of a mode to return when values
  of the types \<open>T\<close> are available.\<close>

definition draws_op :: "mode \<Rightarrow> bool" where
  "draws_op md \<longleftrightarrow> draws (mode_operand_types md)"

definition asks_op :: "clif_type list \<Rightarrow> mode \<Rightarrow> bool" where
  "asks_op T md \<longleftrightarrow> asks T (mode_operand_types md)"

definition asks_first :: "clif_type list \<Rightarrow> mode \<Rightarrow> bool" where
  "asks_first T md \<longleftrightarrow> asks T (mode_arg0_types md)"

definition asks_pair :: "clif_type list \<Rightarrow> mode \<Rightarrow> bool" where
  "asks_pair T md \<longleftrightarrow> asks T (mode_arg0_types md) \<and> asks T (mode_arg1_types md)"

definition masks :: "clif_type list \<Rightarrow> mode \<Rightarrow> bool" where
  "masks T md \<longleftrightarrow> draws (mode_arg0_types md) \<and> asks T (mode_arg1_types md)"

definition lanes :: "clif_type list \<Rightarrow> mode \<Rightarrow> bool" where
  "lanes T md \<longleftrightarrow> known (\<lambda>t. extract_vector_type t \<noteq> None) md \<and> known (\<lambda>t. lane_type t \<in> set T) md"

definition casts :: "clif_type list \<Rightarrow> mode \<Rightarrow> bool" where
  "casts T md \<longleftrightarrow> asks T (mode_operand_types md) \<and>
     known (\<lambda>t. t \<in> {I16, I32, I64, F16, F32, F64, I128, I16X8, I32X4, I64X2, F16X8, F32X4, F64X2}) md"

definition answered_table :: "clif_type list \<Rightarrow> (opcode \<times> (mode \<Rightarrow> bool)) list" where
  "answered_table T =
     map (\<lambda>m. (m, draws_op))
       [''swizzle'', ''x86_pshufb'', ''smin'', ''umin'', ''smax'', ''umax'', ''avg_round'',
        ''uadd_sat'', ''sadd_sat'', ''usub_sat'', ''ssub_sat'', ''iadd'', ''isub'', ''imul'',
        ''umulhi'', ''smulhi'', ''sqmul_round_sat'', ''x86_pmulhrsw''] @
     [(''x86_pmaddubsw'', draws_op)] @
     map (\<lambda>m. (m, draws_op))
       [''udiv'', ''sdiv'', ''urem'', ''srem'', ''uadd_overflow'', ''sadd_overflow'',
        ''usub_overflow'', ''ssub_overflow'', ''umul_overflow'', ''smul_overflow'',
        ''uadd_overflow_trap'', ''band'', ''bor'', ''bxor'', ''band_not'', ''bor_not'',
        ''bxor_not'', ''fadd'', ''fsub'', ''fmul'', ''fdiv'', ''fcopysign'', ''fmin'', ''fmax''] @
     [(''snarrow'', known (\<lambda>t. map_of [(I16X8, I8X16), (I32X4, I16X8), (I64X2, I32X4)] t \<noteq> None))] @
     [(''unarrow'', known (\<lambda>t. map_of [(I16X8, I8X16), (I32X4, I16X8)] t \<noteq> None))] @
     [(''uunarrow'', known (\<lambda>t. map_of [(I16X8, I8X16), (I32X4, I16X8), (I64X2, I32X4)] t \<noteq> None))] @
     [(''iadd_pairwise'', draws_op)] @
     [(''iconcat'', known (\<lambda>t. map_of [(I64, I128)] t \<noteq> None))] @
     map (\<lambda>m. (m, draws_op))
       [''fcmp'', ''icmp''] @
     [(''icmp_imm'', asks_op T)] @
     [(''shuffle'', draws_op)] @
     map (\<lambda>m. (m, asks_pair T))
       [''rotl'', ''rotr'', ''ishl'', ''ushr'', ''sshr''] @
     map (\<lambda>m. (m, asks_op T))
       [''iadd_imm'', ''imul_imm'', ''udiv_imm'', ''sdiv_imm'', ''urem_imm'', ''srem_imm'',
        ''irsub_imm'', ''band_imm'', ''bor_imm'', ''bxor_imm'', ''rotl_imm'', ''rotr_imm'',
        ''ishl_imm'', ''ushr_imm'', ''sshr_imm''] @
     map (\<lambda>m. (m, draws_op))
       [''ineg'', ''iabs'', ''bnot'', ''bitrev'', ''clz'', ''cls'', ''ctz'', ''bswap'', ''popcnt''] @
     map (\<lambda>m. (m, asks_op T))
       [''sqrt'', ''fneg'', ''fabs'', ''ceil'', ''floor'', ''trunc'', ''nearest'', ''vany_true'',
        ''vall_true''] @
     [(''vhigh_bits'', draws_op)] @
     [(''extractlane'', known (\<lambda>t. extract_vector_type t \<noteq> None))] @
     [(''insertlane'', lanes T)] @
     map (\<lambda>m. (m, known (\<lambda>t. extract_vector_type t \<noteq> None)))
       [''splat'', ''scalar_to_vector''] @
     map (\<lambda>m. (m, asks_first T))
       [''select'', ''select_spectre_guard''] @
     [(''bitselect'', asks_op T)] @
     [(''fma'', draws_op)] @
     [(''bitcast'', casts T)] @
     [(''bmask'', masks T)] @
     [(''ireduce'', known (resized T [(I8, [I16, I32, I64]), (I16, [I32, I64]), (I32, [I64])]))] @
     map (\<lambda>m. (m, known (resized T [(I16X8, [I8X16]), (I32X4, [I16X8]), (I64X2, [I32X4])])))
       [''swiden_low'', ''swiden_high'', ''uwiden_low'', ''uwiden_high''] @
     map (\<lambda>m. (m, known (resized T [(I16, [I8]), (I32, [I8, I16]), (I64, [I8, I16, I32]), (I128, [I8, I16, I32, I64])])))
       [''uextend'', ''sextend''] @
     [(''fpromote'', \<lambda>_. F32 \<in> set T)] @
     [(''fdemote'', \<lambda>_. F64 \<in> set T)] @
     [(''fvdemote'', \<lambda>_. F64X2 \<in> set T)] @
     [(''fvpromote_low'', \<lambda>_. F32X4 \<in> set T)] @
     map (\<lambda>m. (m, asks_op T))
       [''fcvt_to_uint'', ''fcvt_to_sint'', ''fcvt_to_uint_sat'', ''fcvt_to_sint_sat'',
        ''x86_cvtt2dq'', ''fcvt_from_uint'', ''fcvt_from_sint''] @
     map (\<lambda>m. (m, draws_op))
       [''isplit'', ''ssub_overflow_bin'', ''usub_overflow_bin'', ''uadd_overflow_cin'',
        ''sadd_overflow_cin'', ''load'', ''uload8'', ''sload8'', ''uload16'', ''sload16''] @
     map (\<lambda>m. (m, \<lambda>_. True))
       [''uload32'', ''sload32'', ''uload8x8'', ''sload8x8'', ''uload16x4'', ''sload16x4'',
        ''uload32x2'', ''sload32x2''] @
     map (\<lambda>m. (m, draws_op))
       [''atomic_load'', ''stack_load''] @
     [(''stack_addr'', \<lambda>_. True)] @
     map (\<lambda>m. (m, draws_op))
       [''stack_store'', ''store''] @
     map (\<lambda>m. (m, asks_op T))
       [''istore8'', ''istore16'', ''istore32'', ''atomic_store''] @
     [(''atomic_cas'', draws_op)] @
     [(''atomic_rmw'', asks_op T)] @
     map (\<lambda>m. (m, \<lambda>_. True))
       [''set_pinned_reg'', ''get_frame_pointer'', ''get_stack_pointer'', ''get_return_address'',
        ''get_pinned_reg'', ''nop'', ''fence'', ''sequence_point'', ''f128const'', ''f32const'',
        ''f64const'', ''iconst'']"

definition answered :: "clif_type list \<Rightarrow> opcode \<Rightarrow> mode \<Rightarrow> bool" where
  "answered T m md = (case map_of (answered_table T) m of Some ok \<Rightarrow> ok md | None \<Rightarrow> True)"

lemma fixed_arms_total:
  assumes R: "rand_ok R" and T: "offers D T"
  shows "known (\<lambda>t. extract_vector_type t \<noteq> None) md \<Longrightarrow> arm_total D (sel_splat R D) md"
    and "known (\<lambda>t. extract_vector_type t \<noteq> None) md \<Longrightarrow> arm_total D (sel_scalar_to_vector R D) md"
    and "known (resized T [(I8, [I16, I32, I64]), (I16, [I32, I64]), (I32, [I64])]) md \<Longrightarrow> arm_total D (sel_ireduce R D) md"
    and "known (resized T [(I16X8, [I8X16]), (I32X4, [I16X8]), (I64X2, [I32X4])]) md \<Longrightarrow> arm_total D (sel_swiden_low R D) md"
    and "known (resized T [(I16X8, [I8X16]), (I32X4, [I16X8]), (I64X2, [I32X4])]) md \<Longrightarrow> arm_total D (sel_swiden_high R D) md"
    and "known (resized T [(I16X8, [I8X16]), (I32X4, [I16X8]), (I64X2, [I32X4])]) md \<Longrightarrow> arm_total D (sel_uwiden_low R D) md"
    and "known (resized T [(I16X8, [I8X16]), (I32X4, [I16X8]), (I64X2, [I32X4])]) md \<Longrightarrow> arm_total D (sel_uwiden_high R D) md"
    and "known (resized T [(I16, [I8]), (I32, [I8, I16]), (I64, [I8, I16, I32]), (I128, [I8, I16, I32, I64])]) md \<Longrightarrow> arm_total D (sel_uextend R D) md"
    and "known (resized T [(I16, [I8]), (I32, [I8, I16]), (I64, [I8, I16, I32]), (I128, [I8, I16, I32, I64])]) md \<Longrightarrow> arm_total D (sel_sextend R D) md"
    and "F32 \<in> set T \<Longrightarrow> arm_total D (sel_fpromote R D) md"
    and "F64 \<in> set T \<Longrightarrow> arm_total D (sel_fdemote R D) md"
    and "F64X2 \<in> set T \<Longrightarrow> arm_total D (sel_fvdemote R D) md"
    and "F32X4 \<in> set T \<Longrightarrow> arm_total D (sel_fvpromote_low R D) md"
    and "asks_op T md \<Longrightarrow> arm_total D (sel_fcvt_to_uint R D) md"
    and "asks_op T md \<Longrightarrow> arm_total D (sel_fcvt_to_sint R D) md"
    and "asks_op T md \<Longrightarrow> arm_total D (sel_fcvt_to_uint_sat R D) md"
    and "asks_op T md \<Longrightarrow> arm_total D (sel_fcvt_to_sint_sat R D) md"
    and "asks_op T md \<Longrightarrow> arm_total D (sel_x86_cvtt2dq R D) md"
    and "asks_op T md \<Longrightarrow> arm_total D (sel_fcvt_from_uint R D) md"
    and "asks_op T md \<Longrightarrow> arm_total D (sel_fcvt_from_sint R D) md"
  using R T fixed_yields(4) lane_arms_total(1) [OF R _ lane_ops(1)] lane_arms_total(1) [OF R _ lane_ops(2)]
  by (simp_all add: fixed_arms fixed_conv_arm_total resize_arm_total convert_arm_total widen_arm_total unless_no_types_total
      asks_op_def asksD merge_lanes_def op_eval)

lemma plain_arms_total:
  assumes R: "rand_ok R"
  shows "arm_total D (sel_uload32 R D) md" and "arm_total D (sel_sload32 R D) md" and "arm_total D (sel_uload8x8 R D) md"
    and "arm_total D (sel_sload8x8 R D) md" and "arm_total D (sel_uload16x4 R D) md" and "arm_total D (sel_sload16x4 R D) md"
    and "arm_total D (sel_uload32x2 R D) md" and "arm_total D (sel_sload32x2 R D) md"
    and "arm_total D (sel_get_frame_pointer R D) md" and "arm_total D (sel_get_stack_pointer R D) md"
    and "arm_total D (sel_get_return_address R D) md" and "arm_total D (sel_get_pinned_reg R D) md"
    and "arm_total D (sel_nop R D) md" and "arm_total D (sel_fence R D) md" and "arm_total D (sel_sequence_point R D) md"
  using R fixed_yields(1-3) by (simp_all add: fixed_arms load_fixed_arm_total register_arm_total effect_arm_total)

text \<open>The three tables go together: a legal and answered mode makes its arm return.\<close>

lemma known_Some: "known (\<lambda>t. Some (result t) \<noteq> None) md \<longleftrightarrow> draws_op md"
  by (simp add: known_def draws_op_def)

lemma binary_arms_total:
  assumes R: "rand_ok R"
  shows "uses m (\<lambda>t. [t, t]) Some md \<Longrightarrow> draws_op md \<Longrightarrow> arm_total D (binary_arm R D m imms Some) md"
    and "uses m (\<lambda>t. [t, t]) Some md \<Longrightarrow> draws_op md \<Longrightarrow> arm_total D (binary_self_arm R D m Some) md"
    and "uses m (\<lambda>t. [t, t]) (\<lambda>_. Some r) md \<Longrightarrow> draws_op md \<Longrightarrow> arm_total D (binary_self_arm R D m (\<lambda>_. Some r)) md"
  using binary_arm_total [OF R] by (simp_all add: known_Some [of "\<lambda>t. t", symmetric] known_Some [of "\<lambda>_. r", symmetric])

lemma own_arms_total:
  assumes R: "rand_ok R" and T: "offers D T"
  shows "lanes T md \<Longrightarrow> arm_total D (sel_insertlane R D) md" and "casts T md \<Longrightarrow> arm_total D (sel_bitcast R D) md"
    and "uses_pair ''bmask'' (\<lambda>t0 t1. [t1]) md \<Longrightarrow> masks T md \<Longrightarrow> arm_total D (sel_bmask R D) md"
    and "uses_select m md \<Longrightarrow> asks_first T md \<Longrightarrow> arm_total D (select_arm R D m) md"
    and "uses_pair m (\<lambda>t0 t1. [t0, t1]) md \<Longrightarrow> asks_pair T md \<Longrightarrow> arm_total D (shift_arm R D m) md"
    and "draws_op md \<Longrightarrow> arm_total D (sel_vhigh_bits R D) md"
    and "draws_op md \<Longrightarrow> arm_total D arm md \<Longrightarrow> arm_total D (unless_no_types arm) md"
  using assms by (simp_all add: sel_insertlane_total lanes_def sel_bitcast_total casts_def sel_bmask_total masks_def select_arm_total
      asks_first_def shift_arm_total asks_pair_def sel_vhigh_bits_total unless_no_types_total draws_op_def)

lemma arm_table_total:
  assumes R: "rand_ok R" and T: "offers D T" and e: "fcmp_ends R"
  shows "list_all2 (\<lambda>(m, arm) ((m', legal), (m'', ok)). m = m' \<and> m = m'' \<and> (\<forall>md. legal md \<longrightarrow> ok md \<longrightarrow> arm_total D arm md))
    (arm_table R D) (zip legal_table (answered_table T))"
  using binary_arms_total [OF R] unfolding arm_table_def legal_table_def answered_table_def
  by (simp add: scheme_arms binary_arm_total [OF R] own_arms_total [OF R T] fixed_arms_total [OF R T] plain_arms_total [OF R]
      asking_arms_total [OF R T] drawing_arms_total [OF R] sel_fcmp_total [OF R e] lane_arms_total(2) [OF R]
      sel_stack_addr_total [OF R] sel_set_pinned_reg_total [OF R] const_total sel_iconst_total [OF R] draws_op_def asks_op_def)

lemma map_of_three_tables:
  assumes "list_all2 (\<lambda>(k, x) ((k', y), (k'', z)). k = k' \<and> k = k'' \<and> P x y z) xs (zip ys zs)" and "length ys = length zs"
    and "map_of xs k = Some x"
  shows "\<exists>y z. map_of ys k = Some y \<and> map_of zs k = Some z \<and> P x y z"
  using assms
proof (induction xs arbitrary: ys zs)
  case (Cons a xs)
  obtain q qs p ps where yz: "ys = q # qs" "zs = p # ps" using Cons.prems(1,2) by (cases ys; cases zs) auto
  then show ?case using Cons.IH [of qs ps] Cons.prems by (cases a; cases q; cases p) (auto split: if_splits)
qed simp

lemma select_instruction_total:
  assumes R: "rand_ok R" and T: "offers D T" and e: "fcmp_ends R" and md: "legal_mode m md" "answered T m md"
  shows "arm_total D (select_instruction R D m) md"
proof (cases "map_of (arm_table R D) m")
  case None
  then show ?thesis by (simp add: select_instruction_def arm_total_def skip_arm_def)
next
  case (Some arm)
  have "length legal_table = length (answered_table T)" by (simp add: legal_table_def answered_table_def)
  then obtain legal ok where "map_of legal_table m = Some legal" "map_of (answered_table T) m = Some ok"
    "\<forall>md. legal md \<longrightarrow> ok md \<longrightarrow> arm_total D arm md" using map_of_three_tables [OF arm_table_total [OF R T e] _ Some] by blast
  then show ?thesis using Some md by (simp add: select_instruction_def legal_mode_def answered_def)
qed

text \<open>A configuration has an entry for every opcode, and only answered modes.\<close>

definition complete_config :: "arch_config \<Rightarrow> bool" where
  "complete_config cfg \<longleftrightarrow> list_all (\<lambda>m. case cfg_instruction_map cfg m of None \<Rightarrow> False
     | Some ic \<Rightarrow> (case instr_modes ic of None \<Rightarrow> True
        | Some mds \<Rightarrow> mds \<noteq> [] \<and> list_all (answered (map to_cranelift_type (cfg_operand_types cfg)) m) mds)) all_opcodes"

lemma populate_runs:
  assumes R: "rand_ok R" and e: "fcmp_ends R" and T: "offers D (map to_cranelift_type (cfg_operand_types cfg))"
    and cfg: "legal_config cfg" "complete_config cfg" and w: "at_work D c"
  shows "runs (populate_block_instructions R D cfg c g)"
  unfolding populate_block_instructions_def
proof (rule runs_bind, goal_cases)
  case 1
  show ?case by (rule runs_thread_choose [OF R]) (simp add: all_opcodes_def)
next
  case (2 y)
  obtain m g1 where y: "y = (m, g1)" by (cases y)
  have m: "m \<in> set all_opcodes" using thread_choose_SomeD [OF 2 [unfolded y] R] by (rule conjunct1)
  obtain ic where ic: "cfg_instruction_map cfg m = Some ic"
    and mds: "\<And>mds. instr_modes ic = Some mds \<Longrightarrow> mds \<noteq> [] \<and> list_all (answered (map to_cranelift_type (cfg_operand_types cfg)) m) mds"
    using bspec [OF cfg(2) [unfolded complete_config_def list_all_iff [of _ all_opcodes]] m]
    by (cases "cfg_instruction_map cfg m") (simp_all split: option.splits)
  show ?case
  proof (cases "instr_modes ic")
    case (Some ms)
    have "runs (select_instruction R D m md c g')" if "thread_choose R ms g1 = Some (md, g')" for md g'
    proof -
      have "md \<in> set ms" using thread_choose_SomeD [OF that R] by blast
      then have "legal_mode m md" "answered (map to_cranelift_type (cfg_operand_types cfg)) m md"
        using cfg(1) ic m mds Some by (auto simp: legal_config_def list_all_iff)
      then show ?thesis using select_instruction_total [OF R T e] w unfolding arm_total_def by blast
    qed
    then show ?thesis using y ic Some mds by (auto intro!: runs_bind runs_thread_choose [OF R])
  qed (use y ic in simp)
qed

subsection \<open>The tape\<close>

lemma tape_fcmp_cond: "runs (fcmp_cond tape_rand \<lparr>rng_state = r, global_rng = gl\<rparr>)"
proof (induction r)
  case Nil
  show ?case
    by (subst fcmp_cond.simps) (simp add: runs_def thread_choose_def rng_choose_unwrap_def rng_choose_def tape_rand_def tape_pop_def floatcc_all_def floatcc_excluded_def)
next
  case (Cons x r)
  obtain cc where "thread_choose tape_rand floatcc_all \<lparr>rng_state = x # r, global_rng = gl\<rparr> = Some (cc, \<lparr>rng_state = r, global_rng = gl\<rparr>)"
    by (auto simp: thread_choose_def rng_choose_unwrap_def rng_choose_def tape_rand_def tape_pop_def floatcc_all_def nth_opt_def)
  then show ?case using Cons by (subst fcmp_cond.simps) (simp add: runs_def)
qed

lemma fcmp_ends_tape [simp]: "fcmp_ends tape_rand"
  unfolding fcmp_ends_def
proof
  fix g :: "nat list genv"
  show "runs (fcmp_cond tape_rand g)" by (cases g) (simp add: tape_fcmp_cond)
qed

end
