(* ===== verification/Fill_Total.thy ===== *)
theory Fill_Total
  imports Function_Sound Selector_Total
begin

text \<open>
  The first loop of the function generator returns: with a configuration that answers its modes and
  offers \<open>i32\<close> and \<open>i64\<close>, no block makes it panic.
\<close>

subsection \<open>Emissions keep what later ones need\<close>

definition keeps_going :: "cursor \<Rightarrow> cursor \<Rightarrow> bool" where
  "keeps_going c c' \<longleftrightarrow> can_insert c' \<and> stack_slots (cur_func c') = stack_slots (cur_func c) \<and>
     (\<forall>v t. value_type (cur_func c) v = Some t \<longrightarrow> value_type (cur_func c') v = Some t)"

lemma keeps_going_refl: "can_insert c \<Longrightarrow> keeps_going c c"
  by (simp add: keeps_going_def)

lemma keeps_going_trans: "keeps_going c d \<Longrightarrow> keeps_going d e \<Longrightarrow> keeps_going c e"
  by (simp add: keeps_going_def)

lemma keeps_goingD: "keeps_going c c' \<Longrightarrow> can_insert c'"
  "keeps_going c c' \<Longrightarrow> value_type (cur_func c) v = Some t \<Longrightarrow> value_type (cur_func c') v = Some t"
  by (simp_all add: keeps_going_def)

lemma ins_op_going:
  assumes "can_insert c" and "types_of (cur_func c) args ts" and "op_types m ty ts = Some rs"
  shows "\<exists>vs c'. ins_op m ty imms args c = Some (vs, c') \<and> types_of (cur_func c') vs rs \<and> keeps_going c c'"
proof -
  obtain vs c' where ins: "ins_op m ty imms args c = Some (vs, c')" "can_insert c'" "stack_slots (cur_func c') = stack_slots (cur_func c)"
    using ins_op_runs [OF assms, of imms] by blast
  note t = ins_op_types [OF ins(1) assms(2,3)]
  have "value_type (cur_func c') v = Some u" if "value_type (cur_func c) v = Some u" for v u using value_type_append [OF that] t(2) by blast
  then show ?thesis using ins t(1) unfolding keeps_going_def by blast
qed

lemma ins_value_going:
  assumes "can_insert c" and "types_of (cur_func c) args ts" and "op_yields m ty ts (Some r)"
  shows "\<exists>v c'. ins_value m ty imms args c = Some (v, c') \<and> value_type (cur_func c') v = Some r \<and> keeps_going c c'"
proof -
  obtain rs where rs: "op_types m ty ts = Some rs" "nth_opt rs 0 = Some r" using assms(3) by (auto simp: op_yields_def split: option.splits)
  obtain vs c' where ins: "ins_op m ty imms args c = Some (vs, c')" "types_of (cur_func c') vs rs" "keeps_going c c'"
    using ins_op_going [OF assms(1,2) rs(1), of imms] by blast
  obtain v where "nth_opt vs 0 = Some v" "value_type (cur_func c') v = Some r"
    using nth_opt_value_types [OF ins(2), of 0] rs(2) by (cases "nth_opt vs 0") auto
  then show ?thesis using ins by (auto simp: ins_value_def)
qed

lemma ins_plain_going:
  assumes "can_insert c" and "types_of (cur_func c) args ts" and "op_yields m ty ts r"
  shows "\<exists>c'. ins_plain m ty imms args c = Some c' \<and> keeps_going c c'"
proof -
  obtain rs where rs: "op_types m ty ts = Some rs" using assms(3) by (auto simp: op_yields_def split: option.splits)
  then show ?thesis using ins_op_going [OF assms(1,2) rs, of imms] by (auto simp: ins_plain_def)
qed

lemma emits_going: "emits D c c' S \<Longrightarrow> can_insert c \<Longrightarrow> keeps_going c c'"
proof (induction rule: emits.induct)
  case emits_none
  then show ?case by (rule keeps_going_refl)
next
  case (emits_op c1 S m ty imms args vs c2 ts rs)
  then have "can_insert c1" by (simp add: keeps_going_def)
  from ins_op_going [OF this emits_op.hyps(3,4), of imms] show ?case using emits_op keeps_going_trans by auto
qed

lemma at_work_going: "at_work D c \<Longrightarrow> emits D c c' S \<Longrightarrow> at_work D c'"
  using emits_going [of D c c' S] env_ok_emits [of D c c' S D] by (auto simp: at_work_def keeps_going_def)

subsection \<open>The calls of the selector\<close>

lemma populate_fold_runs:
  assumes R: "rand_ok R" and e: "fcmp_ends R" and T: "offers D (map to_cranelift_type (cfg_operand_types cfg))"
    and cfg: "legal_config cfg" "complete_config cfg"
  shows "at_work D c \<Longrightarrow> \<exists>c' tvs' us' g'. foldM (populate_step R D cfg) snippet (c, (tvs, us), g) = Some (c', (tvs', us'), g') \<and> at_work D c'"
proof (induction snippet arbitrary: c tvs us g)
  case (Cons d ds)
  obtain res c1 g1 where p: "populate_block_instructions R D cfg c g = Some (res, c1, g1)"
    using populate_runs [OF R e T cfg Cons.prems, of g] by (auto simp: runs_def)
  obtain tvs1 us1 where r: "record_result res (tvs, us) = (tvs1, us1)" by force
  have "env_ok D (cur_func c)" using Cons.prems by (simp add: at_work_def)
  then have w: "at_work D c1" using populate_sound(1) [OF R _ cfg(1) p] at_work_going [OF Cons.prems] by blast
  show ?case using Cons.IH [OF w, of tvs1 us1 g1] p r by (simp add: populate_step_def)
qed simp

subsection \<open>The entry returns\<close>

abbreviation typed_in :: "func \<Rightarrow> typed_value list \<Rightarrow> bool" where
  "typed_in f tvs \<equiv> \<forall>tv \<in> set tvs. value_type f (get_value tv) = Some (get_type tv)"

lemma can_insert_same_code: "can_insert c \<Longrightarrow> same_code b (cur_func c) (cur_func c') \<Longrightarrow> cur_pos c' = cur_pos c \<Longrightarrow> can_insert c'"
  using ins_at_same_code unfolding can_insert_def by blast

lemma entry_params_run:
  assumes "b < length (dfg_blocks (cur_func c))"
  shows "\<exists>c' tvs' ots'. foldM (entry_param b) ps (c, tvs, ots) = Some (c', tvs', ots')"
  using assms
proof (induction ps arbitrary: c tvs ots)
  case (Cons t ps)
  obtain v f' where a: "append_block_param b t (cur_func c) = Some (v, f')" using append_block_param_ex [OF Cons.prems] by blast
  then have "length (dfg_blocks f') = length (dfg_blocks (cur_func c))" by (auto simp: append_block_param_def Let_def split: option.splits)
  then show ?case using Cons.IH [of "c\<lparr>cur_func := f'\<rparr>"] Cons.prems a by (simp add: entry_param_def)
qed simp

lemma const_going:
  assumes "can_insert c" and "op_yields m t [] (Some r)"
  shows "\<exists>v c'. ins_value m t imms [] c = Some (v, c') \<and> value_type (cur_func c') v = Some r \<and> keeps_going c c'"
  using ins_value_going [OF assms(1) _ assms(2), of "[]" imms] by simp

lemma gen_scalar_constant_runs:
  assumes c: "can_insert c" and t: "t \<in> {I8, I16, I32, I64, I128, F16, F32, F64}"
  shows "\<exists>v c' g'. gen_scalar_constant R t c g = Some (v, c', g') \<and> value_type (cur_func c') v = Some t \<and> keeps_going c c'"
proof -
  consider "t \<in> {I8, I16, I32, I64}" | "t = I128" | "t = F16" | "t = F32" | "t = F64" using t by blast
  then show ?thesis
  proof cases
    case 1
    then show ?thesis using const_going [OF c const_yields(4) [OF 1], of "[Imm64 (fst (edge_int R (type_bits t) g))]"]
      by (auto simp: gen_scalar_constant_def case_prod_unfold Let_def)
  next
    case 2
    obtain v64 c1 where i: "ins_value ''iconst'' I64 [Imm64 (fst (edge_int R 64 g))] [] c = Some (v64, c1)" "value_type (cur_func c1) v64 = Some I64" "keeps_going c c1"
      using const_going [OF c const_yields(4), of I64 "[Imm64 (fst (edge_int R 64 g))]"] by auto
    have "op_yields ''uextend'' I128 [I64] (Some I128)" by (simp add: op_eval)
    from ins_value_going [OF keeps_goingD(1) [OF i(3)] _ this, of "[v64]" "[]"]
    obtain v c2 where "ins_value ''uextend'' I128 [] [v64] c1 = Some (v, c2)" "value_type (cur_func c2) v = Some I128" "keeps_going c1 c2"
      using i(2) by auto
    then show ?thesis using 2 i(1) keeps_going_trans [OF i(3)] by (simp add: gen_scalar_constant_def case_prod_unfold Let_def)
  next
    case 3
    then show ?thesis using const_going [OF c f16const_yields, of "[FloatBits (fst (edge_f16 R g))]"]
      by (auto simp: gen_scalar_constant_def case_prod_unfold Let_def)
  next
    case 4
    then show ?thesis using const_going [OF c const_yields(2), of "[FloatBits (fst (edge_f32 R g))]"]
      by (auto simp: gen_scalar_constant_def case_prod_unfold Let_def)
  next
    case 5
    then show ?thesis using const_going [OF c const_yields(3), of "[FloatBits (fst (edge_f64 R g))]"]
      by (auto simp: gen_scalar_constant_def case_prod_unfold Let_def)
  qed
qed

lemma gen_constant_runs:
  assumes c: "can_insert c"
  shows "\<exists>v c' g'. gen_constant R (to_cranelift_type ot) c g = Some (v, c', g') \<and> value_type (cur_func c') v = Some (to_cranelift_type ot) \<and> keeps_going c c'"
proof (cases "to_cranelift_type ot \<in> {I8, I16, I32, I64, I128, F16, F32, F64}")
  case True
  then show ?thesis using gen_scalar_constant_runs [OF c True, of R g] by (simp add: gen_constant_def)
next
  case False
  then have "to_cranelift_type ot \<in> {I8X16, I16X8, I32X4, I64X2, F16X8, F32X4, F64X2}" by (cases ot) auto
  then obtain bs g1 where v: "vector_bytes R (to_cranelift_type ot) g = Some (bs, g1)" unfolding vector_bytes_def by (auto simp: prod_eq_iff)
  then show ?thesis using const_going [OF c vector_bytes_SomeD(2) [OF v], of "[ConstBytes bs]"] False by (auto simp: gen_constant_def)
qed

lemma entry_constants_run:
  assumes "can_insert c" and "typed_in (cur_func c) tvs"
  shows "\<exists>c' tvs' g'. foldM (entry_constant R) ots (c, tvs, g) = Some (c', tvs', g') \<and> keeps_going c c' \<and> typed_in (cur_func c') tvs' \<and>
    get_type ` set tvs' = get_type ` set tvs \<union> to_cranelift_type ` set ots"
  using assms
proof (induction ots arbitrary: c tvs g)
  case Nil
  then show ?case by (simp add: keeps_going_refl)
next
  case (Cons ot ots)
  let ?t = "to_cranelift_type ot"
  obtain v c1 g1 where k: "gen_constant R ?t c g = Some (v, c1, g1)" "value_type (cur_func c1) v = Some ?t" "keeps_going c c1"
    using gen_constant_runs [OF Cons.prems(1)] by blast
  have "can_insert c1" "typed_in (cur_func c1) (List.insert (TypedValue v ?t) tvs)" using k(2,3) Cons.prems(2) by (auto simp: keeps_going_def)
  then obtain c' tvs' g' where "foldM (entry_constant R) ots (c1, List.insert (TypedValue v ?t) tvs, g1) = Some (c', tvs', g')" "keeps_going c1 c'"
    "typed_in (cur_func c') tvs'" "get_type ` set tvs' = get_type ` set (List.insert (TypedValue v ?t) tvs) \<union> to_cranelift_type ` set ots"
    using Cons.IH by blast
  moreover have "entry_constant R ot (c, tvs, g) = Some (c1, List.insert (TypedValue v ?t) tvs, g1)" using k(1) by (simp add: entry_constant_def)
  ultimately show ?case using keeps_going_trans [OF k(3)] by auto
qed

lemma entry_stores_run:
  assumes "can_insert c" and "value_type (cur_func c) v = Some I64" and "value_type (cur_func c) a0 = Some I64" and "value_type (cur_func c) a1 = Some I64"
  shows "\<exists>c'. entry_stores v a0 a1 c = Some c' \<and> keeps_going c c'"
proof -
  have "\<exists>c'. foldM (\<lambda>i cur. do {
      cur \<leftarrow> ins_plain ''store'' I64 [MemFlagsLE, Offset32 (int i * 8)] [v, a0] cur;
      ins_plain ''store'' I64 [MemFlagsLE, Offset32 (int i * 8)] [v, a1] cur }) (is :: nat list) c = Some c' \<and> keeps_going c c'" for "is"
    using assms
  proof (induction "is" arbitrary: c)
    case Nil
    then show ?case by (simp add: keeps_going_refl)
  next
    case (Cons i "is")
    obtain c1 where 1: "ins_plain ''store'' I64 [MemFlagsLE, Offset32 (int i * 8)] [v, a0] c = Some c1" "keeps_going c c1"
      using ins_plain_going [OF Cons.prems(1) _ store_yields, of "[v, a0]" "[MemFlagsLE, Offset32 (int i * 8)]"] Cons.prems by auto
    obtain c2 where 2: "ins_plain ''store'' I64 [MemFlagsLE, Offset32 (int i * 8)] [v, a1] c1 = Some c2" "keeps_going c1 c2"
      using ins_plain_going [OF keeps_goingD(1) [OF 1(2)] _ store_yields, of "[v, a1]" "[MemFlagsLE, Offset32 (int i * 8)]"]
        keeps_goingD(2) [OF 1(2)] Cons.prems by auto
    note k = keeps_going_trans [OF 1(2) 2(2)]
    from Cons.IH [of c2] k Cons.prems obtain c' where "foldM (\<lambda>i cur. do {
        cur \<leftarrow> ins_plain ''store'' I64 [MemFlagsLE, Offset32 (int i * 8)] [v, a0] cur;
        ins_plain ''store'' I64 [MemFlagsLE, Offset32 (int i * 8)] [v, a1] cur }) is c2 = Some c'" "keeps_going c2 c'" by (auto simp: keeps_going_def)
    then show ?case using 1(1) 2(1) keeps_going_trans [OF k] by auto
  qed
  then show ?thesis by (simp add: entry_stores_def)
qed

lemma entry_setup_runs:
  assumes R: "rand_ok R" and at: "ins_at c b [] rest" and b: "b < length (dfg_blocks (cur_func c))" "dfg_blocks (cur_func c) ! b = []"
    and T: "I64 \<in> to_cranelift_type ` set (cfg_operand_types cfg)"
  shows "\<exists>c' tvs g'. entry_setup R cfg sg b c g = Some (c', tvs, g') \<and> can_insert c' \<and> 0 < length (stack_slots (cur_func c'))"
proof -
  obtain c1 tvs1 ots where p: "foldM (entry_param b) (sig_params sg) (c, [], cfg_operand_types cfg) = Some (c1, tvs1, ots)"
    using entry_params_run [OF b(1)] by blast
  have wf: "params_wf (cur_func c) b" using b by (simp add: params_wf_def)
  have e: "same_code b (cur_func c) (cur_func c1)" "cur_pos c1 = cur_pos c" "recorded UNIV (cur_func c1) b [] tvs1"
    "get_type ` set tvs1 = set (sig_params sg)" "ots = filter (\<lambda>ot. to_cranelift_type ot \<notin> set (sig_params sg)) (cfg_operand_types cfg)"
    using entry_params [OF p wf, of "[]" UNIV "[]"] b(2) by auto
  define c2 where "c2 = c1\<lparr>cur_func := (cur_func c1)\<lparr>stack_slots := stack_slots (cur_func c1) @ [32, 32]\<rparr>\<rparr>"
  define k where "k = length (stack_slots (cur_func c1))"
  have "same_code b (cur_func c) (cur_func c2)" using e(1) by (simp add: c2_def same_code_def)
  then have ci: "can_insert c2" using can_insert_same_code [of c b c2] at e(2) by (auto simp: can_insert_def c2_def)
  have ty: "typed_in (cur_func c2) tvs1" using e(3) by (simp add: recorded_def c2_def value_type_def)
  obtain c3 tvs g3 where f: "foldM (entry_constant R) ots (c2, tvs1, g) = Some (c3, tvs, g3)" "keeps_going c2 c3" "typed_in (cur_func c3) tvs"
    "get_type ` set tvs = get_type ` set tvs1 \<union> to_cranelift_type ` set ots" using entry_constants_run [OF ci ty] by blast
  have "can_insert c3" using f(2) by (simp add: keeps_going_def)
  then obtain a0 c4 where a0: "ins_value ''stack_addr'' I64 [StackSlot k, Offset32 0] [] c3 = Some (a0, c4)" "value_type (cur_func c4) a0 = Some I64" "keeps_going c3 c4"
    using const_going [OF _ stack_addr_yields] by blast
  have "can_insert c4" using a0(3) by (simp add: keeps_going_def)
  then obtain a1 c5 where a1: "ins_value ''stack_addr'' I64 [StackSlot (Suc k), Offset32 0] [] c4 = Some (a1, c5)" "value_type (cur_func c5) a1 = Some I64" "keeps_going c4 c5"
    using const_going [OF _ stack_addr_yields] by blast
  have "I64 \<in> get_type ` set tvs" using T f(4) e(4,5) by auto
  then have "filter (\<lambda>tv. get_type tv = I64) tvs \<noteq> []" by (auto simp: filter_empty_conv)
  then obtain v g4 where v: "find_of_type R I64 tvs g3 = Some (v, g4)"
    using thread_choose_ex [OF R, of "filter (\<lambda>tv. get_type tv = I64) tvs" g3] by (auto simp: find_of_type_def)
  have "TypedValue v I64 \<in> set tvs" using find_of_type_SomeD [OF v R] by blast
  then have "value_type (cur_func c3) v = Some I64" using f(3) by force
  then have vt: "value_type (cur_func c5) v = Some I64" "value_type (cur_func c5) a0 = Some I64" using a0(2,3) a1(3) by (auto simp: keeps_going_def)
  have "can_insert c5" using a1(3) by (simp add: keeps_going_def)
  then obtain c6 where c6: "entry_stores v a0 a1 c5 = Some c6" "keeps_going c5 c6" using entry_stores_run [OF _ vt a1(2)] by blast
  have "keeps_going c2 c6" using keeps_going_trans f(2) a0(3) a1(3) c6(2) by blast
  then show ?thesis using p f(1) a0(1) a1(1) v c6(1)
    by (simp add: entry_setup_def create_sized_stack_slot_def Let_def c2_def k_def keeps_going_def)
qed

subsection \<open>A block returns\<close>

text \<open>What is known when a block is filled: the entry is the first one, and has recorded values of all types.\<close>

definition ready :: "arch_config \<Rightarrow> func \<Rightarrow> block \<Rightarrow> block set \<Rightarrow> cursor \<Rightarrow> block_map \<Rightarrow> block \<Rightarrow> bool" where
  "ready cfg f0 en P c defs b \<longleftrightarrow> (b = en \<longrightarrow> defs = []) \<and> (b \<noteq> en \<longrightarrow> en \<in> P \<and> 0 < length (stack_slots (cur_func c)))"

lemma entry_offers:
  assumes doms: "doms_ok doms (dominates (flow_edges f0) en) f0" and b: "b \<in> set (blocks_of f0)" and en: "en \<in> set (blocks_of f0)"
    and tvs: "map_of defs en = Some tvs" "set T \<subseteq> get_type ` set tvs"
  shows "offers (env_at doms defs b) T"
  unfolding offers_def
proof
  fix t assume "t \<in> set T"
  then obtain tv where tv: "tv \<in> set tvs" "get_type tv = t" using tvs(2) by blast
  have "en \<in> set (dom_list doms b)" using dom_list_iff [OF doms b] en by simp
  then have "get_value tv \<in> set (get_dominator_values_with_type (env_at doms defs b) t)"
    using env_candidate tvs(1) tv by (metis typed_value.collapse)
  then show "get_dominator_values_with_type (env_at doms defs b) t \<noteq> []" by auto
qed

lemma goto_first_insertion_point_ex:
  assumes "frame_ok (cur_func c)" and "b \<in> set (blocks_of (cur_func c))"
  shows "\<exists>c0. goto_first_insertion_point b c = Some c0 \<and> ins_at c0 b [] (lo_insts (cur_layout c) b) \<and> cur_func c0 = cur_func c"
proof -
  have wf: "wf_layout (cur_layout c)" using assms(1) by (simp add: frame_ok_def)
  have "goto_first_insertion_point b c \<noteq> None"
  proof (cases "lo_insts (cur_layout c) b")
    case Nil
    then show ?thesis using assms(2) by (simp add: goto_first_insertion_point_def first_inst_def goto_bottom_def is_block_inserted_def)
  next
    case (Cons i js)
    then have "inst_block (cur_layout c) i = Some b" unfolding inst_block_iff [OF wf] by simp
    then show ?thesis using Cons by (simp add: goto_first_insertion_point_def first_inst_def goto_inst_def)
  qed
  then show ?thesis using goto_first_insertion_point_eq [OF assms] by auto
qed

lemma fill_body_runs:
  assumes R: "rand_ok R" and e: "fcmp_ends R" and cfg: "legal_config cfg" "complete_config cfg" and cf: "cf_inv f0 en ex"
    and doms: "doms_ok doms (dominates (flow_edges f0) en) f0" and T: "{I32, I64} \<subseteq> to_cranelift_type ` set (cfg_operand_types cfg)"
    and inv: "filled f0 en (dominates (flow_edges f0) en) (set (sig_params (fn_sig f0)) \<union> to_cranelift_type ` set (cfg_operand_types cfg)) P (cur_func c) defs"
    and b: "b \<in> set (blocks_of f0)" "b \<notin> P" "n = 0 \<longleftrightarrow> b = en" and rd: "ready cfg f0 en P c defs b" and rng: "rng_ready g"
  shows "\<exists>c3 defs' refs' g3. fill_body R cfg (fn_sig f0) doms (n, b) (c, defs, refs, g) = Some (c3, defs', refs', g3) \<and>
    0 < length (stack_slots (cur_func c3)) \<and> get_dominator_values_with_type (env_at doms defs' b) I32 \<noteq> []"
proof -
  let ?f = "cur_func c" let ?T = "map to_cranelift_type (cfg_operand_types cfg)"
  have f: "frame_ok ?f" "blocks_of ?f = blocks_of f0" "length (dfg_blocks ?f) = length (dfg_blocks f0)" "recorded_all {en} ?f defs"
    using inv by (simp_all add: filled_def)
  have en: "en \<in> set (blocks_of f0)" using cf unfolding cf_inv_def by (auto intro: hd_in_set)
  have i64: "I64 \<in> to_cranelift_type ` set (cfg_operand_types cfg)" using T by blast
  obtain c0 where c0: "goto_first_insertion_point b c = Some c0" "ins_at c0 b [] (lo_insts (cur_layout c) b)" "cur_func c0 = ?f"
    using goto_first_insertion_point_ex [OF f(1)] b(1) f(2) by auto
  have "\<exists>c1 tvs1 defs1 g1. (if n = 0 then do { (cur, dv, g) \<leftarrow> entry_setup R cfg (fn_sig f0) b c0 g; Some (cur, dv, AList.update b dv defs, g) }
      else Some (c0, [], defs, g)) = Some (c1, tvs1, defs1, g1) \<and> at_work (env_at doms defs1 b) c1 \<and> global_rng g1 = global_rng g \<and>
      (\<exists>tvs. map_of defs1 en = Some tvs \<and> set ?T \<subseteq> get_type ` set tvs \<and> (b = en \<longrightarrow> tvs = tvs1))"
  proof (cases "b = en")
    case True
    have "block_filled f0 en (dominates (flow_edges f0) en) P ?f b" using inv unfolding filled_def by blast
    then have blk: "dfg_blocks ?f ! b = dfg_blocks f0 ! b" using b(2) unfolding block_filled_def by auto
    note cfb = cf_inv_branch [OF cf b(1)]
    have b0: "b < length (dfg_blocks (cur_func c0))" "dfg_blocks (cur_func c0) ! b = []"
      using cfb(2) [OF cfb(1) [OF True]] cfb(4) blk f(3) c0(3) by simp_all
    obtain c1 tvs1 g1 where s: "entry_setup R cfg (fn_sig f0) b c0 g = Some (c1, tvs1, g1)" "can_insert c1" "0 < length (stack_slots (cur_func c1))"
      using entry_setup_runs [OF R c0(2) b0 i64] by blast
    have fl: "filling {b} (dominates (flow_edges f0) en) b (lo_insts (cur_layout c) b) f1 [] c1 tvs1 \<Longrightarrow> typed_in (cur_func c1) tvs1" for f1
      by (auto simp: filling_def recorded_def)
    have es: "typed_in (cur_func c1) tvs1" "set ?T \<subseteq> get_type ` set tvs1" "global_rng g1 = global_rng g"
      using entry_setup_filling [OF R s(1) c0(2) b0(2,1), of "{b}" "dominates (flow_edges f0) en"] fl by auto
    have "env_ok (env_at doms (AList.update b tvs1 defs) b) (cur_func c1)"
      using es(1) rd True by (auto simp: env_ok_def env_at_def ready_def split: if_splits)
    then show ?thesis using s es True b(3) by (auto simp: at_work_def update_conv')
  next
    case False
    then have r: "en \<in> P" "0 < length (stack_slots ?f)" using rd by (auto simp: ready_def)
    have "map_of defs en \<noteq> None" and sub: "\<And>tvs. map_of defs en = Some tvs \<Longrightarrow> to_cranelift_type ` set (cfg_operand_types cfg) \<subseteq> get_type ` set tvs"
      using inv r(1) unfolding filled_def by blast+
    then obtain tvs where "map_of defs en = Some tvs" "set ?T \<subseteq> get_type ` set tvs" by auto
    moreover have "at_work (env_at doms defs b) c0" using env_at_ok [OF f(4)] c0(2,3) r(2) by (auto simp: at_work_def can_insert_def)
    ultimately show ?thesis using False b(3) by auto
  qed
  then obtain c1 tvs1 defs1 g1 tvs0 where s1: "(if n = 0 then do { (cur, dv, g) \<leftarrow> entry_setup R cfg (fn_sig f0) b c0 g; Some (cur, dv, AList.update b dv defs, g) }
      else Some (c0, [], defs, g)) = Some (c1, tvs1, defs1, g1)" "at_work (env_at doms defs1 b) c1" "global_rng g1 = global_rng g"
      "map_of defs1 en = Some tvs0" "set ?T \<subseteq> get_type ` set tvs0" "b = en \<longrightarrow> tvs0 = tvs1" by blast
  obtain k g2 where k: "gen_and_print_range R 0 5 False g1 = Some (k, g2)" "k < 5"
    using gen_and_print_range_ex [OF R, of g1 0 5] rng s1(3) by (auto simp: rng_ready_def)
  obtain snippet where sn: "nth_opt get_instr_snippet k = Some snippet" using k(2) by (simp add: get_instr_snippet_def)
  have off: "offers (env_at doms defs1 b) ?T" by (rule entry_offers [OF doms b(1) en s1(4,5)])
  obtain c2 tvs us g3 where p: "foldM (populate_step R (env_at doms defs1 b) cfg) snippet (c1, (tvs1, []), g2) = Some (c2, (tvs, us), g3)"
    "at_work (env_at doms defs1 b) c2" using populate_fold_runs [OF R e off cfg s1(2)] by blast
  have nop: "op_yields ''nop'' INVALID [] None" using fixed_yields(2) by simp
  obtain c3 where c3: "(if last_inst (cur_layout c2) b = None then ins_plain ''nop'' INVALID [] [] c2 else Some c2) = Some c3"
    "stack_slots (cur_func c3) = stack_slots (cur_func c2)" 
    using ins_plain_runs [of c2 "[]" "[]", OF _ _ nop, of "[]"] p(2) by (cases "last_inst (cur_layout c2) b = None") (auto simp: at_work_def)
  obtain tvs' where tvs': "map_of (AList.update b tvs defs1) en = Some tvs'" "set ?T \<subseteq> get_type ` set tvs'"
    using s1(4-6) populate_keeps [OF p(1)] by (cases "b = en") (auto simp: update_conv')
  have "offers (env_at doms (AList.update b tvs defs1) b) ?T" by (rule entry_offers [OF doms b(1) en tvs'])
  then have "get_dominator_values_with_type (env_at doms (AList.update b tvs defs1) b) I32 \<noteq> []" using T by (auto simp: offers_def)
  then show ?thesis using c0(1) s1(1) k(1) sn p c3 by (auto simp: fill_body_def Let_def at_work_def)
qed

lemma fill_block_runs:
  assumes R: "rand_ok R" and e: "fcmp_ends R" and cfg: "legal_config cfg" "complete_config cfg" and cf: "cf_inv f0 en ex"
    and doms: "doms_ok doms (dominates (flow_edges f0) en) f0" and T: "{I32, I64} \<subseteq> to_cranelift_type ` set (cfg_operand_types cfg)"
    and inv: "filled f0 en (dominates (flow_edges f0) en) (set (sig_params (fn_sig f0)) \<union> to_cranelift_type ` set (cfg_operand_types cfg)) P (cur_func c) defs"
    and b: "b \<in> set (blocks_of f0)" "b \<notin> P" "n = 0 \<longleftrightarrow> b = en" and rd: "ready cfg f0 en P c defs b" and rng: "rng_ready g"
  shows "\<exists>c' defs' refs' g'. fill_block R cfg (fn_sig f0) doms (n, b) (c, defs, refs, g) = Some (c', defs', refs', g') \<and>
    0 < length (stack_slots (cur_func c'))"
proof -
  obtain c3 defs' refs' g3 where r: "fill_body R cfg (fn_sig f0) doms (n, b) (c, defs, refs, g) = Some (c3, defs', refs', g3)"
    "0 < length (stack_slots (cur_func c3))" "get_dominator_values_with_type (env_at doms defs' b) I32 \<noteq> []"
    using fill_body_runs [OF assms] by blast
  obtain c' g' where "branch_condition R (env_at doms defs' b) b c3 g3 = Some (c', g')" "stack_slots (cur_func c') = stack_slots (cur_func c3)"
    by (rule fill_body_ready [OF R cfg(1) cf doms inv b r(1)]) (use branch_condition_ex [OF R r(3)] in blast)
  then show ?thesis using r(1,2) by (simp add: fill_block_def)
qed

lemma fill_loop_rest_runs:
  assumes R: "rand_ok R" and e: "fcmp_ends R" and cfg: "legal_config cfg" "complete_config cfg" and cf: "cf_inv f0 en ex"
    and dm: "dm = dominates (flow_edges f0) en" and doms: "doms_ok doms dm f0" and I: "{I32, I64} \<subseteq> to_cranelift_type ` set (cfg_operand_types cfg)"
    and T: "T = set (sig_params (fn_sig f0)) \<union> to_cranelift_type ` set (cfg_operand_types cfg)"
  shows "filled f0 en dm T P (cur_func c) defs \<Longrightarrow> refs_ok en dm P defs refs \<Longrightarrow> 0 < n \<Longrightarrow> en \<in> P \<Longrightarrow> 0 < length (stack_slots (cur_func c)) \<Longrightarrow>
    set bs \<subseteq> set (blocks_of f0) - insert en P \<Longrightarrow> distinct bs \<Longrightarrow> rng_ready g \<Longrightarrow>
    foldM (fill_block R cfg (fn_sig f0) doms) (enumerate n bs) (c, defs, refs, g) \<noteq> None"
proof (induction bs arbitrary: n P c defs refs g)
  case (Cons b bs)
  have b: "b \<in> set (blocks_of f0)" "b \<notin> P" "n = 0 \<longleftrightarrow> b = en" using Cons.prems by auto
  have rd: "ready cfg f0 en P c defs b" using Cons.prems(4,5,6) by (auto simp: ready_def)
  obtain c1 defs1 refs1 g1 where s: "fill_block R cfg (fn_sig f0) doms (n, b) (c, defs, refs, g) = Some (c1, defs1, refs1, g1)"
    "0 < length (stack_slots (cur_func c1))"
    using fill_block_runs [OF R e cfg cf doms [unfolded dm] I Cons.prems(1) [unfolded dm T] b rd Cons.prems(8)] by blast
  note step = fill_block_filled [OF R cfg(1) cf doms T Cons.prems(1,2) b s(1)]
  have "foldM (fill_block R cfg (fn_sig f0) doms) (enumerate (Suc n) bs) (c1, defs1, refs1, g1) \<noteq> None"
    by (rule Cons.IH [of "insert b P"]) (use step s(2) Cons.prems in \<open>auto simp: rng_ready_def\<close>)
  then show ?case using s(1) by simp
qed simp

theorem fill_blocks_runs:
  assumes R: "rand_ok R" and e: "fcmp_ends R" and cfg: "legal_config cfg" "complete_config cfg" and cf: "cf_inv f0 en ex"
    and I: "{I32, I64} \<subseteq> to_cranelift_type ` set (cfg_operand_types cfg)" and rng: "rng_ready g"
  shows "fill_blocks R cfg f0 g \<noteq> None"
proof -
  note wf = cf_inv_flow [OF cf]
  obtain G where G: "with_function f0 = Some G" "cfg_of f0 (flow_nodes f0) G" using with_function_flow [OF wf(1)] by blast
  obtain bs where bs: "dfs G en = Some bs" using dfs_flow [OF wf(1) G(2)] wf(2) by blast
  obtain rest where rest: "bs = en # rest" using dfs_starts [OF wf(1) G(2)] bs wf(2) by auto
  have reach: "(flow_edges f0)\<^sup>* `` {en} = set (blocks_of f0)"
    using reachable_nodes [OF wf(1)] cf wf unfolding cf_inv_def flow_nodes_def by auto
  have dist: "distinct bs" "set bs = set (blocks_of f0)" using dfs_flow [OF wf(1) G(2)] bs wf(2) reach by auto
  let ?dm = "dominates (flow_edges f0) en" let ?T = "set (sig_params (fn_sig f0)) \<union> to_cranelift_type ` set (cfg_operand_types cfg)"
  obtain doms where d: "compute_dominators f0 = Some doms" "doms_ok doms ?dm f0"
    using compute_dominators_flow [OF wf(1)] wf(2) by (auto simp: doms_ok_def flow.dom_set_def flow_nodes_def)
  have start: "filled f0 en ?dm ?T {} (cur_func (cursor_new f0)) []" using filled_start [OF cf] by (simp add: cursor_new_def)
  have b: "en \<in> set (blocks_of f0)" "en \<notin> {}" "(0::nat) = 0 \<longleftrightarrow> en = en" using dist(2) rest by auto
  have refs: "refs_ok en ?dm {} [] []" by (simp add: refs_ok_def)
  obtain c1 defs1 refs1 g1 where s: "fill_block R cfg (fn_sig f0) doms (0, en) (cursor_new f0, [], [], g) = Some (c1, defs1, refs1, g1)"
    "0 < length (stack_slots (cur_func c1))" using fill_block_runs [OF R e cfg cf d(2) I start b _ rng, of "[]"] by (auto simp: ready_def)
  note step = fill_block_filled [OF R cfg(1) cf d(2) refl start refs b s(1)]
  have "foldM (fill_block R cfg (fn_sig f0) doms) (enumerate 1 rest) (c1, defs1, refs1, g1) \<noteq> None"
    by (rule fill_loop_rest_runs [OF R e cfg cf refl d(2) I refl, of "{en}"]) (use step s(2) dist rest rng in \<open>auto simp: rng_ready_def\<close>)
  then show ?thesis using entry_block_flow [OF wf(1)] wf(2) G(1) bs rest d(1) s(1) by (auto simp: fill_blocks_def)
qed

end
