(* ===== verification/Call_Tree.thy ===== *)
theory Call_Tree
  imports Call_Graph
begin

text \<open>
  The call graph is a tree of functions with distinct names: below the root every function has one or
  two callees down to the fourth level, a random signature of eight or nine parameters and returns
  taken from the eleven candidate types, and a name of its own. In the post order every function
  stands after the functions it calls.
\<close>

subsection \<open>Signatures\<close>

definition sig_drawn :: "signature \<Rightarrow> bool" where
  "sig_drawn sg \<longleftrightarrow> (\<forall>ts \<in> {sig_params sg, sig_returns sg}. distinct ts \<and> set ts \<subseteq> set candidate_types \<and> 8 \<le> length ts \<and> length ts \<le> 9)"

lemma candidate_types_props: "distinct candidate_types" "length candidate_types = 11"
  by (simp_all add: candidate_types_def)

lemma random_signature_drawn:
  assumes "rand_ok R" and "generate_random_signature R candidate_types k False g = (sg, g')" and "8 \<le> k" and "k < 10"
  shows "sig_drawn sg" and "global_rng g' = global_rng g"
proof -
  obtain ps g1 rs where d: "thread_choose_multiple R candidate_types k g = (ps, g1)" "thread_choose_multiple R candidate_types k g1 = (rs, g')"
    "sg = \<lparr>sig_params = ps, sig_returns = rs\<rparr>"
    using assms(2) by (auto simp: generate_random_signature_def Let_def split: prod.splits)
  note p = thread_choose_multiple_props [OF assms(1) d(1)] and r = thread_choose_multiple_props [OF assms(1) d(2)]
  show "sig_drawn sg" using p r d(3) candidate_types_props assms(3,4) by (simp add: sig_drawn_def)
  show "global_rng g' = global_rng g" using p(4) r(4) by simp
qed

subsection \<open>The tree\<close>

fun depth :: "function_node \<Rightarrow> nat" where
  "depth (FunctionNode f s n cs) = (if cs = [] then 0 else Suc (Max (set (map depth cs))))"

fun tree_ok :: "nat \<Rightarrow> function_node \<Rightarrow> bool" where
  "tree_ok d (FunctionNode f s n cs) \<longleftrightarrow>
     (if d = 0 then cs = [] else length cs \<in> {1, 2} \<and> list_all (\<lambda>c. tree_ok (d - 1) c \<and> sig_drawn (node_sig c) \<and>
        node_func c = func_new (node_name c) (node_sig c)) cs)"

definition descendants :: "function_node list \<Rightarrow> function_node list" where
  "descendants cs = concat (map cg_post_order_traversal cs)"

lemma descendants_simps [simp]: "descendants [] = []" "descendants (cs @ ds) = descendants cs @ descendants ds"
  "descendants [c] = cg_post_order_traversal c"
  by (simp_all add: descendants_def)

text \<open>A finished subtree: its shape, and the names of its functions, which are numbered from the counter.\<close>

definition grown :: "nat \<Rightarrow> nat \<Rightarrow> nat \<Rightarrow> function_node list \<Rightarrow> bool" where
  "grown d i j cs \<longleftrightarrow> i \<le> j \<and> list_all (\<lambda>c. tree_ok d c \<and> sig_drawn (node_sig c) \<and> node_func c = func_new (node_name c) (node_sig c)) cs \<and>
     distinct (map node_name (descendants cs)) \<and> set (map node_name (descendants cs)) = User 1 ` {i<..j}"

lemma grown_Nil [simp]: "grown d i i []"
  by (simp add: grown_def)

lemma grown_snoc:
  assumes "grown d i j cs" and "grown d' (Suc j) k (node_children c)" and "tree_ok d c" and "sig_drawn (node_sig c)"
    and "node_func c = func_new (node_name c) (node_sig c)" and "node_name c = User 1 (Suc j)"
  shows "grown d i k (cs @ [c])"
proof -
  obtain f s n ds where c: "c = FunctionNode f s n ds" by (cases c)
  define cn where "cn = map node_name (descendants cs)"
  define dn where "dn = map node_name (descendants ds)"
  have nm: "map node_name (cg_post_order_traversal c) = dn @ [User 1 (Suc j)]"
    using assms(6) by (simp add: c descendants_def dn_def)
  have ds: "set dn = User 1 ` {Suc j<..k}" "distinct dn" "Suc j \<le> k"
    using assms(2) unfolding grown_def c dn_def function_node.sel by blast+
  have cs: "set cn = User 1 ` {i<..j}" "distinct cn" "i \<le> j"
    using assms(1) unfolding grown_def cn_def by blast+
  have k: "{i<..k} = {i<..j} \<union> insert (Suc j) {Suc j<..k}" using cs(3) ds(3) by auto
  have "distinct (cn @ dn @ [User 1 (Suc j)])" unfolding distinct_append cs(1) set_append ds(1) using cs(2) ds(2) by auto
  moreover have "set (cn @ dn @ [User 1 (Suc j)]) = User 1 ` {i<..k}" unfolding k set_append cs(1) ds(1) by auto
  ultimately have "distinct (map node_name (descendants (cs @ [c])))" "set (map node_name (descendants (cs @ [c]))) = User 1 ` {i<..k}"
    unfolding descendants_simps map_append nm cn_def [symmetric] by blast+
  moreover have "list_all (\<lambda>c. tree_ok d c \<and> sig_drawn (node_sig c) \<and> node_func c = func_new (node_name c) (node_sig c)) (cs @ [c])"
    using assms(1,3-5) by (simp add: grown_def)
  ultimately show ?thesis using cs(3) ds(3) unfolding grown_def by simp
qed

subsection \<open>The generator\<close>

text \<open>One child: its signature, its name and its own subtree.\<close>

definition grow_child :: "('r, 'x) rand_scheme \<Rightarrow> nat \<Rightarrow> nat \<Rightarrow> function_node \<times> nat \<times> 'r genv \<Rightarrow> (function_node \<times> nat \<times> 'r genv) option" where
  "grow_child R max_depth current_depth = (\<lambda>(node, func_id, g). do {
     (types_num, g) \<leftarrow> thread_gen_range R 8 10 g;
     let (child_func_sig, g) = generate_random_signature R candidate_types types_num False g;
     let func_id = Suc func_id;
     let child_func_name = User 1 func_id;
     let child_func = func_new child_func_name child_func_sig;
     let child_node = FunctionNode child_func child_func_sig child_func_name [];
     (child_node, func_id, g) \<leftarrow> generate_function_tree R child_node max_depth (Suc current_depth) func_id g;
     Some (add_child node child_node, func_id, g)
   })"

lemma generate_function_tree_children:
  "current_depth < max_depth \<Longrightarrow> generate_function_tree R node max_depth current_depth func_id g = do {
     (num_children, g) \<leftarrow> thread_gen_range R 1 3 g;
     foldM (\<lambda>_. grow_child R max_depth current_depth) [0..<num_children] (node, func_id, g)
   }"
  by (subst generate_function_tree.simps) (simp add: grow_child_def)

lemma grow_child_grown:
  assumes R: "rand_ok R"
    and IH: "\<And>node i g. node_children node = [] \<Longrightarrow> \<exists>cs j g'. generate_function_tree R node m (Suc k) i g =
      Some (FunctionNode (node_func node) (node_sig node) (node_name node) cs, j, g') \<and>
      tree_ok d (FunctionNode (node_func node) (node_sig node) (node_name node) cs) \<and> grown (d - 1) i j cs \<and> global_rng g' = global_rng g"
    and cs: "grown d i0 i cs"
  shows "\<exists>c j g'. grow_child R m k (FunctionNode f s n cs, i, g) = Some (FunctionNode f s n (cs @ [c]), j, g') \<and>
    grown d i0 j (cs @ [c]) \<and> global_rng g' = global_rng g"
proof -
  obtain t g1 where t: "thread_gen_range R 8 10 g = Some (t, g1)" "8 \<le> t" "t < 10" "global_rng g1 = global_rng g"
    using thread_gen_range_ex [OF R, of 8 10 g] by auto
  obtain sg g2 where sg: "generate_random_signature R candidate_types t False g1 = (sg, g2)" by force
  note drawn = random_signature_drawn [OF R sg t(2,3)]
  let ?nm = "User 1 (Suc i)"
  obtain ds j g3 where r: "generate_function_tree R (FunctionNode (func_new ?nm sg) sg ?nm []) m (Suc k) (Suc i) g2 =
      Some (FunctionNode (func_new ?nm sg) sg ?nm ds, j, g3)" "tree_ok d (FunctionNode (func_new ?nm sg) sg ?nm ds)" "grown (d - 1) (Suc i) j ds"
      "global_rng g3 = global_rng g2" using IH [of "FunctionNode (func_new ?nm sg) sg ?nm []" "Suc i" g2] by auto
  let ?c = "FunctionNode (func_new ?nm sg) sg ?nm ds"
  have "grow_child R m k (FunctionNode f s n cs, i, g) = Some (FunctionNode f s n (cs @ [?c]), j, g3)"
    using t(1) sg r(1) by (simp add: grow_child_def Let_def)
  moreover have "grown d i0 j (cs @ [?c])" using grown_snoc [OF cs, of "d - 1" j ?c] r(2,3) drawn(1) by simp
  ultimately show ?thesis using t(4) drawn(2) r(4) by auto
qed

lemma generate_function_tree_grown:
  assumes R: "rand_ok R" and "m = k + d" and "node_children node = []"
  shows "\<exists>cs j g'. generate_function_tree R node m k i g = Some (FunctionNode (node_func node) (node_sig node) (node_name node) cs, j, g') \<and>
    tree_ok d (FunctionNode (node_func node) (node_sig node) (node_name node) cs) \<and> grown (d - 1) i j cs \<and> global_rng g' = global_rng g"
  using assms(2,3)
proof (induction d arbitrary: k node i g)
  case 0
  then obtain f s n where node: "node = FunctionNode f s n []" by (cases node) simp
  have "generate_function_tree R node m k i g = Some (node, i, g)" using 0 by (subst generate_function_tree.simps) simp
  then show ?case by (auto simp: node intro!: exI [of _ "[]"])
next
  case (Suc d)
  obtain f s n where node: "node = FunctionNode f s n []" using Suc.prems(2) by (cases node) simp
  obtain c g1 where c: "thread_gen_range R 1 3 g = Some (c, g1)" "1 \<le> c" "c < 3" "global_rng g1 = global_rng g"
    using thread_gen_range_ex [OF R, of 1 3 g] by auto
  have loop: "\<exists>cs j g'. foldM (\<lambda>_. grow_child R m k) is (FunctionNode f s n cs0, i', g2) = Some (FunctionNode f s n cs, j, g') \<and>
      grown d i j cs \<and> length cs = length cs0 + length is \<and> global_rng g' = global_rng g2"
    if "grown d i i' cs0" for "is" :: "nat list" and cs0 i' g2
    using that
  proof (induction "is" arbitrary: cs0 i' g2)
    case (Cons x xs)
    have IH: "\<exists>cs j g'. generate_function_tree R node m (Suc k) i g = Some (FunctionNode (node_func node) (node_sig node) (node_name node) cs, j, g') \<and>
      tree_ok d (FunctionNode (node_func node) (node_sig node) (node_name node) cs) \<and> grown (d - 1) i j cs \<and> global_rng g' = global_rng g"
      if "node_children node = []" for node i g using Suc.IH [OF _ that, of "Suc k"] Suc.prems(1) by simp
    obtain ch j g3 where g: "grow_child R m k (FunctionNode f s n cs0, i', g2) = Some (FunctionNode f s n (cs0 @ [ch]), j, g3)"
      "grown d i j (cs0 @ [ch])" "global_rng g3 = global_rng g2" using grow_child_grown [OF R IH Cons.prems] by blast
    then show ?case using Cons.IH [OF g(2), of g3] by auto
  qed auto
  obtain cs j g' where r: "foldM (\<lambda>_. grow_child R m k) [0..<c] (FunctionNode f s n [], i, g1) = Some (FunctionNode f s n cs, j, g')"
    "grown d i j cs" "length cs = c" "global_rng g' = global_rng g1" using loop [of i "[]" "[0..<c]" g1] by auto
  have "generate_function_tree R node m k i g = Some (FunctionNode f s n cs, j, g')"
    using c(1) r(1) Suc.prems(1) by (simp add: generate_function_tree_children node)
  moreover have "tree_ok (Suc d) (FunctionNode f s n cs)" using r(2,3) c(2,3) by (auto simp: grown_def)
  ultimately show ?case using r c(4) by (auto simp: node)
qed

lemma call_graph_grown:
  assumes R: "rand_ok R"
  defines "sg \<equiv> \<lparr>sig_params = [], sig_returns = []\<rparr>"
  shows "\<exists>cs j g'. generate_function_call_graph R g = Some (FunctionNode (func_new (Testcase ''main'') sg) sg (Testcase ''main'') cs, g') \<and>
    tree_ok 4 (FunctionNode (func_new (Testcase ''main'') sg) sg (Testcase ''main'') cs) \<and> grown 3 0 j cs \<and> global_rng g' = global_rng g"
  using generate_function_tree_grown [OF R, of 4 0 4 "FunctionNode (func_new (Testcase ''main'') sg) sg (Testcase ''main'') []" 0 g]
  by (auto simp: generate_function_call_graph_def sg_def Let_def)

subsection \<open>Shape and order\<close>

lemma tree_ok_depth: "tree_ok d node \<Longrightarrow> depth node = d"
proof (induction d arbitrary: node)
  case 0
  then show ?case by (cases node) simp
next
  case (Suc d)
  obtain f s n cs where node: "node = FunctionNode f s n cs" by (cases node)
  then have cs: "cs \<noteq> []" "\<forall>c \<in> set cs. tree_ok d c" using Suc.prems by (auto simp: list_all_iff)
  then have "depth ` set cs = {d}" using Suc.IH by (cases cs) auto
  then show ?case using cs(1) by (simp add: node)
qed

lemma tree_ok_size: "tree_ok d node \<Longrightarrow> Suc d \<le> length (cg_post_order_traversal node) \<and> length (cg_post_order_traversal node) < 2 ^ Suc d"
proof (induction d arbitrary: node)
  case 0
  then show ?case by (cases node) simp
next
  case (Suc d)
  obtain f s n cs where node: "node = FunctionNode f s n cs" by (cases node)
  have cs: "length cs \<in> {1, 2}" "\<And>c. c \<in> set cs \<Longrightarrow> Suc d \<le> length (cg_post_order_traversal c) \<and> length (cg_post_order_traversal c) < 2 ^ Suc d"
    using Suc.prems Suc.IH by (auto simp: node list_all_iff)
  then consider c where "cs = [c]" | c c' where "cs = [c, c']" by (auto simp: length_Suc_conv numeral_2_eq_2)
  then show ?case
  proof cases
    case 1
    then show ?thesis using cs(2) [of c] by (simp add: node)
  next
    case 2
    then show ?thesis using cs(2) [of c] cs(2) [of c'] by (simp add: node)
  qed
qed

text \<open>Every function stands after the functions it calls.\<close>

definition callees_first :: "function_node list \<Rightarrow> bool" where
  "callees_first ns \<longleftrightarrow> (\<forall>pre n post. ns = pre @ n # post \<longrightarrow> set (node_children n) \<subseteq> set pre)"

lemma callees_first_append:
  assumes "callees_first xs" and "callees_first ys"
  shows "callees_first (xs @ ys)"
  unfolding callees_first_def
proof (intro allI impI)
  fix pre n post assume "xs @ ys = pre @ n # post"
  then consider us where "xs = pre @ n # us" | us where "pre = xs @ us" "ys = us @ n # post"
    by (auto simp: append_eq_append_conv2 Cons_eq_append_conv append_eq_Cons_conv)
  then show "set (node_children n) \<subseteq> set pre"
  proof cases
    case 1
    then show ?thesis using assms(1) unfolding callees_first_def by blast
  next
    case 2
    then have "set (node_children n) \<subseteq> set us" using assms(2) unfolding callees_first_def by blast
    then show ?thesis using 2 by auto
  qed
qed

lemma callees_first_concat: "(\<And>xs. xs \<in> set xss \<Longrightarrow> callees_first xs) \<Longrightarrow> callees_first (concat xss)"
proof (induction xss)
  case Nil
  then show ?case by (simp add: callees_first_def)
qed (simp add: callees_first_append)

lemma post_order_last: "cg_post_order_traversal node \<noteq> [] \<and> last (cg_post_order_traversal node) = node"
  by (cases node) simp

theorem post_order_callees_first: "callees_first (cg_post_order_traversal node)"
proof (induction node rule: cg_post_order_traversal.induct)
  case (1 f s n cs)
  have d: "callees_first (descendants cs)" unfolding descendants_def by (rule callees_first_concat) (use 1 in auto)
  have sub: "set cs \<subseteq> set (descendants cs)" 
  proof
    fix c assume c: "c \<in> set cs"
    have "c \<in> set (cg_post_order_traversal c)" using post_order_last [of c] last_in_set by metis
    then show "c \<in> set (descendants cs)" using c by (auto simp: descendants_def)
  qed
  have "set (node_children x) \<subseteq> set pre" if e: "descendants cs @ [FunctionNode f s n cs] = pre @ x # post" for pre x post
  proof (cases post rule: rev_cases)
    case Nil
    then show ?thesis using e sub by auto
  next
    case (snoc ys y)
    then have "descendants cs = pre @ x # ys" using e by (metis append.assoc append_Cons butlast_snoc)
    then show ?thesis using d unfolding callees_first_def by blast
  qed
  then show ?case unfolding callees_first_def cg_post_order_traversal.simps descendants_def [symmetric] by blast
qed

end
