(* ===== verification/Driver_Sound.thy ===== *)
theory Driver_Sound
  imports Heads Invoke_Sound Fill_Total Call_Tree Cf_Correct
begin

text \<open>
  The generator as a whole. With a configuration that lists legal and sufficient type lists, the
  driver never fails: for every function of the call graph the control flow, the instructions, the
  joins, the return and the calls succeed, every function it writes is well formed, and the
  functions of a module are linked: a function imports only functions written before it, under their
  own signatures.
\<close>

subsection \<open>What the configuration must provide\<close>

definition generator_config :: "arch_config \<Rightarrow> bool" where
  "generator_config cfg \<longleftrightarrow> legal_config cfg \<and> complete_config cfg \<and> set candidate_types \<subseteq> to_cranelift_type ` set (cfg_operand_types cfg)"

subsection \<open>One function\<close>

abbreviation types_for :: "arch_config \<Rightarrow> signature \<Rightarrow> clif_type set" where
  "types_for cfg sg \<equiv> set (sig_params sg) \<union> to_cranelift_type ` set (cfg_operand_types cfg)"

lemma sig_drawn_covered:
  assumes "generator_config cfg" and "sig_drawn sg"
  shows "returns_covered False cfg sg"
proof -
  have "sig_returns sg \<noteq> []" "set (sig_returns sg) \<subseteq> set candidate_types" using assms(2) by (auto simp: sig_drawn_def)
  then show ?thesis using assms(1) by (auto simp: returns_covered_def generator_config_def)
qed

lemma build_function:
  assumes R: "rand_ok R" "fcmp_ends R" and cfg: "generator_config cfg" and cov: "returns_covered r cfg sg" and g: "rng_ready g"
  shows "\<exists>f1 g1 f doms defs g2. cf_construct R (func_new nm sg) None 0 g = Some (f1, g1) \<and>
    function_generator R cfg r f1 g1 = Some (f, doms, defs, g2) \<and> callable (types_for cfg sg) doms defs f \<and>
    fn_name f = nm \<and> ext_funcs f = [] \<and> signatures f = [] \<and> (\<not> r \<longrightarrow> fn_sig f = sg) \<and> rng_ready g2"
proof -
  obtain f1 g1 en ex where c: "cf_construct R (func_new nm sg) None 0 g = Some (f1, g1)" "rng_ready g1" "cf_inv f1 en ex"
    using cf_construct_new_ex [OF R(1) g] by blast
  have h: "fn_name f1 = nm" "fn_sig f1 = sg" "ext_funcs f1 = []" "signatures f1 = []"
    using head_cf_construct [OF c(1)] by (simp_all add: head_of_def func_new_def)
  have cf: "legal_config cfg" "complete_config cfg" "{I32, I64} \<subseteq> to_cranelift_type ` set (cfg_operand_types cfg)"
    using cfg unfolding generator_config_def candidate_types_def by auto
  have run: "fill_blocks R cfg f1 g1 \<noteq> None" by (rule fill_blocks_runs [OF R cf(1,2) c(3) cf(3) c(2)])
  obtain f doms defs g2 where f: "function_generator R cfg r f1 g1 = Some (f, doms, defs, g2)"
    "callable (types_for cfg (fn_sig f1)) doms defs f" "fn_name f = fn_name f1 \<and> ext_funcs f = ext_funcs f1 \<and> signatures f = signatures f1"
    "\<not> r \<longrightarrow> fn_sig f = fn_sig f1" "global_rng g2 = global_rng g1"
    using function_generator_sound [OF R(1) cf(1) c(3) _ run, of r] cov h(2) by blast
  have "rng_ready g2" using c(2) f(5) by (simp add: rng_ready_def)
  then show ?thesis using c(1) f h by auto
qed

subsection \<open>The functions of the tree\<close>

definition fresh :: "function_node \<Rightarrow> bool" where
  "fresh n \<longleftrightarrow> sig_drawn (node_sig n) \<and> node_func n = func_new (node_name n) (node_sig n) \<and> (\<exists>k. node_name n = User 1 k)"

lemma tree_ok_descendants:
  "tree_ok d node \<Longrightarrow> n \<in> set (descendants (node_children node)) \<Longrightarrow> sig_drawn (node_sig n) \<and> node_func n = func_new (node_name n) (node_sig n)"
proof (induction d arbitrary: node)
  case 0
  then show ?case by (cases node) simp
next
  case (Suc d)
  obtain f s nm cs where node: "node = FunctionNode f s nm cs" by (cases node)
  then obtain c where c: "c \<in> set cs" "n \<in> set (cg_post_order_traversal c)" using Suc.prems(2) by (auto simp: descendants_def)
  then have ok: "tree_ok d c" "sig_drawn (node_sig c)" "node_func c = func_new (node_name c) (node_sig c)"
    using Suc.prems(1) by (auto simp: node list_all_iff)
  have "set (cg_post_order_traversal c) = insert c (set (descendants (node_children c)))" by (cases c) (simp add: descendants_def)
  then show ?case using c(2) ok(2,3) Suc.IH [OF ok(1)] by auto
qed

text \<open>The function that is written for a node.\<close>

definition made :: "function_node \<Rightarrow> func \<Rightarrow> bool" where
  "made n f \<longleftrightarrow> valid_func f \<and> fn_name f = node_name n \<and> ext_funcs f = imports_of (get_child_funcs_clone n) 0 \<and>
     signatures f = map node_sig (node_children n)"

lemma insert_function_invocation_made:
  assumes R: "rand_ok R" and cfg: "generator_config cfg" and call: "callable (types_for cfg sg) doms defs f"
    and e: "\<forall>e \<in> set entries. fn_name (fst e) \<noteq> fn_name f" and e': "\<forall>e \<in> set entries'. fn_name (fst e) \<noteq> fn_name f" and ch: "\<forall>c \<in> set (node_children n). fresh c"
    and f: "fn_name f = node_name n" "ext_funcs f = []" "signatures f = []"
  shows "\<exists>f' g'. insert_function_invocation R (entries @ (f, doms, defs) # entries') (set_node_func f n) g = Some (set_node_func f' n, g') \<and>
    made n f' \<and> fn_sig f' = fn_sig f \<and> global_rng g' = global_rng g"
proof -
  obtain f0 s nm cs where n: "n = FunctionNode f0 s nm cs" by (cases n)
  let ?es = "entries @ (f, doms, defs) # entries'" let ?hs = "get_child_funcs_clone n"
  have "callables (types_for cfg sg) ?es f" using call e e' by (auto simp: callables_def callable_def)
  moreover have "\<forall>h \<in> set ?hs. set (sig_params (fn_sig h)) \<subseteq> types_for cfg sg \<and> (\<exists>ns k. fn_name h = User ns k)"
  proof
    fix h assume "h \<in> set ?hs"
    then obtain c where c: "c \<in> set (node_children n)" "h = node_func c" by (auto simp: get_child_funcs_clone_def)
    then have "fresh c" using ch by blast
    then have "h = func_new (node_name c) (node_sig c)" "sig_drawn (node_sig c)" "\<exists>k. node_name c = User 1 k" using c(2) by (simp_all add: fresh_def)
    moreover from this have "set (sig_params (fn_sig h)) \<subseteq> set candidate_types" by (simp add: sig_drawn_def func_new_def)
    ultimately show "set (sig_params (fn_sig h)) \<subseteq> types_for cfg sg \<and> (\<exists>ns k. fn_name h = User ns k)"
      using cfg unfolding generator_config_def by (auto simp: func_new_def)
  qed
  ultimately obtain f' g' where r: "foldM (invoke_child R ?es) ?hs (f, g) = Some (f', g')" "keeps f f'" "global_rng g' = global_rng g"
    using invoke_children_valid [OF R] by blast
  have "map fn_sig ?hs = map node_sig (node_children n)" using ch by (simp add: get_child_funcs_clone_def fresh_def func_new_def)
  then have "made n f'" using r(2) invoke_children_imports [OF r(1)] f by (simp add: made_def keeps_def extends_def)
  moreover have "fn_sig f' = fn_sig f" using r(2) by (simp add: keeps_def extends_def)
  moreover have "insert_function_invocation R ?es (set_node_func f n) g = Some (set_node_func f' n, g')"
    using r(1) by (simp add: n get_child_funcs_clone_def)
  ultimately show ?thesis using r(3) by blast
qed

lemma node_func_set [simp]: "node_func (set_node_func f n) = f"
  by (cases n) simp

subsection \<open>The loop over the functions\<close>

lemma generate_rest_made:
  assumes R: "rand_ok R" "fcmp_ends R" and cfg: "generator_config cfg" and g: "rng_ready g"
    and n: "fresh n" "\<forall>c \<in> set (node_children n). fresh c" "\<forall>e \<in> set entries. fn_name (fst e) \<noteq> node_name n"
  shows "\<exists>f e g'. generate_rest W R cfg n (out, entries, g) = Some (out @ W f, entries @ [e], g') \<and> fn_name (fst e) = node_name n \<and>
    made n f \<and> fn_sig f = node_sig n \<and> rng_ready g'"
proof -
  have new: "node_func n = func_new (node_name n) (node_sig n)" and drawn: "sig_drawn (node_sig n)" using n(1) by (simp_all add: fresh_def)
  obtain f1 g1 f doms defs g2 where b: "cf_construct R (node_func n) None 0 g = Some (f1, g1)" "function_generator R cfg False f1 g1 = Some (f, doms, defs, g2)"
    "callable (types_for cfg (node_sig n)) doms defs f" "fn_name f = node_name n" "ext_funcs f = []" "signatures f = []" "fn_sig f = node_sig n" "rng_ready g2"
    using build_function [OF R cfg sig_drawn_covered [OF cfg drawn] g] unfolding new by blast
  obtain f' g' where i: "insert_function_invocation R (entries @ [(f, doms, defs)]) (set_node_func f n) g2 = Some (set_node_func f' n, g')"
    "made n f'" "fn_sig f' = fn_sig f" "global_rng g' = global_rng g2"
    using insert_function_invocation_made [OF R(1) cfg b(3) _ _ n(2) b(4-6), of entries "[]" g2] n(3) b(4) by auto
  have "generate_rest W R cfg n (out, entries, g) = Some (out @ W f', entries @ [(f, doms, defs)], g')"
    using b(1,2) i(1) by (simp add: generate_rest_def Let_def)
  moreover have "rng_ready g'" using b(8) i(4) by (simp add: rng_ready_def)
  ultimately show ?thesis using b(4,7) i(2,3) by (metis fst_conv)
qed

lemma generate_all_made:
  assumes R: "rand_ok R" "fcmp_ends R" and cfg: "generator_config cfg"
  shows "rng_ready g \<Longrightarrow> \<forall>n \<in> set ns. fresh n \<and> (\<forall>c \<in> set (node_children n). fresh c) \<Longrightarrow>
    distinct (map (\<lambda>e. fn_name (fst e)) entries @ map node_name ns) \<Longrightarrow>
    \<exists>fs es g'. foldM (generate_rest W R cfg) ns (out, entries, g) = Some (out @ concat (map W fs), entries @ es, g') \<and>
      map (\<lambda>e. fn_name (fst e)) es = map node_name ns \<and> list_all2 (\<lambda>n f. made n f \<and> fn_sig f = node_sig n) ns fs \<and> rng_ready g'"
proof (induction ns arbitrary: out entries g)
  case Nil
  then show ?case by auto
next
  case (Cons n ns)
  have "node_name n \<notin> (\<lambda>e. fn_name (fst e)) ` set entries" using Cons.prems(3) by simp
  then have "\<forall>e \<in> set entries. fn_name (fst e) \<noteq> node_name n" by (metis image_eqI)
  then have n: "fresh n" "\<forall>c \<in> set (node_children n). fresh c" "\<forall>e \<in> set entries. fn_name (fst e) \<noteq> node_name n"
    using Cons.prems(2) by simp_all
  obtain f e g1 where 1: "generate_rest W R cfg n (out, entries, g) = Some (out @ W f, entries @ [e], g1)" "fn_name (fst e) = node_name n"
    "made n f" "fn_sig f = node_sig n" "rng_ready g1"
    using generate_rest_made [OF R cfg Cons.prems(1) n] by blast
  obtain fs es g' where "foldM (generate_rest W R cfg) ns (out @ W f, entries @ [e], g1) = Some ((out @ W f) @ concat (map W fs), (entries @ [e]) @ es, g')"
    "map (\<lambda>e. fn_name (fst e)) es = map node_name ns" "list_all2 (\<lambda>n f. made n f \<and> fn_sig f = node_sig n) ns fs" "rng_ready g'"
    using Cons.IH [OF 1(5), of "entries @ [e]" "out @ W f"] Cons.prems(2,3) 1(2) by auto
  then show ?case using 1 by (intro exI [of _ "f # fs"] exI [of _ "e # es"] exI [of _ g']) simp
qed

subsection \<open>Modules\<close>

text \<open>A function may import the functions written before it, under their own signatures.\<close>

definition imports_ok :: "func list \<Rightarrow> func \<Rightarrow> bool" where
  "imports_ok pre f \<longleftrightarrow> list_all (\<lambda>e. \<exists>h \<in> set pre. ef_name e = fn_name h \<and> nth_opt (signatures f) (ef_sig e) = Some (fn_sig h)) (ext_funcs f)"

definition module_ok :: "func list \<Rightarrow> bool" where
  "module_ok fs \<longleftrightarrow> fs \<noteq> [] \<and> fn_name (last fs) = Testcase ''main'' \<and> distinct (map fn_name fs) \<and> list_all valid_func fs \<and>
     list_all (\<lambda>k. imports_ok (take k fs) (fs ! k)) [0..<length fs]"

lemma list_all_upt: "list_all P [0..<n] \<longleftrightarrow> (\<forall>k < n. P k)"
  by (auto simp: list_all_iff)

lemma made_imports_ok:
  assumes m: "made n f" and ch: "set (node_children n) \<subseteq> set pre" and fr: "\<forall>c \<in> set (node_children n). fresh c"
    and l: "list_all2 (\<lambda>n f. made n f \<and> fn_sig f = node_sig n) pre fs"
  shows "imports_ok fs f"
  unfolding imports_ok_def list_all_iff
proof
  fix e assume "e \<in> set (ext_funcs f)"
  then obtain k where k: "k < length (node_children n)" "e = \<lparr>ef_name = fn_name (node_func (node_children n ! k)), ef_sig = k\<rparr>"
    using m by (auto simp: made_def imports_of_def get_child_funcs_clone_def in_set_enumerate_eq)
  let ?c = "node_children n ! k"
  have c: "fresh ?c" "?c \<in> set pre" using k(1) ch fr by auto
  then obtain j where j: "j < length pre" "?c = pre ! j" by (auto simp: in_set_conv_nth)
  then have "made ?c (fs ! j)" "fn_sig (fs ! j) = node_sig ?c" "fs ! j \<in> set fs" using l by (auto simp: list_all2_conv_all_nth)
  moreover have "fn_name (node_func ?c) = node_name ?c" using c(1) by (simp add: fresh_def func_new_def)
  moreover have "nth_opt (signatures f) k = Some (node_sig ?c)" using m k(1) by (simp add: made_def)
  ultimately show "\<exists>h \<in> set fs. ef_name e = fn_name h \<and> nth_opt (signatures f) (ef_sig e) = Some (fn_sig h)"
    using k(2) by (intro bexI [of _ "fs ! j"]) (simp_all add: made_def)
qed

lemma module_okI:
  assumes l: "list_all2 (\<lambda>n f. made n f \<and> fn_sig f = node_sig n) ns fs" and r: "made root f" and nm: "node_name root = Testcase ''main''"
    and d: "distinct (map node_name (ns @ [root]))" and cf: "callees_first (ns @ [root])"
    and fr: "\<And>n c. n \<in> set (ns @ [root]) \<Longrightarrow> c \<in> set (node_children n) \<Longrightarrow> fresh c"
  shows "module_ok (fs @ [f])"
proof -
  have len: "length ns = length fs" using l by (rule list_all2_lengthD)
  have nms: "map fn_name (fs @ [f]) = map node_name (ns @ [root])"
    using l r by (auto simp: list_all2_conv_all_nth made_def intro!: nth_equalityI)
  have "imports_ok (take k (fs @ [f])) ((fs @ [f]) ! k)" if k: "k \<le> length fs" for k
  proof -
    let ?n = "(ns @ [root]) ! k"
    have "ns @ [root] = take k ns @ ?n # drop (Suc k) (ns @ [root])" using k len id_take_nth_drop [of k "ns @ [root]"] by simp
    then have "set (node_children ?n) \<subseteq> set (take k ns)" using cf unfolding callees_first_def by blast
    moreover have "\<forall>c \<in> set (node_children ?n). fresh c" using fr [of ?n] k len nth_mem [of k "ns @ [root]"] by simp
    moreover have "made ?n ((fs @ [f]) ! k)" using l r k len by (auto simp: list_all2_conv_all_nth nth_append)
    moreover have "list_all2 (\<lambda>n f. made n f \<and> fn_sig f = node_sig n) (take k ns) (take k fs)" using l by (rule list_all2_takeI)
    ultimately show ?thesis using made_imports_ok k by simp
  qed
  then have imp: "list_all (\<lambda>k. imports_ok (take k (fs @ [f])) ((fs @ [f]) ! k)) [0..<length (fs @ [f])]"
    unfolding list_all_upt by (metis length_append_singleton less_Suc_eq_le)
  have "list_all valid_func (fs @ [f])" using l r by (auto simp: list_all_iff list_all2_conv_all_nth made_def in_set_conv_nth)
  moreover have "distinct (map fn_name (fs @ [f]))" using d by (simp only: nms)
  moreover have "fn_name (last (fs @ [f])) = Testcase ''main''" using r nm by (simp add: made_def)
  ultimately show ?thesis using imp unfolding module_ok_def by blast
qed

theorem generate_module_sound:
  assumes R: "rand_ok R" "fcmp_ends R" and cfg: "generator_config cfg" and g: "rng_ready g"
  shows "\<exists>fs g'. generate_module W R cfg g = Some (newline @ concat (map W fs) @ newline @ newline @ ''; print: %main()'', g') \<and>
    module_ok fs \<and> 5 \<le> length fs \<and> length fs < 32 \<and> rng_ready g'"
proof -
  define sg where "sg = \<lparr>sig_params = [], sig_returns = ([] :: clif_type list)\<rparr>"
  let ?main = "Testcase ''main''"
  obtain cs j g1 where c: "generate_function_call_graph R g = Some (FunctionNode (func_new ?main sg) sg ?main cs, g1)"
    "tree_ok 4 (FunctionNode (func_new ?main sg) sg ?main cs)" "grown 3 0 j cs" "global_rng g1 = global_rng g"
    using call_graph_grown [OF R(1), of g] unfolding sg_def by blast
  have "returns_covered True cfg sg" using cfg by (simp add: returns_covered_def generator_config_def sg_def)
  then obtain f1 g2 f doms defs g3 where b: "cf_construct R (func_new ?main sg) None 0 g1 = Some (f1, g2)"
    "function_generator R cfg True f1 g2 = Some (f, doms, defs, g3)" "callable (types_for cfg sg) doms defs f"
    "fn_name f = ?main" "ext_funcs f = []" "signatures f = []" "rng_ready g3"
    using build_function [OF R cfg, of True sg g1 ?main] g c(4) by (auto simp: rng_ready_def)
  define root where "root = FunctionNode f sg ?main cs"
  define ns where "ns = descendants cs"
  have order: "cg_post_order_traversal root = ns @ [root]" by (simp add: root_def ns_def descendants_def)
  have names: "distinct (map node_name ns)" "set (map node_name ns) = User 1 ` {0<..j}" using c(3) unfolding grown_def ns_def by blast+
  have fresh: "fresh n" if "n \<in> set ns" for n
  proof -
    have "node_name n \<in> set (map node_name ns)" using that by simp
    then have "\<exists>k. node_name n = User 1 k" unfolding names(2) by blast
    then show ?thesis using tree_ok_descendants [OF c(2), of n] that by (auto simp: fresh_def ns_def)
  qed
  have cf: "callees_first (ns @ [root])" using post_order_callees_first [of root] by (simp add: order)
  have ch: "fresh c" if n: "n \<in> set (ns @ [root])" "c \<in> set (node_children n)" for n c
  proof -
    obtain pre post where s: "ns @ [root] = pre @ n # post" using split_list [OF n(1)] by blast
    then have "c \<in> set pre" using cf n(2) unfolding callees_first_def by blast
    then have "c \<in> set (butlast (ns @ [root]))" unfolding s by (simp add: butlast_append)
    then show ?thesis using fresh by simp
  qed
  have d: "distinct (map node_name (ns @ [root]))" using names by (auto simp: root_def)
  have "\<forall>n \<in> set ns. fresh n \<and> (\<forall>c \<in> set (node_children n). fresh c)" using fresh ch by (metis Un_iff set_append)
  moreover have "distinct (map (\<lambda>e. fn_name (fst e)) [(f, doms, defs)] @ map node_name ns)" using d b(4) by (simp add: root_def)
  ultimately obtain fs es g4 where l: "foldM (generate_rest W R cfg) ns (newline, [(f, doms, defs)], g3) =
      Some (newline @ concat (map W fs), [(f, doms, defs)] @ es, g4)" "map (\<lambda>e. fn_name (fst e)) es = map node_name ns"
      "list_all2 (\<lambda>n f. made n f \<and> fn_sig f = node_sig n) ns fs" "rng_ready g4"
    using generate_all_made [OF R cfg b(7)] by blast
  have es: "\<forall>e \<in> set es. fn_name (fst e) \<noteq> fn_name f"
  proof
    fix e assume "e \<in> set es"
    then have "fn_name (fst e) \<in> set (map node_name ns)" unfolding l(2) [symmetric] by simp
    then show "fn_name (fst e) \<noteq> fn_name f" unfolding names(2) b(4) by auto
  qed
  have rn: "\<forall>c \<in> set (node_children root). fresh c" "fn_name f = node_name root" "set_node_func f root = root"
  proof -
    show "\<forall>c \<in> set (node_children root). fresh c" using ch [of root] by simp
  qed (simp_all add: b(4) root_def)
  obtain f' g5 where i: "insert_function_invocation R ([] @ (f, doms, defs) # es) (set_node_func f root) g4 = Some (set_node_func f' root, g5)"
    "made root f'" "global_rng g5 = global_rng g4"
    using insert_function_invocation_made [OF R(1) cfg b(3) _ es rn(1,2) b(5,6), of "[]"] by (metis empty_iff empty_set)
  have ok: "module_ok (fs @ [f'])" by (rule module_okI [OF l(3) i(2) _ d cf ch]) (simp_all add: root_def)
  have "tree_ok 4 root" using c(2) by (simp add: root_def)
  then have "5 \<le> length (ns @ [root])" "length (ns @ [root]) < 32" using tree_ok_size [of 4 root] unfolding order by simp_all
  moreover have "generate_module W R cfg g = Some (newline @ concat (map W (fs @ [f'])) @ newline @ newline @ ''; print: %main()'', g5)"
  proof -
    have "set_node_func f (FunctionNode (func_new ?main sg) sg ?main cs) = root" by (simp add: root_def)
    then show ?thesis using c(1) b(1,2) l(1) i(1) order unfolding rn(3)
      by (simp add: generate_module_def Let_def del: cg_post_order_traversal.simps insert_function_invocation.simps set_node_func.simps)
  qed
  ultimately show ?thesis using ok l(3,4) i(3) list_all2_lengthD [OF l(3)] by (intro exI [of _ "fs @ [f']"] exI [of _ g5]) (simp add: rng_ready_def)
qed

end
