(* ===== verification/Driver_Files.thy ===== *)
theory Driver_Files
  imports Driver_Sound
begin

text \<open>
  The files of a run: every module is written once for each optimisation level, the three texts differ
  in the line that sets the level only, and no two files of a run have the same name.
\<close>

subsection \<open>Names\<close>

definition undecimal :: "string \<Rightarrow> nat" where
  "undecimal = foldl (\<lambda>n c. 10 * n + (of_char c - 48)) 0"

lemma undecimal_decimal: "undecimal (decimal n) = n"
proof (induction n rule: decimal.induct)
  case (1 n)
  show ?case
  proof (cases "n < 10")
    case False
    then have "undecimal (decimal (n div 10)) = n div 10" using 1 by simp
    then show ?thesis using False by (subst decimal.simps) (simp add: undecimal_def of_char_of)
  qed (simp add: decimal.simps [of n] undecimal_def of_char_of)
qed

lemma decimal_digits: "c \<in> set (decimal n) \<Longrightarrow> c \<noteq> CHR ''_''"
proof (induction n rule: decimal.induct)
  case (1 n)
  have "char_of (48 + d) \<noteq> CHR ''_''" if "d < 10" for d :: nat
  proof
    assume "char_of (48 + d) = CHR ''_''"
    then have "(of_char (char_of (48 + d)) :: nat) = of_char (CHR ''_'')" by simp
    then show False using that by (simp add: of_char_of)
  qed
  then have "char_of (48 + n mod 10) \<noteq> CHR ''_''" "n < 10 \<Longrightarrow> char_of (48 + n) \<noteq> CHR ''_''" by simp_all
  then show ?case using 1 decimal.simps [of n] by (auto split: if_splits)
qed

lemma clif_name_inject: "clif_name j l = clif_name k m \<longleftrightarrow> j = k \<and> l = m"
proof
  assume eq: "clif_name j l = clif_name k m"
  have tw: "takeWhile (\<lambda>c. c \<noteq> CHR ''_'') (decimal i @ ''_'' @ xs) = decimal i" for i xs
    using decimal_digits by (subst takeWhile_append2) auto
  have "decimal j @ ''_'' @ l @ ''.clif'' = decimal k @ ''_'' @ m @ ''.clif''" using eq by (simp add: clif_name_def)
  then have d: "decimal j = decimal k" using tw by metis
  then have "j = k" using undecimal_decimal by metis
  then show "j = k \<and> l = m" using eq d by (simp add: clif_name_def)
qed simp

lemma path_join_inject: "hd q \<noteq> CHR ''/'' \<Longrightarrow> hd r \<noteq> CHR ''/'' \<Longrightarrow> path_join p q = path_join p r \<longleftrightarrow> q = r"
  by (auto simp: path_join_def)

lemma clif_path_inject: "path_join p (clif_name j l) = path_join p (clif_name k m) \<longleftrightarrow> j = k \<and> l = m"
  by (subst path_join_inject) (simp_all add: clif_name_inject, simp_all add: clif_name_def)

lemma write_levels_distinct:
  assumes "distinct (map fst ks)"
  shows "distinct (map fst (concat (map (\<lambda>(k, m). write_levels config path k m) ks)))"
  using assms by (induction ks) (auto simp: write_levels_def opt_levels_def clif_path_inject simp: rev_image_eqI)

lemma length_write_levels: "length (concat (map (\<lambda>(k, t). write_levels cfg path k t) (enumerate i ts))) = 3 * length ts"
  by (induction ts arbitrary: i) (simp_all add: write_levels_def opt_levels_def)

subsection \<open>The loop\<close>

definition module_text :: "(func \<Rightarrow> string) \<Rightarrow> string \<Rightarrow> bool" where
  "module_text W t \<longleftrightarrow> (\<exists>fs. module_ok fs \<and> t = newline @ concat (map W fs) @ newline @ newline @ ''; print: %main()'')"

lemma generate_loop_files:
  assumes body: "\<And>k g. rng_ready g \<Longrightarrow> \<exists>t g'. body k g = Some (F k t, g') \<and> P t \<and> rng_ready g'"
  shows "rng_ready g \<Longrightarrow> \<exists>ts g'. generate_loop body num i g = Some (concat (map (\<lambda>(k, t). F k t) (enumerate i ts)), g') \<and>
    length ts = max 1 (num - i) \<and> list_all P ts \<and> rng_ready g'"
proof (induction "num - i" arbitrary: i g rule: less_induct)
  case less
  obtain t g1 where t: "body i g = Some (F i t, g1)" "P t" "rng_ready g1" using body [OF less.prems] by blast
  show ?case
  proof (cases "num \<le> Suc i")
    case True
    then show ?thesis using t by (subst generate_loop.simps) (auto intro!: exI [of _ "[t]"])
  next
    case False
    then obtain ts g' where "generate_loop body num (Suc i) g1 = Some (concat (map (\<lambda>(k, t). F k t) (enumerate (Suc i) ts)), g')"
      "length ts = max 1 (num - Suc i)" "list_all P ts" "rng_ready g'" using less.hyps [of "Suc i" g1] t(3) by (auto simp: diff_less_mono2)
    then show ?thesis using t False by (subst generate_loop.simps) (auto intro!: exI [of _ "t # ts"])
  qed
qed

lemma generate_module_text:
  assumes R: "rand_ok R" "fcmp_ends R" and cfg: "generator_config cfg" and g: "rng_ready g"
  shows "\<exists>t g'. generate_module W R cfg g = Some (t, g') \<and> module_text W t \<and> rng_ready g'"
  using generate_module_sound [OF assms, of W] unfolding module_text_def by blast

theorem generate_ir_sound:
  assumes R: "rand_ok R" "fcmp_ends R" and cfg: "generator_config cfg" and docs: "documents = Inr docs"
  shows "\<exists>ts g'. generate_ir documents W R cfg path num g = Some (concat (map (\<lambda>(k, t). write_levels cfg path k t) (enumerate 0 ts)), g') \<and>
    length ts = max 1 num \<and> list_all (module_text W) ts"
proof -
  let ?body = "\<lambda>k g. do { (t, g) \<leftarrow> generate_module W R cfg g; Some (write_levels cfg path k t, g) }"
  have "\<exists>t g'. ?body k g = Some (write_levels cfg path k t, g') \<and> module_text W t \<and> rng_ready g'" if r: "rng_ready g" for k g
    using generate_module_text [OF R cfg r, of W] by auto
  then show ?thesis using generate_loop_files [of ?body "write_levels cfg path" "module_text W" "initialize_rng g" num 0]
    by (auto simp: generate_ir_def docs)
qed

text \<open>In the mode for several architectures the same module goes to the directory of each of them.\<close>

theorem generate_ir_intersection_sound:
  fixes cfgs :: "arch_config list" and path :: string
  assumes R: "rand_ok R" "fcmp_ends R" and cfg: "generator_config cfg" and docs: "documents = Inr docs"
  defines "F \<equiv> \<lambda>k t. concat (map (\<lambda>config. write_levels config (path_join path (cfg_arch config)) k t) (cfg # cfgs))"
  shows "\<exists>ts g'. generate_ir_intersection documents W R (cfg # cfgs) path num g = Some (concat (map (\<lambda>(k, t). F k t) (enumerate 0 ts)), g') \<and>
    length ts = max 1 num \<and> list_all (module_text W) ts"
proof -
  let ?body = "\<lambda>k g. do { config \<leftarrow> nth_opt (cfg # cfgs) 0; (t, g) \<leftarrow> generate_module W R config g; Some (F k t, g) }"
  have "\<exists>t g'. ?body k g = Some (F k t, g') \<and> module_text W t \<and> rng_ready g'" if r: "rng_ready g" for k g
    using generate_module_text [OF R cfg r, of W] by (auto simp: nth_opt_def)
  then show ?thesis using generate_loop_files [of ?body F "module_text W" "initialize_rng g" num 0]
    unfolding F_def generate_ir_intersection_def docs by auto
qed

subsection \<open>Reading the configurations\<close>

text \<open>The error of the first configuration that cannot be read.\<close>

definition first_failure :: "(string \<Rightarrow> string + arch_config) \<Rightarrow> string list \<Rightarrow> string option" where
  "first_failure read_config paths = map_option (\<lambda>p. projl (read_config p)) (find (\<lambda>p. isl (read_config p)) paths)"

lemma collect_first_failure:
  "collect_results (map read_config paths) =
     (case first_failure read_config paths of Some e \<Rightarrow> Inl e | None \<Rightarrow> Inr (map (\<lambda>p. projr (read_config p)) paths))"
proof (induction paths)
  case (Cons p ps)
  then show ?case by (cases "read_config p") (auto simp: first_failure_def split: option.splits)
qed (simp add: first_failure_def)

lemma config_intersection_cases:
  "first_failure read_config paths = Some e \<Longrightarrow> config_intersection read_config paths = Some (Inl e)"
  "first_failure read_config paths = None \<Longrightarrow> paths \<noteq> [] \<Longrightarrow> \<exists>c. config_intersection read_config paths = Some (Inr c)"
  "config_intersection read_config [] = None"
  by (auto simp: config_intersection_def collect_first_failure split: list.splits)

lemma first_failure_None: "first_failure read_config paths = None \<longleftrightarrow> (\<forall>p \<in> set paths. \<exists>c. read_config p = Inr c)"
  by (auto simp: first_failure_def find_None_iff isl_def) (metis sum.exhaust)+

end
