(* ===== verification/Arch_Configs.thy ===== *)
theory Arch_Configs
  imports Selector_Total
begin

text \<open>
  The configurations that ship with the generator (\<open>configs/arch_*.toml\<close>), as the parser of the
  driver reads them: the fields of the header and the list of instructions with their modes, in the
  order of the files. The lists of one file are cut into pieces of about 150 lines.
\<close>

subsection \<open>Entries\<close>

text \<open>Every mode of the files is called \<open>default\<close>.\<close>

definition default_mode :: "operand_type list option \<Rightarrow> operand_type list option \<Rightarrow> operand_type list option \<Rightarrow> result_type option \<Rightarrow>
    bool option \<Rightarrow> mode" where
  "default_mode ops a0 a1 r mem = \<lparr>mode_name = ''default'', mode_operand_types = ops, mode_arg0_types = a0, mode_arg1_types = a1,
     mode_result_type = r, mode_memory = mem\<rparr>"

definition instr_with :: "string \<Rightarrow> mode list \<Rightarrow> instruction" where
  "instr_with nm mds = \<lparr>instr_name = nm, instr_modes = Some mds\<rparr>"

definition instr_without :: "string \<Rightarrow> instruction" where
  "instr_without nm = \<lparr>instr_name = nm, instr_modes = None\<rparr>"

definition config_sets :: "(string \<times> string) list" where
  "config_sets = [(''preserve_frame_pointers'', ''true''), (''enable_multi_ret_implicit_sret'', ''true''),
     (''enable_nan_canonicalization'', ''true''), (''enable_pinned_reg'', ''true'')]"

definition targets_list :: "string list" where
  "targets_list = [''x86_64 sse42 has_avx'', ''aarch64'', ''s390x'',
     ''riscv64gc has_zcd has_zbkb has_zbc has_zbs has_zicond has_zvl32b has_zvl64b has_zvl128b has_zvl1024b has_zvl2048b has_zvl4096b has_zvl8192b has_zvl16384b has_zvl32768b'']"

subsection \<open>\<open>arch_x86.toml\<close>\<close>

definition x86_instrs_1 :: "instruction list" where
  "x86_instrs_1 = [
     instr_with ''atomic_cas'' [default_mode (Some [OI8, OI16, OI32, OI64]) None None (Some RSame) None],
     instr_with ''atomic_rmw'' [default_mode (Some [OI8, OI16, OI32, OI64]) None None (Some RSame) None],
     instr_with ''swizzle'' [default_mode (Some [OI8x16]) None None (Some RSame) None],
     instr_with ''x86_pshufb'' [default_mode (Some [OI8x16]) None None (Some RSame) None],
     instr_with ''smin'' [default_mode (Some [OI8, OI16, OI32, OI64, OI8x16, OI16x8, OI32x4, OI64x2]) None None (Some RSame) None],
     instr_with ''umin'' [default_mode (Some [OI8, OI16, OI32, OI64, OI8x16, OI16x8, OI32x4, OI64x2]) None None (Some RSame) None],
     instr_with ''smax'' [default_mode (Some [OI8, OI16, OI32, OI64, OI8x16, OI16x8, OI32x4, OI64x2]) None None (Some RSame) None],
     instr_with ''umax'' [default_mode (Some [OI8, OI16, OI32, OI64, OI8x16, OI16x8, OI32x4, OI64x2]) None None (Some RSame) None],
     instr_with ''avg_round'' [default_mode (Some [OI8x16, OI16x8, OI32x4, OI64x2]) None None (Some RSame) None],
     instr_with ''uadd_sat'' [default_mode (Some [OI8x16, OI16x8]) None None (Some RSame) None],
     instr_with ''sadd_sat'' [default_mode (Some [OI8x16, OI16x8]) None None (Some RSame) None],
     instr_with ''usub_sat'' [default_mode (Some [OI8x16, OI16x8]) None None (Some RSame) None],
     instr_with ''ssub_sat'' [default_mode (Some [OI8x16, OI16x8]) None None (Some RSame) None],
     instr_with ''iadd'' [default_mode (Some [OI8, OI16, OI32, OI64, OI128, OI8x16, OI16x8, OI32x4, OI64x2]) None None (Some RSame) None],
     instr_with ''isub'' [default_mode (Some [OI8, OI16, OI32, OI64, OI128, OI8x16, OI16x8, OI32x4, OI64x2]) None None (Some RSame) None],
     instr_with ''imul'' [default_mode (Some [OI8, OI16, OI32, OI64, OI128, OI8x16, OI16x8, OI32x4, OI64x2]) None None (Some RSame) None],
     instr_with ''umulhi'' [default_mode (Some [OI8, OI16, OI32, OI64]) None None (Some RSame) None],
     instr_with ''smulhi'' [default_mode (Some [OI8, OI16, OI32, OI64]) None None (Some RSame) None],
     instr_with ''sqmul_round_sat'' [default_mode (Some [OI16x8]) None None (Some RSame) None],
     instr_with ''x86_pmaddubsw'' [default_mode (Some [OI8x16]) None None (Some RConditional) None],
     instr_with ''udiv'' [default_mode (Some [OI8, OI16, OI32, OI64]) None None (Some RSame) None],
     instr_with ''sdiv'' [default_mode (Some [OI8, OI16, OI32, OI64]) None None (Some RSame) None],
     instr_with ''urem'' [default_mode (Some [OI8, OI16, OI32, OI64]) None None (Some RSame) None],
     instr_with ''srem'' [default_mode (Some [OI8, OI16, OI32, OI64]) None None (Some RSame) None],
     instr_with ''uadd_overflow'' [default_mode (Some [OI8, OI16, OI32, OI64, OI128]) None None (Some RSame) None]]"

definition x86_instrs_2 :: "instruction list" where
  "x86_instrs_2 = [
     instr_with ''sadd_overflow'' [default_mode (Some [OI8, OI16, OI32, OI64, OI128]) None None (Some RSame) None],
     instr_with ''usub_overflow'' [default_mode (Some [OI8, OI16, OI32, OI64, OI128]) None None (Some RSame) None],
     instr_with ''ssub_overflow'' [default_mode (Some [OI8, OI16, OI32, OI64, OI128]) None None (Some RSame) None],
     instr_with ''umul_overflow'' [default_mode (Some [OI8, OI16, OI32, OI64]) None None (Some RSame) None],
     instr_with ''smul_overflow'' [default_mode (Some [OI8, OI16, OI32, OI64]) None None (Some RSame) None],
     instr_with ''band'' [default_mode (Some [OI8, OI16, OI32, OI64, OI128, OF32, OF64, OI8x16, OI16x8, OI32x4, OI64x2, OF16x8, OF32x4, OF64x2]) None None (Some RSame) None],
     instr_with ''bor'' [default_mode (Some [OI8, OI16, OI32, OI64, OI128, OF32, OF64, OI8x16, OI16x8, OI32x4, OI64x2, OF16x8, OF32x4, OF64x2]) None None (Some RSame) None],
     instr_with ''bxor'' [default_mode (Some [OI8, OI16, OI32, OI64, OI128, OF32, OF64, OI8x16, OI16x8, OI32x4, OI64x2, OF16x8, OF32x4, OF64x2]) None None (Some RSame) None],
     instr_with ''band_not'' [default_mode (Some [OI8, OI16, OI32, OI64, OI128, OF32, OF64, OI8x16, OI16x8, OI32x4, OI64x2, OF16x8, OF32x4, OF64x2]) None None (Some RSame) None],
     instr_with ''bor_not'' [default_mode (Some [OI8, OI16, OI32, OI64, OI128, OF32, OF64, OI8x16, OI16x8, OI32x4, OI64x2, OF16x8, OF32x4, OF64x2]) None None (Some RSame) None],
     instr_with ''bxor_not'' [default_mode (Some [OI8, OI16, OI32, OI64, OI128, OF32, OF64, OI8x16, OI16x8, OI32x4, OI64x2, OF16x8, OF32x4, OF64x2]) None None (Some RSame) None],
     instr_with ''rotl'' [default_mode None (Some [OI8, OI16, OI32, OI64, OI128]) (Some [OI8, OI16, OI32, OI64]) (Some RConditional) None],
     instr_with ''rotr'' [default_mode None (Some [OI8, OI16, OI32, OI64, OI128]) (Some [OI8, OI16, OI32, OI64]) (Some RConditional) None],
     instr_with ''ishl'' [default_mode None (Some [OI8, OI16, OI32, OI64, OI128, OI8x16, OI16x8, OI32x4, OI64x2]) (Some [OI8, OI16, OI32, OI64]) (Some RConditional) None],
     instr_with ''ushr'' [default_mode None (Some [OI8, OI16, OI32, OI64, OI128, OI8x16, OI16x8, OI32x4, OI64x2]) (Some [OI8, OI16, OI32, OI64]) (Some RConditional) None],
     instr_with ''sshr'' [default_mode None (Some [OI8, OI16, OI32, OI64, OI128, OI8x16, OI16x8, OI32x4, OI64x2]) (Some [OI8, OI16, OI32, OI64]) (Some RConditional) None],
     instr_with ''fadd'' [default_mode (Some [OF32, OF64, OF32x4, OF64x2]) None None (Some RSame) None],
     instr_with ''fsub'' [default_mode (Some [OF32, OF64, OF32x4, OF64x2]) None None (Some RSame) None],
     instr_with ''fmul'' [default_mode (Some [OF32, OF64, OF32x4, OF64x2]) None None (Some RSame) None],
     instr_with ''fdiv'' [default_mode (Some [OF32, OF64, OF32x4, OF64x2]) None None (Some RSame) None],
     instr_with ''fcopysign'' [default_mode (Some [OF32, OF64]) None None (Some RSame) None],
     instr_with ''fmin'' [default_mode (Some [OF32, OF64]) None None (Some RSame) None],
     instr_with ''fmax'' [default_mode (Some [OF32, OF64]) None None (Some RSame) None],
     instr_with ''snarrow'' [default_mode (Some [OI16x8, OI32x4]) None None (Some RConditional) None],
     instr_with ''unarrow'' [default_mode (Some [OI16x8, OI32x4]) None None (Some RConditional) None]]"

definition x86_instrs_3 :: "instruction list" where
  "x86_instrs_3 = [
     instr_without ''uunarrow'',
     instr_with ''iadd_pairwise'' [default_mode (Some [OI8x16, OI16x8, OI32x4]) None None (Some RSame) None],
     instr_with ''iconcat'' [default_mode (Some [OI64]) None None (Some RConditional) None],
     instr_with ''iadd_imm'' [default_mode (Some [OI8, OI16, OI32, OI64]) None None (Some RSame) None],
     instr_with ''imul_imm'' [default_mode (Some [OI8, OI16, OI32, OI64]) None None (Some RSame) None],
     instr_with ''udiv_imm'' [default_mode (Some [OI8, OI16, OI32, OI64]) None None (Some RSame) None],
     instr_with ''sdiv_imm'' [default_mode (Some [OI8, OI16, OI32, OI64]) None None (Some RSame) None],
     instr_with ''urem_imm'' [default_mode (Some [OI8, OI16, OI32, OI64]) None None (Some RSame) None],
     instr_with ''srem_imm'' [default_mode (Some [OI8, OI16, OI32, OI64]) None None (Some RSame) None],
     instr_with ''irsub_imm'' [default_mode (Some [OI8, OI16, OI32, OI64]) None None (Some RSame) None],
     instr_with ''band_imm'' [default_mode (Some [OI8, OI16, OI32, OI64]) None None (Some RSame) None],
     instr_with ''bor_imm'' [default_mode (Some [OI8, OI16, OI32, OI64]) None None (Some RSame) None],
     instr_with ''bxor_imm'' [default_mode (Some [OI8, OI16, OI32, OI64]) None None (Some RSame) None],
     instr_with ''rotl_imm'' [default_mode (Some [OI8, OI16, OI32, OI64]) None None (Some RSame) None],
     instr_with ''rotr_imm'' [default_mode (Some [OI8, OI16, OI32, OI64]) None None (Some RSame) None],
     instr_with ''ishl_imm'' [default_mode (Some [OI8, OI16, OI32, OI64]) None None (Some RSame) None],
     instr_with ''ushr_imm'' [default_mode (Some [OI8, OI16, OI32, OI64]) None None (Some RSame) None],
     instr_with ''sshr_imm'' [default_mode (Some [OI8, OI16, OI32, OI64]) None None (Some RSame) None],
     instr_with ''extractlane'' [default_mode (Some [OI8x16, OI16x8, OI32x4, OI64x2, OF32x4, OF64x2]) None None (Some RConditional) None],
     instr_without ''extract_vector'',
     instr_with ''fcmp'' [default_mode (Some [OF32, OF64, OF32x4, OF64x2]) None None (Some RConditional) None],
     instr_with ''uadd_overflow_trap'' [default_mode (Some [OI32, OI64]) None None (Some RSame) None],
     instr_with ''icmp'' [default_mode (Some [OI8, OI16, OI32, OI64, OI128, OI16x8, OI32x4, OI64x2]) None None (Some RConditional) None],
     instr_with ''icmp_imm'' [default_mode (Some [OI8, OI16, OI32, OI64]) None None (Some RConditional) None],
     instr_with ''load'' [default_mode (Some [OI8, OI16, OI32, OI64, OI128, OF16, OF32, OF64, OI8x16, OI16x8, OI32x4, OI64x2, OF16x8, OF32x4, OF64x2]) None None None (Some True)]]"

definition x86_instrs_4 :: "instruction list" where
  "x86_instrs_4 = [
     instr_with ''uload8'' [default_mode (Some [OI16, OI32, OI64]) None None None (Some True)],
     instr_with ''sload8'' [default_mode (Some [OI16, OI32, OI64]) None None None (Some True)],
     instr_with ''uload16'' [default_mode (Some [OI32, OI64]) None None None (Some True)],
     instr_with ''sload16'' [default_mode (Some [OI32, OI64]) None None None (Some True)],
     instr_with ''uload32'' [default_mode (Some [OI64]) None None None (Some True)],
     instr_with ''sload32'' [default_mode (Some [OI64]) None None None (Some True)],
     instr_with ''uload8x8'' [default_mode (Some [OI16x8]) None None None (Some True)],
     instr_with ''sload8x8'' [default_mode (Some [OI16x8]) None None None (Some True)],
     instr_with ''uload16x4'' [default_mode (Some [OI32x4]) None None None (Some True)],
     instr_with ''sload16x4'' [default_mode (Some [OI32x4]) None None None (Some True)],
     instr_with ''uload32x2'' [default_mode (Some [OI64x2]) None None None (Some True)],
     instr_with ''sload32x2'' [default_mode (Some [OI64x2]) None None None (Some True)],
     instr_with ''bitcast'' [default_mode (Some [OI32, OI64, OF32, OF64, OI16x8, OI32x4, OI64x2, OF16x8, OF32x4, OF64x2]) None None (Some RConditional) None],
     instr_with ''shuffle'' [default_mode (Some [OI8x16]) None None (Some RConditional) None],
     instr_with ''stack_load'' [default_mode (Some [OI8, OI16, OI32, OI64, OI128, OI8x16, OI16x8, OI32x4, OI64x2, OF16x8, OF32x4, OF64x2]) None None (Some RSame) (Some True)],
     instr_without ''stack_addr'',
     instr_with ''stack_store'' [default_mode (Some [OI8, OI16, OI32, OI64, OI128, OI8x16, OI16x8, OI32x4, OI64x2, OF32x4, OF64x2]) None None None (Some True)],
     instr_with ''store'' [default_mode (Some [OI8, OI16, OI32, OI64, OI128, OI8x16, OI16x8, OI32x4, OI64x2, OF32x4, OF64x2]) None None None (Some True)],
     instr_with ''istore8'' [default_mode (Some [OI16, OI32, OI64]) None None None (Some True)],
     instr_with ''istore16'' [default_mode (Some [OI32, OI64]) None None None (Some True)],
     instr_with ''istore32'' [default_mode (Some [OI64]) None None None (Some True)],
     instr_with ''atomic_store'' [default_mode (Some [OI8, OI16, OI32, OI64]) None None None (Some True)],
     instr_with ''select'' [default_mode None (Some [OI8, OI16, OI32, OI64]) (Some [OI8, OI16, OI32, OI64, OF32, OF64, OI8x16, OI16x8, OI32x4, OI64x2, OF32x4, OF64x2]) (Some RConditional) None],
     instr_with ''select_spectre_guard'' [default_mode None (Some [OI8, OI16, OI32, OI64]) (Some [OI8, OI16, OI32, OI64, OF32, OF64, OI8x16, OI16x8, OI32x4, OI64x2, OF32x4, OF64x2]) (Some RConditional) None]]"

definition x86_instrs_5 :: "instruction list" where
  "x86_instrs_5 = [
     instr_with ''bitselect'' [default_mode (Some [OI8, OI16, OI32, OI64, OF32, OF64, OI8x16, OI16x8, OI32x4, OI64x2, OF32x4, OF64x2]) None None (Some RSame) None],
     instr_with ''fma'' [default_mode (Some [OF32, OF64, OF32x4, OF64x2]) None None (Some RSame) None],
     instr_with ''insertlane'' [default_mode (Some [OI8x16, OI16x8, OI32x4, OI64x2, OF32x4, OF64x2]) None None (Some RConditional) None],
     instr_with ''splat'' [default_mode (Some [OI8x16, OI16x8, OI32x4, OI64x2, OF32x4, OF64x2]) None None (Some RConditional) None],
     instr_with ''vany_true'' [default_mode (Some [OI8x16, OI16x8, OI32x4, OI64x2, OF32x4, OF64x2]) None None (Some RConditional) None],
     instr_with ''vall_true'' [default_mode (Some [OI8x16, OI16x8, OI32x4, OI64x2, OF16x8, OF32x4, OF64x2]) None None (Some RConditional) None],
     instr_with ''vhigh_bits'' [default_mode (Some [OI8x16, OI16x8, OI32x4, OI64x2]) None None (Some RConditional) None],
     instr_with ''ineg'' [default_mode (Some [OI8, OI16, OI32, OI64, OI128, OI8x16, OI16x8, OI32x4, OI64x2]) None None (Some RSame) None],
     instr_with ''iabs'' [default_mode (Some [OI8, OI16, OI32, OI64, OI8x16, OI16x8, OI32x4, OI64x2]) None None (Some RSame) None],
     instr_with ''bnot'' [default_mode (Some [OI8, OI16, OI32, OI64, OI128, OF16, OF32, OF64, OI8x16, OI16x8, OI32x4, OI64x2, OF16x8, OF32x4, OF64x2]) None None (Some RSame) None],
     instr_with ''bitrev'' [default_mode (Some [OI8, OI16, OI32, OI64, OI128]) None None (Some RSame) None],
     instr_with ''clz'' [default_mode (Some [OI8, OI16, OI32, OI64, OI128]) None None (Some RSame) None],
     instr_with ''cls'' [default_mode (Some [OI8, OI16, OI32, OI64, OI128]) None None (Some RSame) None],
     instr_with ''ctz'' [default_mode (Some [OI8, OI16, OI32, OI64, OI128]) None None (Some RSame) None],
     instr_with ''bswap'' [default_mode (Some [OI16, OI32, OI64, OI128]) None None (Some RSame) None],
     instr_with ''popcnt'' [default_mode (Some [OI8, OI16, OI32, OI64, OI128, OI8x16]) None None (Some RSame) None],
     instr_with ''sqrt'' [default_mode (Some [OF32, OF64, OF32x4, OF64x2]) None None (Some RSame) None],
     instr_with ''fneg'' [default_mode (Some [OF32, OF64, OF32x4, OF64x2]) None None (Some RSame) None],
     instr_with ''fabs'' [default_mode (Some [OF32, OF64, OF32x4, OF64x2]) None None (Some RSame) None],
     instr_with ''ceil'' [default_mode (Some [OF32, OF64, OF32x4, OF64x2]) None None (Some RSame) None],
     instr_with ''floor'' [default_mode (Some [OF32, OF64, OF32x4, OF64x2]) None None (Some RSame) None],
     instr_with ''trunc'' [default_mode (Some [OF32, OF64, OF32x4, OF64x2]) None None (Some RSame) None],
     instr_with ''nearest'' [default_mode (Some [OF32, OF64, OF32x4, OF64x2]) None None (Some RSame) None]]"

definition x86_instrs_6 :: "instruction list" where
  "x86_instrs_6 = [
     instr_with ''scalar_to_vector'' [default_mode (Some [OI16x8, OI32x4, OI64x2, OF32x4, OF64x2]) None None (Some RConditional) None],
     instr_with ''bmask'' [default_mode None (Some [OI8, OI16, OI32, OI64, OI128]) (Some [OI8, OI16, OI32, OI64, OI128]) (Some RConditional) None],
     instr_with ''ireduce'' [default_mode (Some [OI8, OI16, OI32]) None None (Some RConditional) None],
     instr_with ''swiden_low'' [default_mode (Some [OI16x8, OI32x4, OI64x2]) None None (Some RConditional) None],
     instr_with ''swiden_high'' [default_mode (Some [OI16x8, OI32x4, OI64x2]) None None (Some RConditional) None],
     instr_with ''uwiden_low'' [default_mode (Some [OI16x8, OI32x4, OI64x2]) None None (Some RConditional) None],
     instr_with ''uwiden_high'' [default_mode (Some [OI16x8, OI32x4, OI64x2]) None None (Some RConditional) None],
     instr_with ''uextend'' [default_mode (Some [OI16, OI32, OI64, OI128]) None None (Some RConditional) None],
     instr_with ''sextend'' [default_mode (Some [OI16, OI32, OI64, OI128]) None None (Some RConditional) None],
     instr_with ''fpromote'' [default_mode (Some [OF32]) None None (Some RConditional) None],
     instr_with ''fdemote'' [default_mode (Some [OF64]) None None (Some RConditional) None],
     instr_with ''fvdemote'' [default_mode (Some [OF64x2]) None None (Some RConditional) None],
     instr_with ''fvpromote_low'' [default_mode (Some [OF32x4]) None None (Some RConditional) None],
     instr_with ''fcvt_to_uint'' [default_mode (Some [OF32, OF64]) None None (Some RConditional) None],
     instr_with ''fcvt_to_sint'' [default_mode (Some [OF32, OF64]) None None (Some RConditional) None],
     instr_with ''fcvt_to_uint_sat'' [default_mode (Some [OF32, OF64, OF32x4]) None None (Some RConditional) None],
     instr_with ''fcvt_to_sint_sat'' [default_mode (Some [OF32, OF64, OF32x4]) None None (Some RConditional) None],
     instr_with ''x86_cvtt2dq'' [default_mode (Some [OF32x4]) None None (Some RConditional) None],
     instr_with ''fcvt_from_uint'' [default_mode (Some [OI32, OI64, OI32x4, OI64x2]) None None (Some RConditional) None],
     instr_with ''fcvt_from_sint'' [default_mode (Some [OI32, OI64, OI32x4, OI64x2]) None None (Some RConditional) None],
     instr_with ''f16const'' [default_mode None None None None None],
     instr_with ''f32const'' [default_mode None None None None None]]"

definition x86_instrs_7 :: "instruction list" where
  "x86_instrs_7 = [
     instr_with ''f64const'' [default_mode None None None None None],
     instr_with ''f128const'' [default_mode None None None None None],
     instr_with ''iconst'' [default_mode None None None None None],
     instr_with ''x86_pmulhrsw'' [default_mode (Some [OI16x8]) None None (Some RConditional) None],
     instr_with ''atomic_load'' [default_mode (Some [OI8, OI16, OI32, OI64]) None None None (Some True)],
     instr_without ''trapnz'',
     instr_without ''trapz'',
     instr_without ''br_table'',
     instr_without ''brif'',
     instr_without ''call'',
     instr_without ''call_indirect'',
     instr_without ''return_call'',
     instr_without ''return_call_indirect'',
     instr_with ''get_stack_pointer'' [default_mode (Some []) None None None None],
     instr_with ''get_frame_pointer'' [default_mode (Some []) None None None None],
     instr_with ''get_return_address'' [default_mode (Some []) None None None None],
     instr_without ''func_addr'',
     instr_with ''blendv'' [default_mode (Some [OI8x16, OI16x8, OI32x4, OI64x2, OF16x8, OF32x4, OF64x2]) None None (Some RSame) None],
     instr_with ''isplit'' [default_mode (Some [OI16, OI32, OI64, OI128]) None None (Some RConditional) None],
     instr_with ''get_pinned_reg'' [default_mode None None None None None],
     instr_with ''fence'' [default_mode None None None None None],
     instr_without ''symbol_value'',
     instr_without ''debugtrap'',
     instr_without ''jump'',
     instr_without ''dynamic_stack_store'',
     instr_with ''set_pinned_reg'' [default_mode None None None None None],
     instr_without ''tls_value'',
     instr_without ''dynamic_stack_addr'',
     instr_without ''nop'',
     instr_without ''trap'',
     instr_without ''return'']"

definition x86_instrs_8 :: "instruction list" where
  "x86_instrs_8 = [
     instr_without ''dynamic_stack_load'',
     instr_without ''stack_switch'',
     instr_without ''global_value'',
     instr_without ''vconst'',
     instr_without ''try_call'',
     instr_with ''sequence_point'' [default_mode None None None None None],
     instr_with ''ssub_overflow_bin'' [default_mode (Some [OI16, OI32, OI64]) None None (Some RSame) None],
     instr_with ''uadd_overflow_cin'' [default_mode (Some [OI16, OI32, OI64]) None None (Some RSame) None],
     instr_with ''sadd_overflow_cin'' [default_mode (Some [OI16, OI32, OI64]) None None (Some RSame) None],
     instr_without ''try_call_indirect'',
     instr_without ''get_exception_handler_address'',
     instr_with ''usub_overflow_bin'' [default_mode (Some [OI16, OI32, OI64]) None None (Some RSame) None],
     instr_without ''patchable_call'']"

definition x86_instrs :: "instruction list" where
  "x86_instrs = x86_instrs_1 @ x86_instrs_2 @ x86_instrs_3 @ x86_instrs_4 @ x86_instrs_5 @ x86_instrs_6 @ x86_instrs_7 @ x86_instrs_8"

definition x86_config :: arch_config where
  "x86_config = build_instruction_map \<lparr>cfg_arch = ''x86_64'',
     cfg_operand_types = [OI8, OI16, OI32, OI64, OI128, OF16, OF32, OF64, OI8x16, OI16x8, OI32x4, OI64x2, OF16x8, OF32x4, OF64x2],
     cfg_instructions = x86_instrs, cfg_tests = [''optimize''], cfg_config_sets = config_sets, cfg_target = targets_list, cfg_instruction_map = Map.empty\<rparr>"

subsection \<open>\<open>arch_aarch64.toml\<close>\<close>

definition aarch64_instrs_1 :: "instruction list" where
  "aarch64_instrs_1 = [
     instr_with ''atomic_cas'' [default_mode (Some [OI8, OI16, OI32, OI64]) None None (Some RSame) None],
     instr_with ''atomic_rmw'' [default_mode (Some [OI8, OI16, OI32, OI64]) None None (Some RSame) None],
     instr_with ''swizzle'' [default_mode (Some [OI8x16]) None None (Some RSame) None],
     instr_with ''smin'' [default_mode (Some [OI8, OI16, OI32, OI64, OI8x16, OI16x8, OI32x4, OI64x2]) None None (Some RSame) None],
     instr_with ''umin'' [default_mode (Some [OI8, OI16, OI32, OI64, OI8x16, OI16x8, OI32x4, OI64x2]) None None (Some RSame) None],
     instr_with ''smax'' [default_mode (Some [OI8, OI16, OI32, OI64, OI8x16, OI16x8, OI32x4, OI64x2]) None None (Some RSame) None],
     instr_with ''umax'' [default_mode (Some [OI8, OI16, OI32, OI64, OI8x16, OI16x8, OI32x4, OI64x2]) None None (Some RSame) None],
     instr_with ''avg_round'' [default_mode (Some [OI8x16, OI16x8, OI32x4, OI64x2]) None None (Some RSame) None],
     instr_with ''uadd_sat'' [default_mode (Some [OI8x16, OI16x8, OI32x4, OI64x2]) None None (Some RSame) None],
     instr_with ''sadd_sat'' [default_mode (Some [OI8x16, OI16x8, OI32x4, OI64x2]) None None (Some RSame) None],
     instr_with ''usub_sat'' [default_mode (Some [OI8x16, OI16x8, OI32x4, OI64x2]) None None (Some RSame) None],
     instr_with ''ssub_sat'' [default_mode (Some [OI8x16, OI16x8, OI32x4, OI64x2]) None None (Some RSame) None],
     instr_with ''iadd'' [default_mode (Some [OI8, OI16, OI32, OI64, OI128, OI8x16, OI16x8, OI32x4, OI64x2]) None None (Some RSame) None],
     instr_with ''isub'' [default_mode (Some [OI8, OI16, OI32, OI64, OI128, OI8x16, OI16x8, OI32x4, OI64x2]) None None (Some RSame) None],
     instr_with ''imul'' [default_mode (Some [OI8, OI16, OI32, OI64, OI128, OI8x16, OI16x8, OI32x4, OI64x2]) None None (Some RSame) None],
     instr_with ''umulhi'' [default_mode (Some [OI8, OI16, OI32, OI64]) None None (Some RSame) None],
     instr_with ''smulhi'' [default_mode (Some [OI8, OI16, OI32, OI64]) None None (Some RSame) None],
     instr_with ''sqmul_round_sat'' [default_mode (Some [OI16x8]) None None (Some RSame) None],
     instr_with ''udiv'' [default_mode (Some [OI8, OI16, OI32, OI64]) None None (Some RSame) None],
     instr_with ''sdiv'' [default_mode (Some [OI8, OI16, OI32, OI64]) None None (Some RSame) None],
     instr_with ''urem'' [default_mode (Some [OI8, OI16, OI32, OI64]) None None (Some RSame) None],
     instr_with ''srem'' [default_mode (Some [OI8, OI16, OI32, OI64]) None None (Some RSame) None],
     instr_with ''uadd_overflow'' [default_mode (Some [OI8, OI16, OI32, OI64, OI128]) None None (Some RSame) None],
     instr_with ''sadd_overflow'' [default_mode (Some [OI8, OI16, OI32, OI64, OI128]) None None (Some RSame) None],
     instr_with ''usub_overflow'' [default_mode (Some [OI8, OI16, OI32, OI64, OI128]) None None (Some RSame) None]]"

definition aarch64_instrs_2 :: "instruction list" where
  "aarch64_instrs_2 = [
     instr_with ''ssub_overflow'' [default_mode (Some [OI8, OI16, OI32, OI64, OI128]) None None (Some RSame) None],
     instr_with ''umul_overflow'' [default_mode (Some [OI8, OI16, OI32, OI64]) None None (Some RSame) None],
     instr_with ''smul_overflow'' [default_mode (Some [OI8, OI16, OI32, OI64]) None None (Some RSame) None],
     instr_with ''band'' [default_mode (Some [OI8, OI16, OI32, OI64, OI128, OF32, OF64, OI8x16, OI16x8, OI32x4, OI64x2, OF32x4, OF64x2]) None None (Some RSame) None],
     instr_with ''bor'' [default_mode (Some [OI8, OI16, OI32, OI64, OI128, OF16, OF32, OF64, OI8x16, OI16x8, OI32x4, OI64x2, OF32x4, OF64x2]) None None (Some RSame) None],
     instr_with ''bxor'' [default_mode (Some [OI8, OI16, OI32, OI64, OI128, OF16, OF32, OF64, OI8x16, OI16x8, OI32x4, OI64x2, OF32x4, OF64x2]) None None (Some RSame) None],
     instr_with ''band_not'' [default_mode (Some [OI8, OI16, OI32, OI64, OI128, OF16, OF32, OF64, OI8x16, OI16x8, OI32x4, OI64x2, OF32x4, OF64x2]) None None (Some RSame) None],
     instr_with ''bor_not'' [default_mode (Some [OI8, OI16, OI32, OI64, OI128, OF16, OF32, OF64, OI8x16, OI16x8, OI32x4, OI64x2, OF32x4, OF64x2]) None None (Some RSame) None],
     instr_with ''bxor_not'' [default_mode (Some [OI8, OI16, OI32, OI64, OI128, OF16, OF32, OF64, OI8x16, OI16x8, OI32x4, OI64x2, OF32x4, OF64x2]) None None (Some RSame) None],
     instr_with ''rotl'' [default_mode None (Some [OI8, OI16, OI32, OI64, OI128]) (Some [OI8, OI16, OI32, OI64]) (Some RConditional) None],
     instr_with ''rotr'' [default_mode None (Some [OI8, OI16, OI32, OI64, OI128]) (Some [OI8, OI16, OI32, OI64]) (Some RConditional) None],
     instr_with ''ishl'' [default_mode None (Some [OI8, OI16, OI32, OI64, OI128, OI8x16, OI16x8, OI32x4, OI64x2]) (Some [OI8, OI16, OI32, OI64]) (Some RConditional) None],
     instr_with ''ushr'' [default_mode None (Some [OI8, OI16, OI32, OI64, OI128, OI8x16, OI16x8, OI32x4, OI64x2]) (Some [OI8, OI16, OI32, OI64]) (Some RConditional) None],
     instr_with ''sshr'' [default_mode None (Some [OI8, OI16, OI32, OI64, OI128, OI8x16, OI16x8, OI32x4, OI64x2]) (Some [OI8, OI16, OI32, OI64]) (Some RConditional) None],
     instr_with ''fadd'' [default_mode (Some [OF32, OF64, OF32x4, OF64x2]) None None (Some RSame) None],
     instr_with ''fsub'' [default_mode (Some [OF32, OF64, OF32x4, OF64x2]) None None (Some RSame) None],
     instr_with ''fmul'' [default_mode (Some [OF32, OF64, OF32x4, OF64x2]) None None (Some RSame) None],
     instr_with ''fdiv'' [default_mode (Some [OF32, OF64, OF32x4, OF64x2]) None None (Some RSame) None],
     instr_with ''fcopysign'' [default_mode (Some [OF32, OF64]) None None (Some RSame) None],
     instr_with ''fmin'' [default_mode (Some [OF32, OF64]) None None (Some RSame) None],
     instr_with ''fmax'' [default_mode (Some [OF32, OF64]) None None (Some RSame) None],
     instr_with ''snarrow'' [default_mode (Some [OI16x8, OI32x4]) None None (Some RConditional) None],
     instr_with ''unarrow'' [default_mode (Some [OI16x8, OI32x4]) None None (Some RConditional) None],
     instr_with ''uunarrow'' [default_mode (Some [OI16x8, OI32x4, OI64x2]) None None (Some RConditional) None],
     instr_with ''iadd_pairwise'' [default_mode (Some [OI8x16, OI16x8, OI32x4]) None None (Some RSame) None]]"

definition aarch64_instrs_3 :: "instruction list" where
  "aarch64_instrs_3 = [
     instr_with ''iconcat'' [default_mode (Some [OI64]) None None (Some RConditional) None],
     instr_with ''iadd_imm'' [default_mode (Some [OI8, OI16, OI32, OI64]) None None (Some RSame) None],
     instr_with ''imul_imm'' [default_mode (Some [OI8, OI16, OI32, OI64]) None None (Some RSame) None],
     instr_with ''udiv_imm'' [default_mode (Some [OI8, OI16, OI32, OI64]) None None (Some RSame) None],
     instr_with ''sdiv_imm'' [default_mode (Some [OI8, OI16, OI32, OI64]) None None (Some RSame) None],
     instr_with ''urem_imm'' [default_mode (Some [OI8, OI16, OI32, OI64]) None None (Some RSame) None],
     instr_with ''srem_imm'' [default_mode (Some [OI8, OI16, OI32, OI64]) None None (Some RSame) None],
     instr_with ''irsub_imm'' [default_mode (Some [OI8, OI16, OI32, OI64]) None None (Some RSame) None],
     instr_with ''band_imm'' [default_mode (Some [OI8, OI16, OI32, OI64]) None None (Some RSame) None],
     instr_with ''bor_imm'' [default_mode (Some [OI8, OI16, OI32, OI64]) None None (Some RSame) None],
     instr_with ''bxor_imm'' [default_mode (Some [OI8, OI16, OI32, OI64]) None None (Some RSame) None],
     instr_with ''rotl_imm'' [default_mode (Some [OI8, OI16, OI32, OI64]) None None (Some RSame) None],
     instr_with ''rotr_imm'' [default_mode (Some [OI8, OI16, OI32, OI64]) None None (Some RSame) None],
     instr_with ''ishl_imm'' [default_mode (Some [OI8, OI16, OI32, OI64]) None None (Some RSame) None],
     instr_with ''ushr_imm'' [default_mode (Some [OI8, OI16, OI32, OI64]) None None (Some RSame) None],
     instr_with ''sshr_imm'' [default_mode (Some [OI8, OI16, OI32, OI64]) None None (Some RSame) None],
     instr_with ''extractlane'' [default_mode (Some [OI8x16, OI16x8, OI32x4, OI64x2, OF32x4, OF64x2]) None None (Some RConditional) None],
     instr_without ''extract_vector'',
     instr_with ''fcmp'' [default_mode (Some [OF32, OF64, OF32x4, OF64x2]) None None (Some RConditional) None],
     instr_with ''uadd_overflow_trap'' [default_mode (Some [OI32, OI64]) None None (Some RSame) None],
     instr_with ''icmp'' [default_mode (Some [OI8, OI16, OI32, OI64, OI128, OI16x8, OI32x4, OI64x2]) None None (Some RConditional) None],
     instr_with ''icmp_imm'' [default_mode (Some [OI8, OI16, OI32, OI64]) None None (Some RConditional) None],
     instr_with ''load'' [default_mode (Some [OI8, OI16, OI32, OI64, OI128, OF16, OF32, OF64, OI8x16, OI16x8, OI32x4, OI64x2, OF32x4, OF64x2]) None None None (Some True)],
     instr_with ''uload8'' [default_mode (Some [OI16, OI32, OI64]) None None None (Some True)],
     instr_with ''sload8'' [default_mode (Some [OI16, OI32, OI64]) None None None (Some True)]]"

definition aarch64_instrs_4 :: "instruction list" where
  "aarch64_instrs_4 = [
     instr_with ''uload16'' [default_mode (Some [OI32, OI64]) None None None (Some True)],
     instr_with ''sload16'' [default_mode (Some [OI32, OI64]) None None None (Some True)],
     instr_with ''uload32'' [default_mode (Some [OI64]) None None None (Some True)],
     instr_with ''sload32'' [default_mode (Some [OI64]) None None None (Some True)],
     instr_with ''uload8x8'' [default_mode (Some [OI16x8]) None None None (Some True)],
     instr_with ''sload8x8'' [default_mode (Some [OI16x8]) None None None (Some True)],
     instr_with ''uload16x4'' [default_mode (Some [OI32x4]) None None None (Some True)],
     instr_with ''sload16x4'' [default_mode (Some [OI32x4]) None None None (Some True)],
     instr_with ''uload32x2'' [default_mode (Some [OI64x2]) None None None (Some True)],
     instr_with ''sload32x2'' [default_mode (Some [OI64x2]) None None None (Some True)],
     instr_with ''bitcast'' [default_mode (Some [OI32, OI64, OF32, OF64, OI16x8, OI32x4, OI64x2, OF32x4, OF64x2]) None None (Some RConditional) None],
     instr_with ''shuffle'' [default_mode (Some [OI8x16]) None None (Some RConditional) None],
     instr_with ''stack_load'' [default_mode (Some [OI8, OI16, OI32, OI64, OI128, OI8x16, OI16x8, OI32x4, OI64x2, OF32x4, OF64x2]) None None (Some RConditional) None],
     instr_without ''stack_addr'',
     instr_with ''stack_store'' [default_mode (Some [OI8, OI16, OI32, OI64, OI128, OI8x16, OI16x8, OI32x4, OI64x2, OF32x4, OF64x2]) None None None (Some True)],
     instr_with ''store'' [default_mode (Some [OI8, OI16, OI32, OI64, OI128, OI8x16, OI16x8, OI32x4, OI64x2, OF32x4, OF64x2]) None None None (Some True)],
     instr_with ''istore8'' [default_mode (Some [OI16, OI32, OI64]) None None None (Some True)],
     instr_with ''istore16'' [default_mode (Some [OI32, OI64]) None None None (Some True)],
     instr_with ''istore32'' [default_mode (Some [OI64]) None None None (Some True)],
     instr_with ''atomic_store'' [default_mode (Some [OI8, OI16, OI32, OI64]) None None None (Some True)],
     instr_with ''select'' [default_mode None (Some [OI8, OI16, OI32, OI64]) (Some [OI8, OI16, OI32, OI64, OF32, OF64, OI8x16, OI16x8, OI32x4, OI64x2, OF32x4, OF64x2]) (Some RConditional) None],
     instr_with ''select_spectre_guard'' [default_mode None (Some [OI8, OI16, OI32, OI64]) (Some [OI8, OI16, OI32, OI64, OF32, OF64, OI8x16, OI16x8, OI32x4, OI64x2, OF32x4, OF64x2]) (Some RConditional) None],
     instr_with ''bitselect'' [default_mode (Some [OI8, OI16, OI32, OI64, OI8x16, OI16x8, OI32x4, OI64x2, OF32x4, OF64x2]) None None (Some RSame) None],
     instr_with ''fma'' [default_mode (Some [OF32, OF64, OF32x4, OF64x2]) None None (Some RSame) None]]"

definition aarch64_instrs_5 :: "instruction list" where
  "aarch64_instrs_5 = [
     instr_with ''insertlane'' [default_mode (Some [OI8x16, OI16x8, OI32x4, OI64x2, OF32x4, OF64x2]) None None (Some RConditional) None],
     instr_with ''splat'' [default_mode (Some [OI8x16, OI16x8, OI32x4, OI64x2, OF32x4, OF64x2]) None None (Some RConditional) None],
     instr_with ''vany_true'' [default_mode (Some [OI8x16, OI16x8, OI32x4, OI64x2, OF32x4, OF64x2]) None None (Some RConditional) None],
     instr_with ''vall_true'' [default_mode (Some [OI8x16, OI16x8, OI32x4, OI64x2, OF32x4, OF64x2]) None None (Some RConditional) None],
     instr_with ''vhigh_bits'' [default_mode (Some [OI8x16, OI16x8, OI32x4, OI64x2, OF32x4]) None None (Some RConditional) None],
     instr_with ''ineg'' [default_mode (Some [OI8, OI16, OI32, OI64, OI128, OI8x16, OI16x8, OI32x4, OI64x2]) None None (Some RSame) None],
     instr_with ''iabs'' [default_mode (Some [OI8, OI16, OI32, OI64, OI8x16, OI16x8, OI32x4, OI64x2]) None None (Some RSame) None],
     instr_with ''bnot'' [default_mode (Some [OI8, OI16, OI32, OI64, OI128, OI8x16, OI16x8, OI32x4, OI64x2, OF32x4, OF64x2]) None None (Some RSame) None],
     instr_with ''bitrev'' [default_mode (Some [OI8, OI16, OI32, OI64, OI128]) None None (Some RSame) None],
     instr_with ''clz'' [default_mode (Some [OI8, OI16, OI32, OI64, OI128]) None None (Some RSame) None],
     instr_with ''cls'' [default_mode (Some [OI8, OI16, OI32, OI64, OI128]) None None (Some RSame) None],
     instr_with ''ctz'' [default_mode (Some [OI8, OI16, OI32, OI64, OI128]) None None (Some RSame) None],
     instr_with ''bswap'' [default_mode (Some [OI16, OI32, OI64, OI128]) None None (Some RSame) None],
     instr_with ''popcnt'' [default_mode (Some [OI8, OI16, OI32, OI64, OI128, OI8x16]) None None (Some RSame) None],
     instr_with ''sqrt'' [default_mode (Some [OF32, OF64, OF32x4, OF64x2]) None None (Some RSame) None],
     instr_with ''fneg'' [default_mode (Some [OF32, OF64, OF32x4, OF64x2]) None None (Some RSame) None],
     instr_with ''fabs'' [default_mode (Some [OF32, OF64, OF32x4, OF64x2]) None None (Some RSame) None],
     instr_with ''ceil'' [default_mode (Some [OF32, OF64, OF32x4, OF64x2]) None None (Some RSame) None],
     instr_with ''floor'' [default_mode (Some [OF32, OF64, OF32x4, OF64x2]) None None (Some RSame) None],
     instr_with ''trunc'' [default_mode (Some [OF32, OF64, OF32x4, OF64x2]) None None (Some RSame) None],
     instr_with ''nearest'' [default_mode (Some [OF32, OF64, OF32x4, OF64x2]) None None (Some RSame) None],
     instr_with ''scalar_to_vector'' [default_mode (Some [OI8x16, OI16x8, OI32x4, OI64x2, OF32x4, OF64x2]) None None (Some RConditional) None]]"

definition aarch64_instrs_6 :: "instruction list" where
  "aarch64_instrs_6 = [
     instr_with ''bmask'' [default_mode None (Some [OI8, OI16, OI32, OI64, OI128]) (Some [OI8, OI16, OI32, OI64, OI128]) (Some RConditional) None],
     instr_with ''ireduce'' [default_mode (Some [OI8, OI16, OI32]) None None (Some RConditional) None],
     instr_with ''swiden_low'' [default_mode (Some [OI16x8, OI32x4, OI64x2]) None None (Some RConditional) None],
     instr_with ''swiden_high'' [default_mode (Some [OI16x8, OI32x4, OI64x2]) None None (Some RConditional) None],
     instr_with ''uwiden_low'' [default_mode (Some [OI16x8, OI32x4, OI64x2]) None None (Some RConditional) None],
     instr_with ''uwiden_high'' [default_mode (Some [OI16x8, OI32x4, OI64x2]) None None (Some RConditional) None],
     instr_with ''uextend'' [default_mode (Some [OI16, OI32, OI64, OI128]) None None (Some RConditional) None],
     instr_with ''sextend'' [default_mode (Some [OI16, OI32, OI64, OI128]) None None (Some RConditional) None],
     instr_with ''fpromote'' [default_mode (Some [OF32]) None None (Some RConditional) None],
     instr_with ''fdemote'' [default_mode (Some [OF64]) None None (Some RConditional) None],
     instr_with ''fvdemote'' [default_mode (Some [OF64x2]) None None (Some RConditional) None],
     instr_with ''fvpromote_low'' [default_mode (Some [OF32x4]) None None (Some RConditional) None],
     instr_with ''fcvt_to_uint'' [default_mode (Some [OF32, OF64]) None None (Some RConditional) None],
     instr_with ''fcvt_to_sint'' [default_mode (Some [OF32, OF64]) None None (Some RConditional) None],
     instr_with ''fcvt_to_uint_sat'' [default_mode (Some [OF32, OF64, OF32x4, OF64x2]) None None (Some RConditional) None],
     instr_with ''fcvt_to_sint_sat'' [default_mode (Some [OF32, OF64, OF32x4, OF64x2]) None None (Some RConditional) None],
     instr_with ''fcvt_from_uint'' [default_mode (Some [OI32, OI64, OI32x4, OI64x2]) None None (Some RConditional) None],
     instr_with ''fcvt_from_sint'' [default_mode (Some [OI32, OI64, OI32x4, OI64x2]) None None (Some RConditional) None],
     instr_with ''f16const'' [default_mode None None None None None],
     instr_with ''f32const'' [default_mode None None None None None],
     instr_with ''f64const'' [default_mode None None None None None],
     instr_with ''f128const'' [default_mode None None None None None],
     instr_with ''iconst'' [default_mode None None None None None]]"

definition aarch64_instrs_7 :: "instruction list" where
  "aarch64_instrs_7 = [
     instr_with ''atomic_load'' [default_mode (Some [OI8, OI16, OI32, OI64]) None None None (Some True)],
     instr_without ''x86_pmulhrsw'',
     instr_without ''trapnz'',
     instr_without ''trapz'',
     instr_without ''br_table'',
     instr_without ''brif'',
     instr_without ''call'',
     instr_without ''call_indirect'',
     instr_without ''return_call'',
     instr_without ''return_call_indirect'',
     instr_with ''get_stack_pointer'' [default_mode (Some []) None None None None],
     instr_with ''get_frame_pointer'' [default_mode (Some []) None None None None],
     instr_with ''get_return_address'' [default_mode (Some []) None None None None],
     instr_without ''func_addr'',
     instr_with ''blendv'' [default_mode (Some [OI8x16, OI16x8, OI32x4, OI64x2, OF16x8, OF32x4, OF64x2]) None None (Some RSame) None],
     instr_with ''isplit'' [default_mode (Some [OI16, OI32, OI64, OI128]) None None (Some RConditional) None],
     instr_with ''get_pinned_reg'' [default_mode None None None None None],
     instr_with ''fence'' [default_mode None None None None None],
     instr_without ''symbol_value'',
     instr_without ''debugtrap'',
     instr_without ''jump'',
     instr_without ''dynamic_stack_store'',
     instr_with ''set_pinned_reg'' [default_mode None None None None None],
     instr_without ''tls_value'',
     instr_without ''dynamic_stack_addr'',
     instr_without ''nop'',
     instr_without ''trap'',
     instr_without ''return'',
     instr_without ''dynamic_stack_load'',
     instr_without ''stack_switch'',
     instr_without ''global_value'',
     instr_without ''vconst'',
     instr_without ''x86_pshufb'',
     instr_without ''x86_pmaddubsw'',
     instr_without ''x86_cvtt2dq'']"

definition aarch64_instrs_8 :: "instruction list" where
  "aarch64_instrs_8 = [
     instr_without ''try_call'',
     instr_with ''sequence_point'' [default_mode None None None None None],
     instr_with ''ssub_overflow_bin'' [default_mode (Some [OI16, OI32, OI64]) None None (Some RSame) None],
     instr_with ''uadd_overflow_cin'' [default_mode (Some [OI16, OI32, OI64]) None None (Some RSame) None],
     instr_with ''sadd_overflow_cin'' [default_mode (Some [OI16, OI32, OI64]) None None (Some RSame) None],
     instr_without ''try_call_indirect'',
     instr_without ''get_exception_handler_address'',
     instr_with ''usub_overflow_bin'' [default_mode (Some [OI16, OI32, OI64]) None None (Some RSame) None],
     instr_without ''patchable_call'']"

definition aarch64_instrs :: "instruction list" where
  "aarch64_instrs = aarch64_instrs_1 @ aarch64_instrs_2 @ aarch64_instrs_3 @ aarch64_instrs_4 @ aarch64_instrs_5 @ aarch64_instrs_6 @ aarch64_instrs_7 @ aarch64_instrs_8"

definition aarch64_config :: arch_config where
  "aarch64_config = build_instruction_map \<lparr>cfg_arch = ''aarch64'',
     cfg_operand_types = [OI8, OI16, OI32, OI64, OI128, OF16, OF32, OF64, OI8x16, OI16x8, OI32x4, OI64x2, OF32x4, OF64x2],
     cfg_instructions = aarch64_instrs, cfg_tests = [''optimize''], cfg_config_sets = config_sets, cfg_target = targets_list, cfg_instruction_map = Map.empty\<rparr>"

subsection \<open>\<open>arch_s390x.toml\<close>\<close>

definition s390x_instrs_1 :: "instruction list" where
  "s390x_instrs_1 = [
     instr_with ''atomic_cas'' [default_mode (Some [OI8, OI16, OI32, OI64]) None None (Some RSame) None],
     instr_with ''atomic_rmw'' [default_mode (Some [OI8, OI16, OI32, OI64]) None None (Some RSame) None],
     instr_with ''swizzle'' [default_mode (Some [OI8x16]) None None (Some RSame) None],
     instr_with ''smin'' [default_mode (Some [OI8, OI16, OI32, OI64, OI8x16, OI16x8, OI32x4, OI64x2]) None None (Some RSame) None],
     instr_with ''umin'' [default_mode (Some [OI8, OI16, OI32, OI64, OI8x16, OI16x8, OI32x4, OI64x2]) None None (Some RSame) None],
     instr_with ''smax'' [default_mode (Some [OI8, OI16, OI32, OI64, OI8x16, OI16x8, OI32x4, OI64x2]) None None (Some RSame) None],
     instr_with ''umax'' [default_mode (Some [OI8, OI16, OI32, OI64, OI8x16, OI16x8, OI32x4, OI64x2]) None None (Some RSame) None],
     instr_with ''avg_round'' [default_mode (Some [OI8x16, OI16x8, OI32x4, OI64x2]) None None (Some RSame) None],
     instr_with ''uadd_sat'' [default_mode (Some [OI8x16, OI16x8, OI32x4, OI64x2]) None None (Some RSame) None],
     instr_with ''sadd_sat'' [default_mode (Some [OI8x16, OI16x8, OI32x4, OI64x2]) None None (Some RSame) None],
     instr_with ''usub_sat'' [default_mode (Some [OI8x16, OI16x8, OI32x4, OI64x2]) None None (Some RSame) None],
     instr_with ''ssub_sat'' [default_mode (Some [OI8x16, OI16x8, OI32x4, OI64x2]) None None (Some RSame) None],
     instr_with ''iadd'' [default_mode (Some [OI8, OI16, OI32, OI64, OI128, OI8x16, OI16x8, OI32x4, OI64x2]) None None (Some RSame) None],
     instr_with ''isub'' [default_mode (Some [OI8, OI16, OI32, OI64, OI128, OI8x16, OI16x8, OI32x4, OI64x2]) None None (Some RSame) None],
     instr_with ''imul'' [default_mode (Some [OI8, OI16, OI32, OI64, OI128, OI8x16, OI16x8, OI32x4, OI64x2]) None None (Some RSame) None],
     instr_with ''umulhi'' [default_mode (Some [OI8, OI16, OI32, OI64, OI8x16, OI16x8, OI32x4, OI64x2]) None None (Some RSame) None],
     instr_with ''smulhi'' [default_mode (Some [OI8, OI16, OI32, OI64, OI8x16, OI16x8, OI32x4, OI64x2]) None None (Some RSame) None],
     instr_with ''sqmul_round_sat'' [default_mode (Some [OI16x8]) None None (Some RSame) None],
     instr_with ''udiv'' [default_mode (Some [OI8, OI16, OI32, OI64]) None None (Some RSame) None],
     instr_with ''sdiv'' [default_mode (Some [OI8, OI16, OI32, OI64]) None None (Some RSame) None],
     instr_with ''urem'' [default_mode (Some [OI8, OI16, OI32, OI64]) None None (Some RSame) None],
     instr_with ''srem'' [default_mode (Some [OI8, OI16, OI32, OI64]) None None (Some RSame) None],
     instr_with ''band'' [default_mode (Some [OI8, OI16, OI32, OI64, OI128, OI8x16, OI16x8, OI32x4, OI64x2, OF32x4, OF64x2]) None None (Some RSame) None],
     instr_with ''bor'' [default_mode (Some [OI8, OI16, OI32, OI64, OI128, OI8x16, OI16x8, OI32x4, OI64x2, OF32x4, OF64x2]) None None (Some RSame) None],
     instr_with ''bxor'' [default_mode (Some [OI8, OI16, OI32, OI64, OI128, OI8x16, OI16x8, OI32x4, OI64x2, OF32x4, OF64x2]) None None (Some RSame) None]]"

definition s390x_instrs_2 :: "instruction list" where
  "s390x_instrs_2 = [
     instr_with ''band_not'' [default_mode (Some [OI8, OI16, OI32, OI64, OI128, OI8x16, OI16x8, OI32x4, OI64x2, OF32x4, OF64x2]) None None (Some RSame) None],
     instr_with ''bor_not'' [default_mode (Some [OI8, OI16, OI32, OI64, OI128, OI8x16, OI16x8, OI32x4, OI64x2, OF32x4, OF64x2]) None None (Some RSame) None],
     instr_with ''bxor_not'' [default_mode (Some [OI8, OI16, OI32, OI64, OI128, OI8x16, OI16x8, OI32x4, OI64x2, OF32x4, OF64x2]) None None (Some RSame) None],
     instr_with ''rotl'' [default_mode None (Some [OI8, OI16, OI32, OI64, OI128]) (Some [OI8, OI16, OI32, OI64]) (Some RConditional) None],
     instr_with ''rotr'' [default_mode None (Some [OI8, OI16, OI32, OI64, OI128]) (Some [OI8, OI16, OI32, OI64]) (Some RConditional) None],
     instr_with ''ishl'' [default_mode None (Some [OI8, OI16, OI32, OI64, OI128, OI8x16, OI16x8, OI32x4, OI64x2]) (Some [OI8, OI16, OI32, OI64]) (Some RConditional) None],
     instr_with ''ushr'' [default_mode None (Some [OI8, OI16, OI32, OI64, OI128, OI8x16, OI16x8, OI32x4, OI64x2]) (Some [OI8, OI16, OI32, OI64]) (Some RConditional) None],
     instr_with ''sshr'' [default_mode None (Some [OI8, OI16, OI32, OI64, OI128, OI8x16, OI16x8, OI32x4, OI64x2]) (Some [OI8, OI16, OI32, OI64]) (Some RConditional) None],
     instr_with ''fadd'' [default_mode (Some [OF32, OF64, OF32x4, OF64x2]) None None (Some RSame) None],
     instr_with ''fsub'' [default_mode (Some [OF32, OF64, OF32x4, OF64x2]) None None (Some RSame) None],
     instr_with ''fmul'' [default_mode (Some [OF32, OF64, OF32x4, OF64x2]) None None (Some RSame) None],
     instr_with ''fdiv'' [default_mode (Some [OF32, OF64, OF32x4, OF64x2]) None None (Some RSame) None],
     instr_with ''fcopysign'' [default_mode (Some [OF32, OF64]) None None (Some RSame) None],
     instr_with ''fmin'' [default_mode (Some [OF32, OF64]) None None (Some RSame) None],
     instr_with ''fmax'' [default_mode (Some [OF32, OF64]) None None (Some RSame) None],
     instr_with ''snarrow'' [default_mode (Some [OI16x8, OI32x4]) None None (Some RConditional) None],
     instr_with ''unarrow'' [default_mode (Some [OI16x8, OI32x4]) None None (Some RConditional) None],
     instr_with ''uunarrow'' [default_mode (Some [OI16x8, OI32x4, OI64x2]) None None (Some RConditional) None],
     instr_with ''iadd_pairwise'' [default_mode (Some [OI8x16, OI16x8, OI32x4]) None None (Some RSame) None],
     instr_with ''iconcat'' [default_mode (Some [OI64]) None None (Some RConditional) None],
     instr_with ''iadd_imm'' [default_mode (Some [OI8, OI16, OI32, OI64]) None None (Some RSame) None],
     instr_with ''imul_imm'' [default_mode (Some [OI8, OI16, OI32, OI64]) None None (Some RSame) None],
     instr_with ''udiv_imm'' [default_mode (Some [OI8, OI16, OI32, OI64]) None None (Some RSame) None],
     instr_with ''sdiv_imm'' [default_mode (Some [OI8, OI16, OI32, OI64]) None None (Some RSame) None],
     instr_with ''urem_imm'' [default_mode (Some [OI8, OI16, OI32, OI64]) None None (Some RSame) None]]"

definition s390x_instrs_3 :: "instruction list" where
  "s390x_instrs_3 = [
     instr_with ''srem_imm'' [default_mode (Some [OI8, OI16, OI32, OI64]) None None (Some RSame) None],
     instr_with ''irsub_imm'' [default_mode (Some [OI8, OI16, OI32, OI64]) None None (Some RSame) None],
     instr_with ''band_imm'' [default_mode (Some [OI8, OI16, OI32, OI64]) None None (Some RSame) None],
     instr_with ''bor_imm'' [default_mode (Some [OI8, OI16, OI32, OI64]) None None (Some RSame) None],
     instr_with ''bxor_imm'' [default_mode (Some [OI8, OI16, OI32, OI64]) None None (Some RSame) None],
     instr_with ''rotl_imm'' [default_mode (Some [OI8, OI16, OI32, OI64]) None None (Some RSame) None],
     instr_with ''rotr_imm'' [default_mode (Some [OI8, OI16, OI32, OI64]) None None (Some RSame) None],
     instr_with ''ishl_imm'' [default_mode (Some [OI8, OI16, OI32, OI64]) None None (Some RSame) None],
     instr_with ''ushr_imm'' [default_mode (Some [OI8, OI16, OI32, OI64]) None None (Some RSame) None],
     instr_with ''sshr_imm'' [default_mode (Some [OI8, OI16, OI32, OI64]) None None (Some RSame) None],
     instr_with ''extractlane'' [default_mode (Some [OI8x16, OI16x8, OI32x4, OI64x2, OF32x4, OF64x2]) None None (Some RConditional) None],
     instr_without ''extract_vector'',
     instr_with ''fcmp'' [default_mode (Some [OF32, OF64, OF32x4, OF64x2]) None None (Some RConditional) None],
     instr_with ''uadd_overflow_trap'' [default_mode (Some [OI32, OI64]) None None (Some RSame) None],
     instr_with ''icmp'' [default_mode (Some [OI8, OI16, OI32, OI64, OI128, OI8x16, OI16x8, OI32x4, OI64x2]) None None (Some RConditional) None],
     instr_with ''icmp_imm'' [default_mode (Some [OI8, OI16, OI32, OI64]) None None (Some RConditional) None],
     instr_with ''load'' [default_mode (Some [OI8, OI16, OI32, OI64, OI128, OF32, OF64, OI8x16, OI16x8, OI32x4, OI64x2, OF32x4, OF64x2]) None None None (Some True)],
     instr_with ''uload8'' [default_mode (Some [OI16, OI32, OI64]) None None None (Some True)],
     instr_with ''sload8'' [default_mode (Some [OI16, OI32, OI64]) None None None (Some True)],
     instr_with ''uload16'' [default_mode (Some [OI32, OI64]) None None None (Some True)],
     instr_with ''sload16'' [default_mode (Some [OI32, OI64]) None None None (Some True)],
     instr_with ''uload32'' [default_mode (Some [OI64]) None None None (Some True)],
     instr_with ''sload32'' [default_mode (Some [OI64]) None None None (Some True)],
     instr_with ''uload8x8'' [default_mode (Some [OI16x8]) None None None (Some True)],
     instr_with ''sload8x8'' [default_mode (Some [OI16x8]) None None None (Some True)]]"

definition s390x_instrs_4 :: "instruction list" where
  "s390x_instrs_4 = [
     instr_with ''uload16x4'' [default_mode (Some [OI32x4]) None None None (Some True)],
     instr_with ''sload16x4'' [default_mode (Some [OI32x4]) None None None (Some True)],
     instr_with ''uload32x2'' [default_mode (Some [OI64x2]) None None None (Some True)],
     instr_with ''sload32x2'' [default_mode (Some [OI64x2]) None None None (Some True)],
     instr_with ''bitcast'' [default_mode (Some [OI32, OI64, OF32, OF64, OI128, OI16x8, OI32x4, OI64x2, OF32x4, OF64x2]) None None (Some RConditional) None],
     instr_with ''shuffle'' [default_mode (Some [OI8x16]) None None (Some RConditional) None],
     instr_with ''stack_load'' [default_mode (Some [OI8, OI16, OI32, OI64, OI128, OI8x16, OI16x8, OI32x4, OI64x2, OF32x4, OF64x2]) None None (Some RSame) (Some True)],
     instr_without ''stack_addr'',
     instr_with ''stack_store'' [default_mode (Some [OI8, OI16, OI32, OI64, OI128, OI8x16, OI16x8, OI32x4, OI64x2, OF32x4, OF64x2]) None None None (Some True)],
     instr_with ''store'' [default_mode (Some [OI8, OI16, OI32, OI64, OI128, OI8x16, OI16x8, OI32x4, OI64x2, OF32x4, OF64x2]) None None None (Some True)],
     instr_with ''istore8'' [default_mode (Some [OI16, OI32, OI64]) None None None (Some True)],
     instr_with ''istore16'' [default_mode (Some [OI32, OI64]) None None None (Some True)],
     instr_with ''istore32'' [default_mode (Some [OI64]) None None None (Some True)],
     instr_with ''atomic_store'' [default_mode (Some [OI8, OI16, OI32, OI64]) None None None (Some True)],
     instr_with ''select'' [default_mode None (Some [OI8, OI16, OI32, OI64]) (Some [OI8, OI16, OI32, OI64, OF32, OF64, OI8x16, OI16x8, OI32x4, OI64x2, OF32x4, OF64x2]) (Some RConditional) None],
     instr_with ''select_spectre_guard'' [default_mode None (Some [OI8, OI16, OI32, OI64]) (Some [OI8, OI16, OI32, OI64, OF32, OF64, OI8x16, OI16x8, OI32x4, OI64x2, OF32x4, OF64x2]) (Some RConditional) None],
     instr_with ''bitselect'' [default_mode (Some [OI8, OI16, OI32, OI64, OF32, OF64, OI8x16, OI16x8, OI32x4, OI64x2, OF32x4, OF64x2]) None None (Some RSame) None],
     instr_with ''fma'' [default_mode (Some [OF32, OF64, OF32x4, OF64x2]) None None (Some RSame) None],
     instr_with ''insertlane'' [default_mode (Some [OI8x16, OI16x8, OI32x4, OI64x2, OF32x4, OF64x2]) None None (Some RConditional) None],
     instr_with ''splat'' [default_mode (Some [OI8x16, OI16x8, OI32x4, OI64x2, OF32x4, OF64x2]) None None (Some RConditional) None],
     instr_with ''vany_true'' [default_mode (Some [OI8x16, OI16x8, OI32x4, OI64x2, OF32x4, OF64x2]) None None (Some RConditional) None],
     instr_with ''vall_true'' [default_mode (Some [OI8x16, OI16x8, OI32x4, OI64x2, OF32x4, OF64x2]) None None (Some RConditional) None],
     instr_with ''vhigh_bits'' [default_mode (Some [OI8x16, OI16x8, OI32x4, OI64x2]) None None (Some RConditional) None]]"

definition s390x_instrs_5 :: "instruction list" where
  "s390x_instrs_5 = [
     instr_with ''ineg'' [default_mode (Some [OI8, OI16, OI32, OI64, OI128, OI8x16, OI16x8, OI32x4, OI64x2]) None None (Some RSame) None],
     instr_with ''iabs'' [default_mode (Some [OI8, OI16, OI32, OI64, OI8x16, OI16x8, OI32x4, OI64x2]) None None (Some RSame) None],
     instr_with ''bnot'' [default_mode (Some [OI8, OI16, OI32, OI64, OI128, OI8x16, OI16x8, OI32x4, OI64x2, OF32x4, OF64x2]) None None (Some RSame) None],
     instr_with ''bitrev'' [default_mode (Some [OI8, OI16, OI32, OI64, OI128]) None None (Some RSame) None],
     instr_with ''clz'' [default_mode (Some [OI8, OI16, OI32, OI64, OI128]) None None (Some RSame) None],
     instr_with ''cls'' [default_mode (Some [OI8, OI16, OI32, OI64, OI128]) None None (Some RSame) None],
     instr_with ''ctz'' [default_mode (Some [OI8, OI16, OI32, OI64, OI128]) None None (Some RSame) None],
     instr_with ''bswap'' [default_mode (Some [OI16, OI32, OI64, OI128]) None None (Some RSame) None],
     instr_with ''popcnt'' [default_mode (Some [OI8, OI16, OI32, OI64, OI128, OI8x16]) None None (Some RSame) None],
     instr_with ''sqrt'' [default_mode (Some [OF32, OF64, OF32x4, OF64x2]) None None (Some RSame) None],
     instr_with ''fneg'' [default_mode (Some [OF32, OF64, OF32x4, OF64x2]) None None (Some RSame) None],
     instr_with ''fabs'' [default_mode (Some [OF32, OF64, OF32x4, OF64x2]) None None (Some RSame) None],
     instr_with ''ceil'' [default_mode (Some [OF32, OF64, OF32x4, OF64x2]) None None (Some RSame) None],
     instr_with ''floor'' [default_mode (Some [OF32, OF64, OF32x4, OF64x2]) None None (Some RSame) None],
     instr_with ''trunc'' [default_mode (Some [OF32, OF64, OF32x4, OF64x2]) None None (Some RSame) None],
     instr_with ''nearest'' [default_mode (Some [OF32, OF64, OF32x4, OF64x2]) None None (Some RSame) None],
     instr_with ''scalar_to_vector'' [default_mode (Some [OI8x16, OI16x8, OI32x4, OI64x2, OF32x4, OF64x2]) None None (Some RConditional) None],
     instr_with ''bmask'' [default_mode None (Some [OI8, OI16, OI32, OI64, OI128]) (Some [OI8, OI16, OI32, OI64, OI128]) (Some RConditional) None],
     instr_with ''ireduce'' [default_mode (Some [OI8, OI16, OI32]) None None (Some RConditional) None],
     instr_with ''swiden_low'' [default_mode (Some [OI16x8, OI32x4, OI64x2]) None None (Some RConditional) None],
     instr_with ''swiden_high'' [default_mode (Some [OI16x8, OI32x4, OI64x2]) None None (Some RConditional) None],
     instr_with ''uwiden_low'' [default_mode (Some [OI16x8, OI32x4, OI64x2]) None None (Some RConditional) None]]"

definition s390x_instrs_6 :: "instruction list" where
  "s390x_instrs_6 = [
     instr_with ''uwiden_high'' [default_mode (Some [OI16x8, OI32x4, OI64x2]) None None (Some RConditional) None],
     instr_with ''uextend'' [default_mode (Some [OI16, OI32, OI64, OI128]) None None (Some RConditional) None],
     instr_with ''sextend'' [default_mode (Some [OI16, OI32, OI64, OI128]) None None (Some RConditional) None],
     instr_with ''fpromote'' [default_mode (Some [OF32]) None None (Some RConditional) None],
     instr_with ''fdemote'' [default_mode (Some [OF64]) None None (Some RConditional) None],
     instr_with ''fvdemote'' [default_mode (Some [OF64x2]) None None (Some RConditional) None],
     instr_with ''fvpromote_low'' [default_mode (Some [OF32x4]) None None (Some RConditional) None],
     instr_with ''fcvt_to_uint'' [default_mode (Some [OF32, OF64]) None None (Some RConditional) None],
     instr_with ''fcvt_to_sint'' [default_mode (Some [OF32, OF64]) None None (Some RConditional) None],
     instr_with ''fcvt_to_uint_sat'' [default_mode (Some [OF32, OF64, OF32x4, OF64x2]) None None (Some RConditional) None],
     instr_with ''fcvt_to_sint_sat'' [default_mode (Some [OF32, OF64, OF32x4, OF64x2]) None None (Some RConditional) None],
     instr_with ''fcvt_from_uint'' [default_mode (Some [OI32, OI64, OI32x4, OI64x2]) None None (Some RConditional) None],
     instr_with ''fcvt_from_sint'' [default_mode (Some [OI32, OI64, OI32x4, OI64x2]) None None (Some RConditional) None],
     instr_without ''ssub_overflow'',
     instr_without ''sadd_overflow'',
     instr_without ''smul_overflow'',
     instr_without ''uadd_overflow'',
     instr_without ''usub_overflow'',
     instr_without ''umul_overflow'',
     instr_with ''f16const'' [default_mode None None None None None],
     instr_with ''f32const'' [default_mode None None None None None],
     instr_with ''f64const'' [default_mode None None None None None],
     instr_with ''f128const'' [default_mode None None None None None],
     instr_with ''iconst'' [default_mode None None None None None],
     instr_with ''atomic_load'' [default_mode (Some [OI8, OI16, OI32, OI64]) None None None (Some True)],
     instr_without ''x86_pmulhrsw'']"

definition s390x_instrs_7 :: "instruction list" where
  "s390x_instrs_7 = [
     instr_without ''trapnz'',
     instr_without ''trapz'',
     instr_without ''br_table'',
     instr_without ''brif'',
     instr_without ''call'',
     instr_without ''call_indirect'',
     instr_without ''return_call'',
     instr_without ''return_call_indirect'',
     instr_with ''get_stack_pointer'' [default_mode (Some []) None None None None],
     instr_with ''get_frame_pointer'' [default_mode (Some []) None None None None],
     instr_with ''get_return_address'' [default_mode (Some []) None None None None],
     instr_without ''func_addr'',
     instr_with ''blendv'' [default_mode (Some [OI8x16, OI16x8, OI32x4, OI64x2, OF16x8, OF32x4, OF64x2]) None None (Some RSame) None],
     instr_with ''isplit'' [default_mode (Some [OI16, OI32, OI64, OI128]) None None (Some RConditional) None],
     instr_with ''get_pinned_reg'' [default_mode None None None None None],
     instr_with ''fence'' [default_mode None None None None None],
     instr_without ''symbol_value'',
     instr_without ''debugtrap'',
     instr_without ''jump'',
     instr_without ''dynamic_stack_store'',
     instr_with ''set_pinned_reg'' [default_mode None None None None None],
     instr_without ''tls_value'',
     instr_without ''dynamic_stack_addr'',
     instr_without ''nop'',
     instr_without ''trap'',
     instr_without ''return'',
     instr_without ''dynamic_stack_load'',
     instr_without ''stack_switch'',
     instr_without ''global_value'',
     instr_without ''vconst'',
     instr_without ''x86_pshufb'',
     instr_without ''x86_pmaddubsw'',
     instr_without ''x86_cvtt2dq'',
     instr_without ''try_call'',
     instr_with ''sequence_point'' [default_mode None None None None None]]"

definition s390x_instrs_8 :: "instruction list" where
  "s390x_instrs_8 = [
     instr_with ''ssub_overflow_bin'' [default_mode (Some [OI16, OI32, OI64]) None None (Some RSame) None],
     instr_with ''uadd_overflow_cin'' [default_mode (Some [OI16, OI32, OI64]) None None (Some RSame) None],
     instr_with ''sadd_overflow_cin'' [default_mode (Some [OI16, OI32, OI64]) None None (Some RSame) None],
     instr_without ''try_call_indirect'',
     instr_without ''get_exception_handler_address'',
     instr_with ''usub_overflow_bin'' [default_mode (Some [OI16, OI32, OI64]) None None (Some RSame) None],
     instr_without ''patchable_call'']"

definition s390x_instrs :: "instruction list" where
  "s390x_instrs = s390x_instrs_1 @ s390x_instrs_2 @ s390x_instrs_3 @ s390x_instrs_4 @ s390x_instrs_5 @ s390x_instrs_6 @ s390x_instrs_7 @ s390x_instrs_8"

definition s390x_config :: arch_config where
  "s390x_config = build_instruction_map \<lparr>cfg_arch = ''s390x'',
     cfg_operand_types = [OI8, OI16, OI32, OI64, OI128, OF32, OF64, OI8x16, OI16x8, OI32x4, OI64x2, OF32x4, OF64x2],
     cfg_instructions = s390x_instrs, cfg_tests = [''optimize''], cfg_config_sets = config_sets, cfg_target = targets_list, cfg_instruction_map = Map.empty\<rparr>"

subsection \<open>\<open>arch_riscv64.toml\<close>\<close>

definition riscv64_instrs_1 :: "instruction list" where
  "riscv64_instrs_1 = [
     instr_with ''atomic_cas'' [default_mode (Some [OI8, OI16, OI32, OI64]) None None (Some RSame) None],
     instr_with ''atomic_rmw'' [default_mode (Some [OI8, OI16, OI32, OI64]) None None (Some RSame) None],
     instr_with ''swizzle'' [default_mode (Some [OI8x16]) None None (Some RSame) None],
     instr_with ''smin'' [default_mode (Some [OI8, OI16, OI32, OI64, OI8x16, OI16x8, OI32x4, OI64x2]) None None (Some RSame) None],
     instr_with ''umin'' [default_mode (Some [OI8, OI16, OI32, OI64, OI8x16, OI16x8, OI32x4, OI64x2]) None None (Some RSame) None],
     instr_with ''smax'' [default_mode (Some [OI8, OI16, OI32, OI64, OI8x16, OI16x8, OI32x4, OI64x2]) None None (Some RSame) None],
     instr_with ''umax'' [default_mode (Some [OI8, OI16, OI32, OI64, OI8x16, OI16x8, OI32x4, OI64x2]) None None (Some RSame) None],
     instr_with ''avg_round'' [default_mode (Some [OI8x16, OI16x8, OI32x4, OI64x2]) None None (Some RSame) None],
     instr_with ''uadd_sat'' [default_mode (Some [OI8x16, OI16x8, OI32x4, OI64x2]) None None (Some RSame) None],
     instr_with ''sadd_sat'' [default_mode (Some [OI8x16, OI16x8, OI32x4, OI64x2]) None None (Some RSame) None],
     instr_with ''usub_sat'' [default_mode (Some [OI8x16, OI16x8, OI32x4, OI64x2]) None None (Some RSame) None],
     instr_with ''ssub_sat'' [default_mode (Some [OI8x16, OI16x8, OI32x4, OI64x2]) None None (Some RSame) None],
     instr_with ''iadd'' [default_mode (Some [OI8, OI16, OI32, OI64, OI128, OI8x16, OI16x8, OI32x4, OI64x2]) None None (Some RSame) None],
     instr_with ''isub'' [default_mode (Some [OI8, OI16, OI32, OI64, OI128, OI8x16, OI16x8, OI32x4, OI64x2]) None None (Some RSame) None],
     instr_with ''imul'' [default_mode (Some [OI8, OI16, OI32, OI64, OI128, OI8x16, OI16x8, OI32x4, OI64x2]) None None (Some RSame) None],
     instr_with ''umulhi'' [default_mode (Some [OI8, OI16, OI32, OI64]) None None (Some RSame) None],
     instr_with ''smulhi'' [default_mode (Some [OI8, OI16, OI32, OI64]) None None (Some RSame) None],
     instr_with ''sqmul_round_sat'' [default_mode (Some [OI16x8]) None None (Some RSame) None],
     instr_with ''udiv'' [default_mode (Some [OI8, OI16, OI32, OI64]) None None (Some RSame) None],
     instr_with ''sdiv'' [default_mode (Some [OI8, OI16, OI32, OI64]) None None (Some RSame) None],
     instr_with ''urem'' [default_mode (Some [OI8, OI16, OI32, OI64]) None None (Some RSame) None],
     instr_with ''srem'' [default_mode (Some [OI8, OI16, OI32, OI64]) None None (Some RSame) None],
     instr_with ''band'' [default_mode (Some [OI8, OI16, OI32, OI64, OI128, OF16, OF32, OF64, OI8x16, OI16x8, OI32x4, OI64x2, OF32x4]) None None (Some RSame) None],
     instr_with ''bor'' [default_mode (Some [OI8, OI16, OI32, OI64, OI128, OF16, OF32, OF64, OI8x16, OI16x8, OI32x4, OI64x2, OF32x4, OF64x2]) None None (Some RSame) None],
     instr_with ''bxor'' [default_mode (Some [OI8, OI16, OI32, OI64, OI128, OF16, OF32, OF64, OI8x16, OI16x8, OI32x4, OI64x2, OF32x4]) None None (Some RSame) None]]"

definition riscv64_instrs_2 :: "instruction list" where
  "riscv64_instrs_2 = [
     instr_with ''band_not'' [default_mode (Some [OI8, OI16, OI32, OI64, OI128, OF16, OF32, OF64, OI8x16, OI16x8, OI32x4, OI64x2, OF32x4]) None None (Some RSame) None],
     instr_with ''bor_not'' [default_mode (Some [OI8, OI16, OI32, OI64, OI128, OF16, OF32, OF64, OI8x16, OI16x8, OI32x4, OI64x2, OF32x4]) None None (Some RSame) None],
     instr_with ''bxor_not'' [default_mode (Some [OI8, OI16, OI32, OI64, OI128, OF16, OF32, OF64, OI8x16, OI16x8, OI32x4, OI64x2, OF32x4]) None None (Some RSame) None],
     instr_with ''rotl'' [default_mode None (Some [OI8, OI16, OI32, OI64, OI128]) (Some [OI8, OI16, OI32, OI64]) (Some RConditional) None],
     instr_with ''rotr'' [default_mode None (Some [OI8, OI16, OI32, OI64, OI128]) (Some [OI8, OI16, OI32, OI64]) (Some RConditional) None],
     instr_with ''ishl'' [default_mode None (Some [OI8, OI16, OI32, OI64, OI128, OI8x16, OI16x8, OI32x4, OI64x2]) (Some [OI8, OI16, OI32, OI64]) (Some RConditional) None],
     instr_with ''ushr'' [default_mode None (Some [OI8, OI16, OI32, OI64, OI128, OI8x16, OI16x8, OI32x4, OI64x2]) (Some [OI8, OI16, OI32, OI64]) (Some RConditional) None],
     instr_with ''sshr'' [default_mode None (Some [OI8, OI16, OI32, OI64, OI128, OI8x16, OI16x8, OI32x4, OI64x2]) (Some [OI8, OI16, OI32, OI64]) (Some RConditional) None],
     instr_with ''fadd'' [default_mode (Some [OF32, OF64, OF32x4, OF64x2]) None None (Some RSame) None],
     instr_with ''fsub'' [default_mode (Some [OF32, OF64, OF32x4, OF64x2]) None None (Some RSame) None],
     instr_with ''fmul'' [default_mode (Some [OF32, OF64, OF32x4, OF64x2]) None None (Some RSame) None],
     instr_with ''fdiv'' [default_mode (Some [OF32, OF64, OF32x4, OF64x2]) None None (Some RSame) None],
     instr_with ''fcopysign'' [default_mode (Some [OF32, OF64]) None None (Some RSame) None],
     instr_with ''fmin'' [default_mode (Some [OF32, OF64]) None None (Some RSame) None],
     instr_with ''fmax'' [default_mode (Some [OF32, OF64]) None None (Some RSame) None],
     instr_with ''snarrow'' [default_mode (Some [OI16x8, OI32x4]) None None (Some RConditional) None],
     instr_with ''unarrow'' [default_mode (Some [OI16x8, OI32x4]) None None (Some RConditional) None],
     instr_with ''uunarrow'' [default_mode (Some [OI16x8, OI32x4, OI64x2]) None None (Some RConditional) None],
     instr_with ''iadd_pairwise'' [default_mode (Some [OI8x16, OI16x8, OI32x4]) None None (Some RSame) None],
     instr_with ''iconcat'' [default_mode (Some [OI64]) None None (Some RConditional) None],
     instr_with ''iadd_imm'' [default_mode (Some [OI8, OI16, OI32, OI64]) None None (Some RSame) None],
     instr_with ''imul_imm'' [default_mode (Some [OI8, OI16, OI32, OI64]) None None (Some RSame) None],
     instr_with ''udiv_imm'' [default_mode (Some [OI8, OI16, OI32, OI64]) None None (Some RSame) None],
     instr_with ''sdiv_imm'' [default_mode (Some [OI8, OI16, OI32, OI64]) None None (Some RSame) None],
     instr_with ''urem_imm'' [default_mode (Some [OI8, OI16, OI32, OI64]) None None (Some RSame) None]]"

definition riscv64_instrs_3 :: "instruction list" where
  "riscv64_instrs_3 = [
     instr_with ''srem_imm'' [default_mode (Some [OI8, OI16, OI32, OI64]) None None (Some RSame) None],
     instr_with ''irsub_imm'' [default_mode (Some [OI8, OI16, OI32, OI64]) None None (Some RSame) None],
     instr_with ''band_imm'' [default_mode (Some [OI8, OI16, OI32, OI64]) None None (Some RSame) None],
     instr_with ''bor_imm'' [default_mode (Some [OI8, OI16, OI32, OI64]) None None (Some RSame) None],
     instr_with ''bxor_imm'' [default_mode (Some [OI8, OI16, OI32, OI64]) None None (Some RSame) None],
     instr_with ''rotl_imm'' [default_mode (Some [OI8, OI16, OI32, OI64]) None None (Some RSame) None],
     instr_with ''rotr_imm'' [default_mode (Some [OI8, OI16, OI32, OI64]) None None (Some RSame) None],
     instr_with ''ishl_imm'' [default_mode (Some [OI8, OI16, OI32, OI64]) None None (Some RSame) None],
     instr_with ''ushr_imm'' [default_mode (Some [OI8, OI16, OI32, OI64]) None None (Some RSame) None],
     instr_with ''sshr_imm'' [default_mode (Some [OI8, OI16, OI32, OI64]) None None (Some RSame) None],
     instr_with ''extractlane'' [default_mode (Some [OI8x16, OI16x8, OI32x4, OI64x2, OF32x4, OF64x2]) None None (Some RConditional) None],
     instr_without ''extract_vector'',
     instr_with ''fcmp'' [default_mode (Some [OF32, OF64, OF32x4, OF64x2]) None None (Some RConditional) None],
     instr_with ''uadd_overflow_trap'' [default_mode (Some [OI32, OI64]) None None (Some RSame) None],
     instr_with ''icmp'' [default_mode (Some [OI8, OI16, OI32, OI64, OI128, OI16x8, OI32x4, OI64x2]) None None (Some RConditional) None],
     instr_with ''icmp_imm'' [default_mode (Some [OI8, OI16, OI32, OI64]) None None (Some RConditional) None],
     instr_with ''load'' [default_mode (Some [OI8, OI16, OI32, OI64, OI128, OF16, OF32, OF64, OI8x16, OI16x8, OI32x4, OI64x2]) None None None (Some True)],
     instr_with ''uload8'' [default_mode (Some [OI16, OI32, OI64]) None None None (Some True)],
     instr_with ''sload8'' [default_mode (Some [OI16, OI32, OI64]) None None None (Some True)],
     instr_with ''uload16'' [default_mode (Some [OI32, OI64]) None None None (Some True)],
     instr_with ''sload16'' [default_mode (Some [OI32, OI64]) None None None (Some True)],
     instr_with ''uload32'' [default_mode (Some [OI64]) None None None (Some True)],
     instr_with ''sload32'' [default_mode (Some [OI64]) None None None (Some True)],
     instr_with ''uload8x8'' [default_mode (Some [OI16x8]) None None None (Some True)],
     instr_with ''sload8x8'' [default_mode (Some [OI16x8]) None None None (Some True)]]"

definition riscv64_instrs_4 :: "instruction list" where
  "riscv64_instrs_4 = [
     instr_with ''uload16x4'' [default_mode (Some [OI32x4]) None None None (Some True)],
     instr_with ''sload16x4'' [default_mode (Some [OI32x4]) None None None (Some True)],
     instr_with ''uload32x2'' [default_mode (Some [OI64x2]) None None None (Some True)],
     instr_with ''sload32x2'' [default_mode (Some [OI64x2]) None None None (Some True)],
     instr_with ''bitcast'' [default_mode (Some [OI32, OI64, OF32, OF64, OI16x8, OI32x4, OI64x2, OF32x4, OF64x2]) None None (Some RConditional) None],
     instr_with ''shuffle'' [default_mode (Some [OI8x16]) None None (Some RConditional) None],
     instr_with ''stack_load'' [default_mode (Some [OI8, OI16, OI32, OI64, OI128, OI8x16, OI16x8, OI32x4, OI64x2, OF32x4, OF64x2]) None None (Some RSame) (Some True)],
     instr_without ''stack_addr'',
     instr_with ''stack_store'' [default_mode (Some [OI8, OI16, OI32, OI64, OI128, OI8x16, OI16x8, OI32x4, OI64x2, OF32x4, OF64x2]) None None None (Some True)],
     instr_with ''store'' [default_mode (Some [OI8, OI16, OI32, OI64, OI128, OI8x16, OI16x8, OI32x4, OI64x2, OF32x4, OF64x2]) None None None (Some True)],
     instr_with ''istore8'' [default_mode (Some [OI16, OI32, OI64]) None None None (Some True)],
     instr_with ''istore16'' [default_mode (Some [OI32, OI64]) None None None (Some True)],
     instr_with ''istore32'' [default_mode (Some [OI64]) None None None (Some True)],
     instr_with ''atomic_store'' [default_mode (Some [OI8, OI16, OI32, OI64]) None None None (Some True)],
     instr_with ''select'' [default_mode None (Some [OI8, OI16, OI32, OI64]) (Some [OI8, OI16, OI32, OI64, OF32, OF64, OI8x16, OI16x8, OI32x4, OI64x2, OF32x4, OF64x2]) (Some RConditional) None],
     instr_with ''select_spectre_guard'' [default_mode None (Some [OI8, OI16, OI32, OI64]) (Some [OI8, OI16, OI32, OI64, OF32, OF64, OI8x16, OI16x8, OI32x4, OI64x2, OF32x4, OF64x2]) (Some RConditional) None],
     instr_with ''bitselect'' [default_mode (Some [OI8, OI16, OI32, OI64, OF32, OF64, OI8x16, OI16x8, OI32x4, OI64x2, OF32x4, OF64x2]) None None (Some RSame) None],
     instr_with ''fma'' [default_mode (Some [OF32, OF64, OF32x4, OF64x2]) None None (Some RSame) None],
     instr_with ''insertlane'' [default_mode (Some [OI8x16, OI16x8, OI32x4, OI64x2, OF32x4, OF64x2]) None None (Some RConditional) None],
     instr_with ''splat'' [default_mode (Some [OI8x16, OI16x8, OI32x4, OI64x2, OF32x4, OF64x2]) None None (Some RConditional) None],
     instr_with ''vany_true'' [default_mode (Some [OI8x16, OI16x8, OI32x4, OI64x2, OF32x4]) None None (Some RConditional) None],
     instr_with ''vall_true'' [default_mode (Some [OI8x16, OI16x8, OI32x4, OI64x2, OF32x4]) None None (Some RConditional) None],
     instr_with ''vhigh_bits'' [default_mode (Some [OI8x16, OI16x8, OI32x4, OI64x2]) None None (Some RConditional) None]]"

definition riscv64_instrs_5 :: "instruction list" where
  "riscv64_instrs_5 = [
     instr_with ''ineg'' [default_mode (Some [OI8, OI16, OI32, OI64, OI128, OI8x16, OI16x8, OI32x4, OI64x2]) None None (Some RSame) None],
     instr_with ''iabs'' [default_mode (Some [OI8, OI16, OI32, OI64, OI8x16, OI16x8, OI32x4, OI64x2]) None None (Some RSame) None],
     instr_with ''bnot'' [default_mode (Some [OI8, OI16, OI32, OI64, OI128, OI8x16, OI16x8, OI32x4, OI64x2, OF32x4, OF64x2]) None None (Some RSame) None],
     instr_with ''bitrev'' [default_mode (Some [OI8, OI16, OI32, OI64, OI128]) None None (Some RSame) None],
     instr_with ''clz'' [default_mode (Some [OI8, OI16, OI32, OI64, OI128]) None None (Some RSame) None],
     instr_with ''cls'' [default_mode (Some [OI8, OI16, OI32, OI64, OI128]) None None (Some RSame) None],
     instr_with ''ctz'' [default_mode (Some [OI8, OI16, OI32, OI64, OI128]) None None (Some RSame) None],
     instr_with ''bswap'' [default_mode (Some [OI16, OI32, OI64, OI128]) None None (Some RSame) None],
     instr_with ''popcnt'' [default_mode (Some [OI8, OI16, OI32, OI64, OI128, OI8x16]) None None (Some RSame) None],
     instr_with ''sqrt'' [default_mode (Some [OF32, OF64]) None None (Some RSame) None],
     instr_with ''fneg'' [default_mode (Some [OF32, OF64, OF32x4, OF64x2]) None None (Some RSame) None],
     instr_with ''fabs'' [default_mode (Some [OF32, OF64, OF32x4, OF64x2]) None None (Some RSame) None],
     instr_with ''ceil'' [default_mode (Some [OF32, OF64, OF32x4, OF64x2]) None None (Some RSame) None],
     instr_with ''floor'' [default_mode (Some [OF32, OF64, OF32x4, OF64x2]) None None (Some RSame) None],
     instr_with ''trunc'' [default_mode (Some [OF32, OF64, OF32x4, OF64x2]) None None (Some RSame) None],
     instr_with ''nearest'' [default_mode (Some [OF32, OF64, OF32x4, OF64x2]) None None (Some RSame) None],
     instr_with ''scalar_to_vector'' [default_mode (Some [OI8x16, OI16x8, OI32x4, OI64x2, OF32x4]) None None (Some RSame) None],
     instr_with ''bmask'' [default_mode None (Some [OI8, OI16, OI32, OI64, OI128]) (Some [OI8, OI16, OI32, OI64, OI128]) (Some RConditional) None],
     instr_with ''ireduce'' [default_mode (Some [OI8, OI16, OI32]) None None (Some RConditional) None],
     instr_with ''swiden_low'' [default_mode (Some [OI16x8, OI32x4, OI64x2]) None None (Some RConditional) None],
     instr_with ''swiden_high'' [default_mode (Some [OI16x8, OI32x4, OI64x2]) None None (Some RConditional) None],
     instr_with ''uwiden_low'' [default_mode (Some [OI16x8, OI32x4, OI64x2]) None None (Some RConditional) None]]"

definition riscv64_instrs_6 :: "instruction list" where
  "riscv64_instrs_6 = [
     instr_with ''uwiden_high'' [default_mode (Some [OI16x8, OI32x4, OI64x2]) None None (Some RConditional) None],
     instr_with ''uextend'' [default_mode (Some [OI16, OI32, OI64, OI128]) None None (Some RConditional) None],
     instr_with ''sextend'' [default_mode (Some [OI16, OI32, OI64, OI128]) None None (Some RConditional) None],
     instr_with ''fpromote'' [default_mode (Some [OF32]) None None (Some RConditional) None],
     instr_with ''fdemote'' [default_mode (Some [OF64]) None None (Some RConditional) None],
     instr_with ''fvdemote'' [default_mode (Some [OF64x2]) None None (Some RConditional) None],
     instr_with ''fvpromote_low'' [default_mode (Some [OF32x4]) None None (Some RConditional) None],
     instr_with ''fcvt_to_uint'' [default_mode (Some [OF32, OF64]) None None (Some RConditional) None],
     instr_with ''fcvt_to_sint'' [default_mode (Some [OF32, OF64]) None None (Some RConditional) None],
     instr_with ''fcvt_to_uint_sat'' [default_mode (Some [OF32, OF64, OF32x4, OF64x2]) None None (Some RConditional) None],
     instr_with ''fcvt_to_sint_sat'' [default_mode (Some [OF32, OF64, OF32x4, OF64x2]) None None (Some RConditional) None],
     instr_with ''fcvt_from_uint'' [default_mode (Some [OI32, OI64, OI32x4, OI64x2]) None None (Some RConditional) None],
     instr_with ''fcvt_from_sint'' [default_mode (Some [OI32, OI64, OI32x4, OI64x2]) None None (Some RConditional) None],
     instr_without ''ssub_overflow'',
     instr_without ''sadd_overflow'',
     instr_without ''smul_overflow'',
     instr_without ''uadd_overflow'',
     instr_without ''usub_overflow'',
     instr_without ''umul_overflow'',
     instr_with ''f16const'' [default_mode None None None None None],
     instr_with ''f32const'' [default_mode None None None None None],
     instr_with ''f64const'' [default_mode None None None None None],
     instr_with ''f128const'' [default_mode None None None None None],
     instr_with ''iconst'' [default_mode None None None None None],
     instr_with ''atomic_load'' [default_mode (Some [OI8, OI16, OI32, OI64]) None None None (Some True)],
     instr_without ''x86_pmulhrsw'']"

definition riscv64_instrs_7 :: "instruction list" where
  "riscv64_instrs_7 = [
     instr_without ''trapnz'',
     instr_without ''trapz'',
     instr_without ''br_table'',
     instr_without ''brif'',
     instr_without ''call'',
     instr_without ''call_indirect'',
     instr_without ''return_call'',
     instr_without ''return_call_indirect'',
     instr_with ''get_stack_pointer'' [default_mode (Some []) None None None None],
     instr_with ''get_frame_pointer'' [default_mode (Some []) None None None None],
     instr_with ''get_return_address'' [default_mode (Some []) None None None None],
     instr_without ''func_addr'',
     instr_with ''blendv'' [default_mode (Some [OI8x16, OI16x8, OI32x4, OI64x2, OF16x8, OF32x4, OF64x2]) None None (Some RSame) None],
     instr_with ''isplit'' [default_mode (Some [OI16, OI32, OI64, OI128]) None None (Some RConditional) None],
     instr_with ''get_pinned_reg'' [default_mode None None None None None],
     instr_with ''fence'' [default_mode None None None None None],
     instr_without ''symbol_value'',
     instr_without ''debugtrap'',
     instr_without ''jump'',
     instr_without ''dynamic_stack_store'',
     instr_with ''set_pinned_reg'' [default_mode None None None None None],
     instr_without ''tls_value'',
     instr_without ''dynamic_stack_addr'',
     instr_without ''nop'',
     instr_without ''trap'',
     instr_without ''return'',
     instr_without ''dynamic_stack_load'',
     instr_without ''stack_switch'',
     instr_without ''global_value'',
     instr_without ''vconst'',
     instr_without ''x86_pshufb'',
     instr_without ''x86_pmaddubsw'',
     instr_without ''x86_cvtt2dq'',
     instr_without ''try_call'',
     instr_with ''sequence_point'' [default_mode None None None None None]]"

definition riscv64_instrs_8 :: "instruction list" where
  "riscv64_instrs_8 = [
     instr_with ''ssub_overflow_bin'' [default_mode (Some [OI16, OI32, OI64]) None None (Some RSame) None],
     instr_with ''uadd_overflow_cin'' [default_mode (Some [OI16, OI32, OI64]) None None (Some RSame) None],
     instr_with ''sadd_overflow_cin'' [default_mode (Some [OI16, OI32, OI64]) None None (Some RSame) None],
     instr_without ''try_call_indirect'',
     instr_without ''get_exception_handler_address'',
     instr_with ''usub_overflow_bin'' [default_mode (Some [OI16, OI32, OI64]) None None (Some RSame) None],
     instr_without ''patchable_call'']"

definition riscv64_instrs :: "instruction list" where
  "riscv64_instrs = riscv64_instrs_1 @ riscv64_instrs_2 @ riscv64_instrs_3 @ riscv64_instrs_4 @ riscv64_instrs_5 @ riscv64_instrs_6 @ riscv64_instrs_7 @ riscv64_instrs_8"

definition riscv64_config :: arch_config where
  "riscv64_config = build_instruction_map \<lparr>cfg_arch = ''riscv64'',
     cfg_operand_types = [OI8, OI16, OI32, OI64, OI128, OF32, OF64, OI8x16, OI16x8, OI32x4, OI64x2, OF32x4, OF64x2],
     cfg_instructions = riscv64_instrs, cfg_tests = [''optimize''], cfg_config_sets = config_sets, cfg_target = targets_list, cfg_instruction_map = Map.empty\<rparr>"

definition yields_of :: "opcode_constraints \<Rightarrow> clif_type \<Rightarrow> clif_type list \<Rightarrow> clif_type option \<Rightarrow> bool" where
  "yields_of oc ty ts r =
     (case (case oc_ctrl oc of Operand k \<Rightarrow> nth_opt ts k | Explicit \<Rightarrow> Some ty | NotPoly \<Rightarrow> Some INVALID) of
        None \<Rightarrow> False
      | Some ct \<Rightarrow> typecheck_op oc ct ts \<and>
          (case result_types oc ct of None \<Rightarrow> False | Some rs \<Rightarrow> (case r of None \<Rightarrow> True | Some t \<Rightarrow> nth_opt rs 0 = Some t)))"

lemma op_yields_of: "constraints m = Some oc \<Longrightarrow> op_yields m = yields_of oc"
  by (intro ext) (auto simp: op_yields_def op_types_def yields_of_def split: option.splits)

lemma opcode_table_distinct: "distinct (map fst opcode_table)" by code_simp

lemma legal_table_distinct: "distinct (map fst legal_table)" by code_simp

lemma op_yields_table: "list_all (\<lambda>(m, oc). op_yields m = yields_of oc) opcode_table"
  using opcode_table_distinct by (auto simp: list_all_iff constraints_def intro!: op_yields_of)

lemma legal_mode_table: "list_all (\<lambda>(m, ok). legal_mode m = ok) legal_table"
  using legal_table_distinct by (auto simp: list_all_iff legal_mode_def)

lemmas op_yields_rules = op_yields_table [unfolded opcode_table_defs list_all_append list.pred_inject list.map append.simps prod.case]

lemmas legal_mode_rules = legal_mode_table [unfolded legal_table_def list_all_append list.pred_inject list.map append.simps prod.case]

definition legal_instr :: "instruction \<Rightarrow> bool" where
  "legal_instr i = (case instr_modes i of None \<Rightarrow> True | Some mds \<Rightarrow> list_all (legal_mode (instr_name i)) mds)"

lemma legal_instr_simps:
  "legal_instr (instr_with nm mds) = list_all (legal_mode nm) mds" "legal_instr (instr_without nm) = True"
  by (simp_all add: legal_instr_def instr_with_def instr_without_def)

lemma uses_modes:
  "uses m ops result (default_mode (Some ts) a0 a1 r mem) = list_all (\<lambda>t. op_yields m t (ops t) (result t)) (map to_cranelift_type ts)"
  "uses m ops result (default_mode None a0 a1 r mem) = True"
  "uses_pair m ops2 (default_mode o1 (Some ts) (Some us) r mem) =
     list_all (\<lambda>t0. list_all (\<lambda>t1. op_yields m t0 (ops2 t0 t1) (Some t0)) (map to_cranelift_type us)) (map to_cranelift_type ts)"
  "uses_pair m ops2 (default_mode o1 None a1 r mem) = True" "uses_pair m ops2 (default_mode o1 a0 None r mem) = True"
  "uses_select m (default_mode o1 (Some ts) a1 r mem) =
     list_all (\<lambda>ct. list_all (\<lambda>t. op_yields m t [ct, t, t] (Some t)) (map to_cranelift_type ts)) (map to_cranelift_type ts)"
  "uses_select m (default_mode o1 None a1 r mem) = True"
  by (auto simp: uses_def uses_pair_def uses_select_def default_mode_def mode_types_def list_all_iff)

lemmas legal_eval = list.pred_inject legal_instr_simps legal_mode_rules uses_modes op_yields_rules simp_thms

lemma answered_table_names: "map fst (answered_table T) = map fst legal_table"
  by (simp add: answered_table_def legal_table_def)

lemma answered_rows: "list_all (\<lambda>(m, ok). answered T m = ok) (answered_table T)"
  using legal_table_distinct by (auto simp: list_all_iff answered_def simp flip: answered_table_names [of T])

lemmas answered_rules = answered_rows [unfolded answered_table_def list_all_append list.pred_inject list.map append.simps prod.case]

definition answered_instr :: "clif_type list \<Rightarrow> instruction \<Rightarrow> bool" where
  "answered_instr T i = (case instr_modes i of None \<Rightarrow> True | Some mds \<Rightarrow> mds \<noteq> [] \<and> list_all (answered T (instr_name i)) mds)"

lemma answered_instr_simps:
  "answered_instr T (instr_with nm mds) = (mds \<noteq> [] \<and> list_all (answered T nm) mds)" "answered_instr T (instr_without nm) = True"
  by (simp_all add: answered_instr_def instr_with_def instr_without_def)

lemmas answered_eval = list.pred_inject answered_instr_simps answered_rules simp_thms list.distinct

lemma instr_names: "instr_name (instr_with nm mds) = nm" "instr_name (instr_without nm) = nm"
  by (simp_all add: instr_with_def instr_without_def)

subsection \<open>From the lists to the configurations\<close>

lemma built_lookup:
  assumes "cfg_instruction_map (build_instruction_map c) m = Some i"
  shows "i \<in> set (cfg_instructions c)" and "instr_name i = m"
  using map_of_SomeD [OF assms [unfolded build_instruction_map_def, simplified]] by auto

lemma legal_config_built: "list_all legal_instr (cfg_instructions c) \<Longrightarrow> legal_config (build_instruction_map c)"
  by (auto simp: legal_config_def legal_instr_def list_all_iff split: option.splits dest: built_lookup)

lemma complete_config_built:
  assumes names: "\<And>S. list_all (\<lambda>i. instr_name i \<in> S) (cfg_instructions c) \<Longrightarrow> list_all (\<lambda>m. m \<in> S) all_opcodes"
    and ok: "list_all (answered_instr (map to_cranelift_type (cfg_operand_types c))) (cfg_instructions c)"
  shows "complete_config (build_instruction_map c)"
proof -
  let ?c = "build_instruction_map c"
  have eq: "cfg_operand_types ?c = cfg_operand_types c" by (simp add: build_instruction_map_def)
  have "\<exists>i. cfg_instruction_map ?c m = Some i" if m: "m \<in> set all_opcodes" for m
  proof -
    have "list_all (\<lambda>i. instr_name i \<in> instr_name ` set (cfg_instructions c)) (cfg_instructions c)" by (simp add: list_all_iff)
    then have "m \<in> instr_name ` set (cfg_instructions c)" using names m unfolding list_all_iff by blast
    then have "m \<in> fst ` set (rev (map (\<lambda>i. (instr_name i, i)) (cfg_instructions c)))" by force
    then show ?thesis unfolding build_instruction_map_def by (simp add: map_of_eq_None_iff flip: not_None_eq)
  qed
  moreover have "answered_instr (map to_cranelift_type (cfg_operand_types c)) i" if "cfg_instruction_map ?c m = Some i" for m i
    using ok built_lookup(1) [OF that] by (simp add: list_all_iff)
  ultimately have "case cfg_instruction_map ?c m of None \<Rightarrow> False | Some i \<Rightarrow> (case instr_modes i of None \<Rightarrow> True
      | Some mds \<Rightarrow> mds \<noteq> [] \<and> list_all (answered (map to_cranelift_type (cfg_operand_types c)) m) mds)" if "m \<in> set all_opcodes" for m
    using that built_lookup(2) [of c m] by (fastforce simp: answered_instr_def split: option.splits)
  then show ?thesis unfolding complete_config_def eq list_all_iff by blast
qed

subsection \<open>The shipped configurations\<close>

lemmas x86_defs = x86_instrs_def x86_instrs_1_def x86_instrs_2_def x86_instrs_3_def x86_instrs_4_def x86_instrs_5_def x86_instrs_6_def x86_instrs_7_def x86_instrs_8_def

lemma x86_names: "list_all (\<lambda>i. instr_name i \<in> S) x86_instrs \<Longrightarrow> list_all (\<lambda>m. m \<in> S) all_opcodes"
  by (simp only: x86_defs list_all_append list.pred_inject instr_names all_opcodes_def simp_thms)

lemma x86_instrs_legal: "list_all legal_instr x86_instrs"
  by (simp only: x86_defs list_all_append legal_eval) code_simp

lemma x86_legal: "legal_config x86_config"
  unfolding x86_config_def
  by (rule legal_config_built) (simp add: x86_instrs_legal)

lemma x86_instrs_answered: "list_all (answered_instr [I8, I16, I32, I64, I128, F16, F32, F64, I8X16, I16X8, I32X4, I64X2, F16X8, F32X4, F64X2]) x86_instrs"
  by (simp only: x86_defs list_all_append answered_eval) code_simp

lemma x86_complete: "complete_config x86_config"
  unfolding x86_config_def
  by (rule complete_config_built) (simp_all only: arch_config.simps x86_names list.map to_cranelift_type.simps x86_instrs_answered)

lemmas aarch64_defs = aarch64_instrs_def aarch64_instrs_1_def aarch64_instrs_2_def aarch64_instrs_3_def aarch64_instrs_4_def aarch64_instrs_5_def aarch64_instrs_6_def aarch64_instrs_7_def aarch64_instrs_8_def

lemma aarch64_names: "list_all (\<lambda>i. instr_name i \<in> S) aarch64_instrs \<Longrightarrow> list_all (\<lambda>m. m \<in> S) all_opcodes"
  by (simp only: aarch64_defs list_all_append list.pred_inject instr_names all_opcodes_def simp_thms)

lemma aarch64_instrs_legal: "list_all legal_instr aarch64_instrs"
  by (simp only: aarch64_defs list_all_append legal_eval) code_simp

lemma aarch64_legal: "legal_config aarch64_config"
  unfolding aarch64_config_def
  by (rule legal_config_built) (simp add: aarch64_instrs_legal)

lemma aarch64_instrs_answered: "list_all (answered_instr [I8, I16, I32, I64, I128, F16, F32, F64, I8X16, I16X8, I32X4, I64X2, F32X4, F64X2]) aarch64_instrs"
  by (simp only: aarch64_defs list_all_append answered_eval) code_simp

lemma aarch64_complete: "complete_config aarch64_config"
  unfolding aarch64_config_def
  by (rule complete_config_built) (simp_all only: arch_config.simps aarch64_names list.map to_cranelift_type.simps aarch64_instrs_answered)

lemmas s390x_defs = s390x_instrs_def s390x_instrs_1_def s390x_instrs_2_def s390x_instrs_3_def s390x_instrs_4_def s390x_instrs_5_def s390x_instrs_6_def s390x_instrs_7_def s390x_instrs_8_def

lemma s390x_names: "list_all (\<lambda>i. instr_name i \<in> S) s390x_instrs \<Longrightarrow> list_all (\<lambda>m. m \<in> S) all_opcodes"
  by (simp only: s390x_defs list_all_append list.pred_inject instr_names all_opcodes_def simp_thms)

lemma s390x_instrs_answered: "list_all (answered_instr [I8, I16, I32, I64, I128, F32, F64, I8X16, I16X8, I32X4, I64X2, F32X4, F64X2]) s390x_instrs"
  by (simp only: s390x_defs list_all_append answered_eval) code_simp

lemma s390x_complete: "complete_config s390x_config"
  unfolding s390x_config_def
  by (rule complete_config_built) (simp_all only: arch_config.simps s390x_names list.map to_cranelift_type.simps s390x_instrs_answered)

lemmas riscv64_defs = riscv64_instrs_def riscv64_instrs_1_def riscv64_instrs_2_def riscv64_instrs_3_def riscv64_instrs_4_def riscv64_instrs_5_def riscv64_instrs_6_def riscv64_instrs_7_def riscv64_instrs_8_def

lemma riscv64_names: "list_all (\<lambda>i. instr_name i \<in> S) riscv64_instrs \<Longrightarrow> list_all (\<lambda>m. m \<in> S) all_opcodes"
  by (simp only: riscv64_defs list_all_append list.pred_inject instr_names all_opcodes_def simp_thms)

lemma riscv64_instrs_legal: "list_all legal_instr riscv64_instrs"
  by (simp only: riscv64_defs list_all_append legal_eval) code_simp

lemma riscv64_legal: "legal_config riscv64_config"
  unfolding riscv64_config_def
  by (rule legal_config_built) (simp add: riscv64_instrs_legal)

lemma riscv64_instrs_answered: "list_all (answered_instr [I8, I16, I32, I64, I128, F32, F64, I8X16, I16X8, I32X4, I64X2, F32X4, F64X2]) riscv64_instrs"
  by (simp only: riscv64_defs list_all_append answered_eval) code_simp

lemma riscv64_complete: "complete_config riscv64_config"
  unfolding riscv64_config_def
  by (rule complete_config_built) (simp_all only: arch_config.simps riscv64_names list.map to_cranelift_type.simps riscv64_instrs_answered)


end
