(* ===== verification/Config_Legal.thy ===== *)
theory Config_Legal
  imports Arch_Configs
begin

text \<open>
  Legality of configurations is inherited by their intersection: a mode that permits fewer uses than
  a legal mode is legal, so that one legal configuration among those of the compatible mode is enough.
\<close>

lemma mode_types_le: "types_le ts us \<Longrightarrow> mode_types ts \<subseteq> mode_types us"
  by (auto simp: types_le_def mode_types_def split: option.splits)

lemma uses_le: "mode_le m n \<Longrightarrow> uses nm ops result n \<Longrightarrow> uses nm ops result m"
  using mode_types_le unfolding uses_def mode_le_def by blast

lemma uses_pair_le: "mode_le m n \<Longrightarrow> uses_pair nm ops2 n \<Longrightarrow> uses_pair nm ops2 m"
  using mode_types_le unfolding uses_pair_def mode_le_def by blast

lemma uses_select_le: "mode_le m n \<Longrightarrow> uses_select nm n \<Longrightarrow> uses_select nm m"
  using mode_types_le unfolding uses_select_def mode_le_def by blast

lemma legal_table_le: "list_all (\<lambda>(nm, legal). \<forall>m n. mode_le m n \<longrightarrow> legal n \<longrightarrow> legal m) legal_table"
  unfolding legal_table_def list_all_append list.pred_inject list.map prod.case
  by (intro conjI allI impI TrueI list.pred_inject(1); (erule (1) uses_le uses_pair_le uses_select_le)?)

lemma legal_mode_le:
  assumes "mode_le m n" and "legal_mode nm n"
  shows "legal_mode nm m"
proof (cases "map_of legal_table nm")
  case (Some legal)
  then have "(nm, legal) \<in> set legal_table" by (rule map_of_SomeD)
  then show ?thesis using legal_table_le assms Some unfolding list_all_iff legal_mode_def by fastforce
qed (simp add: legal_mode_def)

lemma intersection_legal:
  assumes c: "config_intersection read_config paths = Some (Inr c)" and p: "p \<in> set paths" "read_config p = Inr d"
    and d: "list_all legal_instr (cfg_instructions d)"
  shows "list_all legal_instr (cfg_instructions c)"
proof -
  have "legal_mode (instr_name i) m" if i: "i \<in> set (cfg_instructions c)" "instr_modes i = Some ms" "m \<in> set ms" for i ms m
  proof -
    have "mode_allowed d (instr_name i) m" using config_intersection_allowed [OF c p(1) p(2) mode_allowed_own [OF i]] .
    then obtain j ns n where "j \<in> set (cfg_instructions d)" "instr_name j = instr_name i" "instr_modes j = Some ns" "n \<in> set ns" "mode_le m n"
      unfolding mode_allowed_def by blast
    moreover from this have "legal_mode (instr_name i) n" using d by (auto simp: list_all_iff legal_instr_def)
    ultimately show ?thesis using legal_mode_le by blast
  qed
  then show ?thesis by (auto simp: list_all_iff legal_instr_def split: option.splits)
qed

end
