(* ===== verification/Spec2Isabelle.thy ===== *)
theory Spec2Isabelle
  imports Driver_Files Config_Legal
begin

text \<open>
  Header.
\<close>

section \<open>Properties\<close>

subsection \<open>Control flow\<close>

text \<open>
  C2. Construction of control flow: starting from an empty function, with a generator that honours
  its ranges, \<open>cf_construct\<close> never panics, and in the function it builds every block lies on a path
  from the entry to the one block without a branch, no branch goes to the entry, and no block
  branches to itself.
\<close>

theorem cf_construct_correct:
  assumes "rand_ok R" and "rng_ready g"
  shows "\<exists>f g' ex. cf_construct R (func_new nm sg) None 0 g = Some (f, g') \<and> rng_ready g' \<and> wf_flow f \<and>
    ex \<in> flow_nodes f \<and>
    (\<forall>b. b \<in> flow_nodes f \<longrightarrow> (flow_entry f, b) \<in> (flow_edges f)\<^sup>* \<and> (b, ex) \<in> (flow_edges f)\<^sup>* \<and>
       (targets f b = [] \<longleftrightarrow> b = ex)) \<and>
    (\<forall>b. flow_entry f \<notin> set (targets f b) \<and> b \<notin> set (targets f b))"
proof -
  obtain f g' en ex where f: "cf_construct R (func_new nm sg) None 0 g = Some (f, g')" "rng_ready g'" "cf_inv f en ex"
    using cf_construct_new_ex [OF assms] by blast
  note flow = cf_inv_flow [OF f(3)]
  have "targets f b = [] \<longleftrightarrow> b = ex" if "b \<in> flow_nodes f" for b
    using cf_inv_exit [OF f(3), of b] that by (simp add: flow_nodes_def)
  then show ?thesis
    using f flow by (intro exI [of _ f] exI [of _ g'] exI [of _ ex]) (auto simp: cf_inv_def flow_nodes_def)
qed

theorem cf_construct_correct_witness:
  "\<exists>f g' ex. cf_construct tape_rand (func_new (Testcase ''main'') \<lparr>sig_params = [], sig_returns = []\<rparr>) None 0
      (initialize_rng \<lparr>rng_state = [2, 1, 4], global_rng = None\<rparr>) = Some (f, g') \<and>
    wf_flow f \<and> ex \<in> flow_nodes f \<and> targets f ex = []"
  using cf_construct_correct [of tape_rand "initialize_rng \<lparr>rng_state = [2, 1, 4], global_rng = None\<rparr>"
      "Testcase ''main''" "\<lparr>sig_params = [], sig_returns = []\<rparr>"] by fastforce

text \<open>
  C4. Dominators: on a function whose branches lead to its own blocks, \<open>compute_dominators\<close>
  terminates and maps every block to the set of the blocks that lie on every path from the entry to
  it.
\<close>

theorem compute_dominators_correct:
  assumes "wf_flow f"
  shows "\<exists>doms. compute_dominators f = Some doms \<and> map fst doms = lo_blocks (fn_layout f) \<and>
    (\<forall>n. n \<in> flow_nodes f \<longrightarrow>
       map_of doms n = Some {d \<in> flow_nodes f. dominates (flow_edges f) (flow_entry f) d n})"
  using compute_dominators_flow [OF assms] by (auto simp: flow.dom_set_def)

text \<open>
  C13. Traversal order: \<open>dfs\<close> visits exactly the blocks that can be reached from the entry, each once.
\<close>

theorem dfs_correct:
  assumes "wf_flow f"
  shows "\<exists>g order. with_function f = Some g \<and> dfs g (flow_entry f) = Some order \<and> distinct order \<and>
    set order = {b. (flow_entry f, b) \<in> (flow_edges f)\<^sup>*}"
proof -
  obtain g where g: "with_function f = Some g" "cfg_of f (flow_nodes f) g"
    using with_function_flow [OF assms] by blast
  then show ?thesis using dfs_flow [OF assms g(2)] by auto
qed

text \<open>
  C14. The control flow graph: \<open>with_function\<close> succeeds on every function whose blocks end in
  branches it can read, its successors of a block are the sorted targets of the branch of the block,
  and a block is listed as a predecessor exactly of its successors.
\<close>

theorem with_function_iterators:
  assumes "flow_ok f"
  shows "\<exists>g. with_function f = Some g \<and>
    (\<forall>b. b \<in> flow_nodes f \<longrightarrow> succ_iter g b = sorted_list_of_set (set (targets f b))) \<and>
    (\<forall>p b. p \<in> fst ` set (pred_iter g b) \<longleftrightarrow> p \<in> flow_nodes f \<and> b \<in> set (targets f p)) \<and>
    (\<forall>b. distinct (map fst (pred_iter g b)))"
proof -
  obtain g where g: "with_function f = Some g" "cfg_of f (flow_nodes f) g"
    using with_function_correct [OF assms] by (auto simp: flow_nodes_def)
  have "wf_layout (fn_layout f)" using assms by (simp add: flow_ok_def)
  then show ?thesis
    using g succ_iter_eq [OF g(2)] succ_pred_iter [OF g(2)] succ_iter_iff [OF g(2)] pred_iter_distinct [OF g(2)]
    by auto
qed

text \<open>A function with a loop, on which the flow theorems are exercised.\<close>

definition loop_func :: func where
  "loop_func = (func_new (Testcase ''main'') \<lparr>sig_params = [], sig_returns = []\<rparr>)
     \<lparr>dfg_blocks := [[], [], []],
      dfg_insts := [Jump (BlockCall 1 []), Brif 0 (BlockCall 1 []) (BlockCall 2 [])],
      fn_layout := \<lparr>lo_blocks = [0, 1, 2], lo_insts = (\<lambda>b. if b = 0 then [0] else if b = 1 then [1] else [])\<rparr>\<rparr>"

lemma loop_func_flow: "wf_flow loop_func" "flow_ok loop_func"
proof -
  have "wf_layout (fn_layout loop_func)" by (auto simp: wf_layout_def loop_func_def func_new_def)
  then show "flow_ok loop_func"
    by (simp add: flow_ok_def loop_func_def func_new_def visit_block_succs_def last_inst_def nth_opt_def)
  then show "wf_flow loop_func"
    by (auto simp: wf_flow_def flow_nodes_def targets_def loop_func_def func_new_def visit_block_succs_def
        last_inst_def nth_opt_def)
qed

theorem compute_dominators_correct_witness:
  "\<exists>doms. compute_dominators loop_func = Some doms \<and> map fst doms = [0, 1, 2] \<and>
    map_of doms 2 = Some {d \<in> flow_nodes loop_func. dominates (flow_edges loop_func) (flow_entry loop_func) d 2}"
  using compute_dominators_correct [OF loop_func_flow(1)]
  by (auto simp: loop_func_def func_new_def flow_nodes_def)

theorem dfs_correct_witness:
  "\<exists>g order. with_function loop_func = Some g \<and> dfs g (flow_entry loop_func) = Some order \<and> distinct order \<and>
    set order = {b. (flow_entry loop_func, b) \<in> (flow_edges loop_func)\<^sup>*}"
  using dfs_correct [OF loop_func_flow(1)] .

theorem with_function_iterators_witness:
  "\<exists>g. with_function loop_func = Some g \<and> succ_iter g 1 = [1, 2]"
proof -
  obtain g where g: "with_function loop_func = Some g"
    "\<And>b. b \<in> flow_nodes loop_func \<Longrightarrow> succ_iter g b = sorted_list_of_set (set (targets loop_func b))"
    using with_function_iterators [OF loop_func_flow(2)] by blast
  have "1 \<in> flow_nodes loop_func" "targets loop_func 1 = [1, 2]"
    by (simp_all add: flow_nodes_def targets_def loop_func_def func_new_def visit_block_succs_def last_inst_def nth_opt_def)
  then show ?thesis using g by simp
qed

subsection \<open>Configurations\<close>

text \<open>
  C10. Intersection of configurations: a use of an instruction that the intersection of several
  configurations permits is permitted by each of them.
\<close>

theorem config_intersection_sound:
  assumes "config_intersection read_config paths = Some (Inr c)" and "p \<in> set paths"
    and "mode_allowed c nm m"
  shows "\<exists>d. read_config p = Inr d \<and> mode_allowed d nm m"
proof -
  obtain d ds where ds: "map read_config paths = map Inr (d # ds)"
    using config_intersection_Inr [OF assms(1)] by blast
  have "read_config p \<in> set (map read_config paths)" using assms(2) by simp
  then obtain e where "read_config p = Inr e" unfolding ds by auto
  then show ?thesis using config_intersection_allowed [OF assms(1,2) _ assms(3)] by blast
qed

definition add_mode :: "operand_type list \<Rightarrow> mode" where
  "add_mode ts = \<lparr>mode_name = ''default'', mode_operand_types = Some ts, mode_arg0_types = None,
     mode_arg1_types = None, mode_result_type = None, mode_memory = None\<rparr>"

definition add_config :: "operand_type list \<Rightarrow> arch_config" where
  "add_config ts = (let i = \<lparr>instr_name = ''iadd'', instr_modes = Some [add_mode ts]\<rparr> in
     \<lparr>cfg_arch = ''x86_64'', cfg_operand_types = ts, cfg_instructions = [i], cfg_tests = [''interpret''],
      cfg_config_sets = [], cfg_target = [''x86_64''], cfg_instruction_map = [''iadd'' \<mapsto> i]\<rparr>)"

theorem config_intersection_sound_witness:
  "\<exists>c. config_intersection (\<lambda>p. Inr (add_config (if p = ''a'' then [OI8, OI32] else [OI32]))) [''a'', ''b''] =
      Some (Inr c) \<and> mode_allowed c ''iadd'' (add_mode [OI32]) \<and> mode_allowed (add_config [OI32]) ''iadd'' (add_mode [OI32])"
proof -
  let ?rc = "\<lambda>p. Inr (add_config (if p = ''a'' then [OI8, OI32] else [OI32])) :: string + arch_config"
  let ?c = "config_step (add_config [OI32]) (add_config [OI8, OI32])"
  have c: "config_intersection ?rc [''a'', ''b''] = Some (Inr ?c)"
    by (simp add: config_intersection_def)
  have m: "mode_allowed ?c ''iadd'' (add_mode [OI32])"
    by (simp add: mode_allowed_def config_step_def instr_intersect_def add_config_def add_mode_def Let_def
        modes_intersect_def mode_intersect_def agree_def intersect_optional_vec_def build_instruction_map_def
        mode_le_def types_le_def List.map_filter_def)
  show ?thesis using config_intersection_sound [OF c _ m, of "''b''"] c m by auto
qed

subsection \<open>Selection of instructions\<close>







subsection \<open>Generation of functions\<close>


text \<open>A control flow with a join, and a configuration in which only \<open>iadd\<close> is used.\<close>

definition join_start :: "nat list genv" where
  "join_start = initialize_rng \<lparr>rng_state = [0, 1], global_rng = None\<rparr>"

definition join_func :: func where
  "join_func = (case cf_construct tape_rand (func_new (User 1 1) \<lparr>sig_params = [I32, I64], sig_returns = [I32]\<rparr>) None 0 join_start of
      Some (f, g) \<Rightarrow> f
    | None \<Rightarrow> func_new (User 1 1) \<lparr>sig_params = [], sig_returns = []\<rparr>)"

definition only_add_config :: "operand_type list \<Rightarrow> arch_config" where
  "only_add_config ts = (add_config ts)\<lparr>cfg_instruction_map :=
     (\<lambda>nm. Some \<lparr>instr_name = nm, instr_modes = if nm = ''iadd'' then Some [add_mode ts] else None\<rparr>)\<rparr>"

lemma only_add_config_legal: "legal_config (only_add_config [OI32, OI64])"
proof -
  have "legal_mode ''iadd'' (add_mode [OI32, OI64])" by code_simp
  then show ?thesis by (simp add: legal_config_def only_add_config_def)
qed

lemma join_func_fills: "fill_blocks tape_rand (only_add_config [OI32, OI64]) join_func join_start \<noteq> None"
  by code_simp


subsection \<open>The call graph\<close>

text \<open>
  C11. The call graph: \<open>generate_function_call_graph\<close> never panics; the tree it builds has depth four and
  between 5 and 31 functions with distinct names, every function but the root has a signature of eight
  or nine distinct parameters and returns out of the candidate types, and in the post order every
  function stands after the functions it calls, the root last.
\<close>

theorem generate_function_call_graph_shape:
  assumes "rand_ok R"
  shows "\<exists>root g'. generate_function_call_graph R g = Some (root, g') \<and> depth root = 4 \<and>
    5 \<le> length (cg_post_order_traversal root) \<and> length (cg_post_order_traversal root) < 32 \<and>
    distinct (map node_name (cg_post_order_traversal root)) \<and> callees_first (cg_post_order_traversal root) \<and>
    last (cg_post_order_traversal root) = root \<and>
    list_all (\<lambda>n. sig_drawn (node_sig n)) (butlast (cg_post_order_traversal root))"
proof -
  let ?sg = "\<lparr>sig_params = [], sig_returns = []\<rparr>" let ?root = "\<lambda>cs. FunctionNode (func_new (Testcase ''main'') ?sg) ?sg (Testcase ''main'') cs"
  obtain cs j g' where c: "generate_function_call_graph R g = Some (?root cs, g')" "tree_ok 4 (?root cs)" "grown 3 0 j cs"
    using call_graph_grown [OF assms, of g] by blast
  have order: "cg_post_order_traversal (?root cs) = descendants cs @ [?root cs]" by (simp add: descendants_def)
  have names: "distinct (map node_name (descendants cs))" "set (map node_name (descendants cs)) = User 1 ` {0<..j}"
    using c(3) unfolding grown_def by blast+
  have "Testcase ''main'' \<notin> set (map node_name (descendants cs))" unfolding names(2) by auto
  then have "distinct (map node_name (cg_post_order_traversal (?root cs)))" using names(1) unfolding order by simp
  moreover have "sig_drawn (node_sig n)" if "n \<in> set (butlast (cg_post_order_traversal (?root cs)))" for n
    using tree_ok_descendants [OF c(2), of n] that unfolding order by simp
  ultimately show ?thesis
    using c(1) tree_ok_depth [OF c(2)] tree_ok_size [OF c(2)] post_order_callees_first [of "?root cs"] post_order_last [of "?root cs"]
    by (intro exI [of _ "?root cs"] exI [of _ g']) (simp add: list_all_iff del: cg_post_order_traversal.simps depth.simps)
qed

theorem generate_function_call_graph_shape_witness:
  "\<exists>root g'. generate_function_call_graph tape_rand \<lparr>rng_state = [1, 0], global_rng = None\<rparr> = Some (root, g') \<and> depth root = 4 \<and>
    5 \<le> length (cg_post_order_traversal root) \<and> callees_first (cg_post_order_traversal root)"
  using generate_function_call_graph_shape [OF rand_ok_tape, of "\<lparr>rng_state = [1, 0], global_rng = None\<rparr>"] by blast

subsection \<open>Insertion of calls\<close>

text \<open>
  C6. Inserting calls keeps functions well formed: for a function whose entry offers the types of the
  parameters of its callees, \<open>insert_function_invocation\<close> never panics, the function stays valid and
  ready for more calls, its blocks, name and signature are kept, and it imports exactly its callees,
  in their order and with their signatures, behind what it imported before.
\<close>

theorem insert_function_invocation_valid:
  assumes "rand_ok R" and "callables T entries f"
    and "\<forall>h \<in> set (map node_func cs). set (sig_params (fn_sig h)) \<subseteq> T \<and> (\<exists>ns k. fn_name h = User ns k)"
  shows "\<exists>f' g'. insert_function_invocation R entries (FunctionNode f sg nm cs) g = Some (FunctionNode f' sg nm cs, g') \<and>
    valid_func f' \<and> callables T entries f' \<and> fn_name f' = fn_name f \<and> fn_sig f' = fn_sig f \<and>
    lo_blocks (fn_layout f') = lo_blocks (fn_layout f) \<and>
    ext_funcs f' = ext_funcs f @ imports_of (map node_func cs) (length (signatures f)) \<and>
    signatures f' = signatures f @ map (\<lambda>c. fn_sig (node_func c)) cs"
proof -
  obtain f' g' where f': "foldM (invoke_child R entries) (map node_func cs) (f, g) = Some (f', g')" "keeps f f'"
    using invoke_children_valid [OF assms] by blast
  have "valid_func f'" "callables T entries f'" using callables_keeps [OF assms(2) f'(2)] by (simp_all add: callables_def)
  then show ?thesis using f' invoke_children_imports [OF f'(1)] by (simp add: get_child_funcs_clone_def keeps_def extends_def comp_def)
qed

lemma join_func_construct:
  "\<exists>g. cf_construct tape_rand (func_new (User 1 1) \<lparr>sig_params = [I32, I64], sig_returns = [I32]\<rparr>) None 0 join_start = Some (join_func, g)"
  using cf_construct_new_ex [OF rand_ok_tape, of join_start "User 1 1" "\<lparr>sig_params = [I32, I64], sig_returns = [I32]\<rparr>"]
  by (auto simp: join_func_def join_start_def)

lemma join_func_callable:
  "\<exists>f doms defs g. function_generator tape_rand (only_add_config [OI32, OI64]) False join_func join_start = Some (f, doms, defs, g) \<and>
    callable {I32, I64} doms defs f"
proof -
  have R: "rng_ready join_start" by (simp add: join_start_def)
  obtain g1 where run: "cf_construct tape_rand (func_new (User 1 1) \<lparr>sig_params = [I32, I64], sig_returns = [I32]\<rparr>) None 0 join_start = Some (join_func, g1)"
    using join_func_construct by blast
  obtain en ex where cf: "cf_inv join_func en ex" using cf_construct_new [OF rand_ok_tape R run] by blast
  have sig: "fn_sig join_func = \<lparr>sig_params = [I32, I64], sig_returns = [I32]\<rparr>"
    using head_cf_construct [OF run] by (simp add: head_of_def func_new_def)
  have cov: "returns_covered False (only_add_config [OI32, OI64]) (fn_sig join_func)"
    by (simp add: sig returns_covered_def)
  from function_generator_sound [OF rand_ok_tape only_add_config_legal cf cov join_func_fills] show ?thesis
    by (force simp: sig only_add_config_def add_config_def Let_def insert_commute)
qed

theorem insert_function_invocation_valid_witness:
  "\<exists>f doms defs g f' g'. function_generator tape_rand (only_add_config [OI32, OI64]) False join_func join_start = Some (f, doms, defs, g) \<and>
    insert_function_invocation tape_rand [(f, doms, defs)] (FunctionNode f (fn_sig f) (User 1 1)
      [FunctionNode (func_new (User 1 2) \<lparr>sig_params = [I64], sig_returns = [I32]\<rparr>) \<lparr>sig_params = [I64], sig_returns = [I32]\<rparr> (User 1 2) []]) g =
      Some (FunctionNode f' (fn_sig f) (User 1 1)
      [FunctionNode (func_new (User 1 2) \<lparr>sig_params = [I64], sig_returns = [I32]\<rparr>) \<lparr>sig_params = [I64], sig_returns = [I32]\<rparr> (User 1 2) []], g') \<and> valid_func f'"
proof -
  let ?c = "FunctionNode (func_new (User 1 2) \<lparr>sig_params = [I64], sig_returns = [I32]\<rparr>) \<lparr>sig_params = [I64], sig_returns = [I32]\<rparr> (User 1 2) []"
  obtain f doms defs g where f: "function_generator tape_rand (only_add_config [OI32, OI64]) False join_func join_start = Some (f, doms, defs, g)"
    "callable {I32, I64} doms defs f" using join_func_callable by blast
  have c: "callables {I32, I64} [(f, doms, defs)] f" using f(2) by (simp add: callables_def callable_def)
  have h: "\<forall>h \<in> set (map node_func [?c]). set (sig_params (fn_sig h)) \<subseteq> {I32, I64} \<and> (\<exists>ns k. fn_name h = User ns k)" by (simp add: func_new_def)
  show ?thesis using insert_function_invocation_valid [OF rand_ok_tape c h, of "fn_sig f" "User 1 1" g] f(1) by blast
qed

subsection \<open>Modules\<close>

text \<open>
  C12. The shipped configurations: those for x86, aarch64 and riscv64 list only types that the opcodes
  accept and that the generator provides, have an entry for every opcode, and offer every type a
  signature can draw.
\<close>

theorem shipped_configs_usable: "generator_config x86_config \<and> generator_config aarch64_config \<and> generator_config riscv64_config"
proof -
  have "set candidate_types \<subseteq> to_cranelift_type ` set (cfg_operand_types c)" if "c \<in> {x86_config, aarch64_config, riscv64_config}" for c
    using that by (auto simp: candidate_types_def x86_config_def aarch64_config_def riscv64_config_def build_instruction_map_def)
  then show ?thesis
    by (simp add: generator_config_def x86_legal x86_complete aarch64_legal aarch64_complete riscv64_legal riscv64_complete)
qed

lemma x86_usable: "generator_config x86_config"
  unfolding generator_config_def using x86_legal x86_complete
  by (auto simp: candidate_types_def x86_config_def build_instruction_map_def)

text \<open>
  C7. Functions are completed: with a usable configuration, building the control flow and generating
  the instructions of a function with a drawn signature, or of the root, always returns; the result is
  valid, keeps its name and imports nothing yet.
\<close>

theorem function_generator_returns:
  assumes "rand_ok R" and "fcmp_ends R" and "generator_config cfg" and "rng_ready g"
    and "if r then sig_params sg = [] else sig_drawn sg"
  shows "\<exists>f1 g1 f doms defs g2. cf_construct R (func_new nm sg) None 0 g = Some (f1, g1) \<and>
    function_generator R cfg r f1 g1 = Some (f, doms, defs, g2) \<and> valid_func f \<and> fn_name f = nm \<and>
    (\<not> r \<longrightarrow> fn_sig f = sg) \<and> ext_funcs f = [] \<and> rng_ready g2"
proof -
  have "returns_covered r cfg sg"
  proof (cases r)
    case True
    then show ?thesis using assms(3,5) by (simp add: returns_covered_def generator_config_def)
  next
    case False
    then show ?thesis using sig_drawn_covered [OF assms(3)] assms(5) by simp
  qed
  from build_function [OF assms(1-3) this assms(4), of nm] show ?thesis by (auto simp: callable_def)
qed

theorem function_generator_returns_witness:
  "\<exists>f1 g1 f doms defs g2. cf_construct tape_rand (func_new (Testcase ''main'') \<lparr>sig_params = [], sig_returns = []\<rparr>) None 0
      (initialize_rng \<lparr>rng_state = [3, 1, 4], global_rng = None\<rparr>) = Some (f1, g1) \<and>
    function_generator tape_rand x86_config True f1 g1 = Some (f, doms, defs, g2) \<and> valid_func f"
  using function_generator_returns [OF rand_ok_tape fcmp_ends_tape x86_usable, of "initialize_rng \<lparr>rng_state = [3, 1, 4], global_rng = None\<rparr>"
      True "\<lparr>sig_params = [], sig_returns = []\<rparr>" "Testcase ''main''"] by fastforce

text \<open>
  C1. Modules: with a usable configuration, \<open>generate_module\<close> never panics and writes between 5 and 31
  functions, each of them valid, with distinct names and the main function last, such that every
  function imports only functions written before it, under the signatures these have.
\<close>

theorem generate_module_correct:
  assumes "rand_ok R" and "fcmp_ends R" and "generator_config cfg" and "rng_ready g"
  shows "\<exists>fs g'. generate_module W R cfg g = Some (newline @ concat (map W fs) @ newline @ newline @ ''; print: %main()'', g') \<and>
    module_ok fs \<and> 5 \<le> length fs \<and> length fs < 32 \<and> rng_ready g'"
  by (rule generate_module_sound [OF assms])

theorem generate_module_correct_witness:
  "\<exists>fs g'. generate_module (\<lambda>f. decimal (length (dfg_insts f))) tape_rand x86_config (initialize_rng \<lparr>rng_state = [1, 2, 3], global_rng = None\<rparr>) =
      Some (newline @ concat (map (\<lambda>f. decimal (length (dfg_insts f))) fs) @ newline @ newline @ ''; print: %main()'', g') \<and> module_ok fs"
  using generate_module_correct [OF rand_ok_tape fcmp_ends_tape x86_usable, of "initialize_rng \<lparr>rng_state = [1, 2, 3], global_rng = None\<rparr>"
      "\<lambda>f. decimal (length (dfg_insts f))"] by fastforce





text \<open>
  C17. Legality and intersection: one legal configuration among those of the compatible mode is enough
  for the configurations the compatible mode generates with to be legal.
\<close>

theorem config_intersection_legal:
  assumes "config_intersection read_config paths = Some (Inr common)" and "p \<in> set paths" and "read_config p = Inr d"
    and "list_all legal_instr (cfg_instructions d)"
  shows "legal_config (specialise common c)"
proof -
  have "list_all legal_instr (cfg_instructions common)" by (rule intersection_legal [OF assms])
  then show ?thesis unfolding specialise_def by (intro legal_config_built) simp
qed

theorem config_intersection_legal_witness:
  "\<exists>common. config_intersection (\<lambda>p. Inr (if p = ''s390x'' then s390x_config else x86_config)) [''s390x'', ''x86''] = Some (Inr common) \<and>
    legal_config (specialise common s390x_config)"
proof -
  let ?rc = "\<lambda>p. Inr (if p = ''s390x'' then s390x_config else x86_config) :: string + arch_config"
  have c: "config_intersection ?rc [''s390x'', ''x86''] = Some (Inr (config_step x86_config s390x_config))" by (simp add: config_intersection_def)
  have l: "list_all legal_instr (cfg_instructions x86_config)" using x86_instrs_legal by (simp add: x86_config_def build_instruction_map_def)
  show ?thesis using config_intersection_legal [OF c _ _ l, of "''x86''" s390x_config] c by simp
qed

subsection \<open>The program\<close>



text \<open>
  C16. Messages of the program: it returns a message exactly in these cases: the mode is unknown; the
  output directory cannot be created although the configurations could be read; or, in the compatible
  mode, a configuration cannot be read, and then the message is that of the first such configuration.
\<close>

theorem run_main_messages:
  "run_main read_config create_dir documents W R args g = Some (Inl e) \<longleftrightarrow>
    cli_mode args \<notin> {''single'', ''compatible''} \<and> e = ''Unknown mode: '' @ cli_mode args \<or>
    cli_mode args = ''single'' \<and> (\<exists>p ps c m. cli_config_paths args = p # ps \<and> read_config p = Inr c \<and>
      create_dir (cli_output_path args) = Some m \<and> e = ''Failed to create output dir: '' @ m) \<or>
    cli_mode args = ''compatible'' \<and> (\<exists>m. first_failure read_config (cli_config_paths args) = Some m \<and> e = ''Failed to compute config intersection: '' @ m) \<or>
    cli_mode args = ''compatible'' \<and> cli_config_paths args \<noteq> [] \<and> first_failure read_config (cli_config_paths args) = None \<and>
      (\<exists>m. create_dir (cli_output_path args) = Some m \<and> e = ''Failed to create output dir: '' @ m)"
proof -
  consider "cli_mode args = ''single''" | "cli_mode args = ''compatible''" | "cli_mode args \<notin> {''single'', ''compatible''}" by blast
  then show ?thesis
  proof cases
    case 1
    show ?thesis
      by (cases "cli_config_paths args"; cases "read_config (hd (cli_config_paths args))"; cases "create_dir (cli_output_path args)")
        (auto simp: 1 run_main_def load_config_def nth_opt_def bind_eq_Some_conv)
  next
    case 2
    show ?thesis
    proof (cases "first_failure read_config (cli_config_paths args)")
      case None
      then have "(\<exists>c. config_intersection read_config (cli_config_paths args) = Some (Inr c)) \<or>
          cli_config_paths args = [] \<and> config_intersection read_config (cli_config_paths args) = None"
        using config_intersection_cases(2) [OF None] config_intersection_cases(3) by (cases "cli_config_paths args = []") auto
      then show ?thesis using None config_intersection_cases(3) [of read_config]
        by (cases "create_dir (cli_output_path args)") (auto simp: 2 run_main_def bind_eq_Some_conv)
    next
      case (Some m)
      then show ?thesis using config_intersection_cases(1) [OF Some] by (auto simp: 2 run_main_def)
    qed
  next
    case 3
    then show ?thesis by (auto simp: run_main_def)
  qed
qed

theorem run_main_messages_witness:
  "run_main (\<lambda>p. if p = ''b'' then Inl ''no such file'' else Inr x86_config) (\<lambda>_. None) (Inr () :: string + unit) (\<lambda>_. ''f'') tape_rand
      \<lparr>cli_mode = ''compatible'', cli_config_paths = [''a'', ''b'', ''c''], cli_num = 1, cli_output_path = ''out''\<rparr> \<lparr>rng_state = [], global_rng = None\<rparr> =
      Some (Inl (''Failed to compute config intersection: '' @ ''no such file''))"
  by (subst run_main_messages) (simp add: first_failure_def)

subsection \<open>Types\<close>

text \<open>
  C15. The sixteen bit encoding of types refines the abstract types: on every lane type and every vector
  of up to 256 lanes, the operations of \<open>types.rs\<close>, which mask and shift the code of a type, compute the
  code of what the abstract operations give, failures included, and different types have different codes.
\<close>

theorem type_codes_refine:
  assumes "wf_type t"
  shows "lane_type_code (type_repr t) = type_repr (lane_type t) \<and> lane_bits_code (type_repr t) = lane_bits t \<and>
    lane_count_code (type_repr t) = lane_count t \<and> bits_code (type_repr t) = type_bits t \<and>
    is_vector_code (type_repr t) = is_vector t \<and> as_truthy_code (type_repr t) = type_repr (as_truthy t) \<and>
    half_width_code (type_repr t) = map_option type_repr (half_width t) \<and>
    double_width_code (type_repr t) = map_option type_repr (double_width t) \<and>
    split_lanes_code (type_repr t) = map_option type_repr (split_lanes t) \<and>
    merge_lanes_code (type_repr t) = map_option type_repr (merge_lanes t) \<and>
    (\<forall>s. wf_type s \<longrightarrow> type_repr s = type_repr t \<longrightarrow> s = t)"
  using assms type_repr_inj [OF _ assms]
  by (simp add: lane_type_code_repr lane_bits_code_repr lane_count_code_repr bits_code_repr is_vector_code_repr as_truthy_code_repr
      half_width_code_repr double_width_code_repr split_lanes_code_repr merge_lanes_code_repr)

theorem type_codes_refine_witness:
  "wf_type I32X4 \<and> bits_code (type_repr I32X4) = 128 \<and> split_lanes_code (type_repr I32X4) = map_option type_repr (split_lanes I32X4)"
proof -
  have "wf_type I32X4" "type_bits I32X4 = 128" by code_simp+
  then show ?thesis using type_codes_refine [of I32X4] by simp
qed

end
